(* ===== verification/Go_Prelude.thy ===== *)
theory Go_Prelude
  imports Main "HOL-Library.Multiset"
begin

section \<open>What the Go code uses of the language and its standard library\<close>

text \<open>
  Shared by every component: the wrap-around of Go's 64-bit \<open>int\<close>, strings as lists of
  bytes with the functions of \<open>strings\<close>, \<open>strconv\<close> and \<open>path/filepath\<close> that the
  program calls, index swaps for \<open>rand.Shuffle\<close>, and generic facts on lists and options.
  Letter case and white space are those of ASCII: bytes from 128 on are left alone.
\<close>

named_theorems go_int \<comment> \<open>facts that remove the 64-bit wrap where a value fits\<close>

named_theorems go_eval \<comment> \<open>what evaluates characters and strings on closed terms\<close>

lemmas char_eval [go_eval] = char_of_def bit_Suc_0_iff

subsection \<open>Machine integers\<close>

text \<open>Go's \<open>int\<close> and \<open>int64\<close> on the supported platforms: 64 bits, two's complement.\<close>

definition wrap64 :: "int \<Rightarrow> int" where
  "wrap64 x = (x + 2 ^ 63) mod 2 ^ 64 - 2 ^ 63"

definition in_int64 :: "int \<Rightarrow> bool" where
  "in_int64 x \<longleftrightarrow> - (2 ^ 63) \<le> x \<and> x < 2 ^ 63"

definition add64 :: "int \<Rightarrow> int \<Rightarrow> int" where
  "add64 a b = wrap64 (a + b)"

definition sub64 :: "int \<Rightarrow> int \<Rightarrow> int" where
  "sub64 a b = wrap64 (a - b)"

definition mul64 :: "int \<Rightarrow> int \<Rightarrow> int" where
  "mul64 a b = wrap64 (a * b)"

lemma wrap64_id [go_int]: "in_int64 x \<Longrightarrow> wrap64 x = x"
  by (simp add: wrap64_def in_int64_def)

lemma in_int64_wrap64 [simp]: "in_int64 (wrap64 x)"
proof -
  have "0 \<le> (x + 2 ^ 63) mod (2 ^ 64 :: int)" and "(x + 2 ^ 63) mod (2 ^ 64 :: int) < 2 ^ 64"
    by simp_all
  then show ?thesis
    by (simp add: wrap64_def in_int64_def)
qed

lemma wrap64_ge: "x < 2 ^ 63 \<Longrightarrow> x \<le> wrap64 x"
proof -
  assume "x < 2 ^ 63"
  show ?thesis
  proof (cases "- (2 ^ 63) \<le> x")
    case True
    with \<open>x < 2 ^ 63\<close> have "in_int64 x" by (simp add: in_int64_def)
    then show ?thesis by (simp add: wrap64_id)
  next
    case False
    then have "x < - (2 ^ 63)" by simp
    moreover have "- (2 ^ 63) \<le> wrap64 x"
      using in_int64_wrap64 [of x] by (simp add: in_int64_def)
    ultimately show ?thesis by linarith
  qed
qed

lemma add64_id [go_int]: "in_int64 (a + b) \<Longrightarrow> add64 a b = a + b"
  by (simp add: add64_def wrap64_id)

lemma sub64_id [go_int]: "in_int64 (a - b) \<Longrightarrow> sub64 a b = a - b"
  by (simp add: sub64_def wrap64_id)

lemma mul64_id [go_int]: "in_int64 (a * b) \<Longrightarrow> mul64 a b = a * b"
  by (simp add: mul64_def wrap64_id)

lemma in_int64_add64 [simp]: "in_int64 (add64 a b)"
  by (simp add: add64_def)

lemma in_int64_sub64 [simp]: "in_int64 (sub64 a b)"
  by (simp add: sub64_def)

lemma in_int64_mul64 [simp]: "in_int64 (mul64 a b)"
  by (simp add: mul64_def)

lemma in_int64_small: "- 1000000000000 \<le> x \<Longrightarrow> x \<le> 1000000000000 \<Longrightarrow> in_int64 x"
  by (simp add: in_int64_def)

subsection \<open>Strings\<close>

definition upper_char :: "char \<Rightarrow> char" where
  "upper_char c = (if 97 \<le> (of_char c :: nat) \<and> (of_char c :: nat) \<le> 122
     then char_of ((of_char c :: nat) - 32) else c)"

definition lower_char :: "char \<Rightarrow> char" where
  "lower_char c = (if 65 \<le> (of_char c :: nat) \<and> (of_char c :: nat) \<le> 90
     then char_of ((of_char c :: nat) + 32) else c)"

text \<open>\<open>strings.ToUpper\<close> and \<open>strings.ToLower\<close>.\<close>

definition toUpper :: "string \<Rightarrow> string" where
  "toUpper = map upper_char"

definition toLower :: "string \<Rightarrow> string" where
  "toLower = map lower_char"

lemmas case_eval [go_eval] = toUpper_def toLower_def upper_char_def lower_char_def

text \<open>\<open>strings.HasPrefix\<close>, \<open>strings.HasSuffix\<close> and \<open>strings.TrimPrefix\<close>.\<close>

definition hasPrefix :: "string \<Rightarrow> string \<Rightarrow> bool" where
  "hasPrefix s p \<longleftrightarrow> take (length p) s = p"

definition hasSuffix :: "string \<Rightarrow> string \<Rightarrow> bool" where
  "hasSuffix s p \<longleftrightarrow> length p \<le> length s \<and> drop (length s - length p) s = p"

definition trimPrefix :: "string \<Rightarrow> string \<Rightarrow> string" where
  "trimPrefix s p = (if hasPrefix s p then drop (length p) s else s)"

text \<open>The part before the first \<open>sep\<close>, and what follows it if there is one.\<close>

fun cut :: "char \<Rightarrow> string \<Rightarrow> string \<times> string option" where
  "cut sep [] = ([], None)"
| "cut sep (c # cs) = (if c = sep then ([], Some cs)
     else (case cut sep cs of (a, b) \<Rightarrow> (c # a, b)))"

text \<open>\<open>strings.SplitN (s, sep, 2)\<close> for a one-byte separator.\<close>

definition splitN2 :: "string \<Rightarrow> char \<Rightarrow> string list" where
  "splitN2 s sep = (case cut sep s of (a, None) \<Rightarrow> [a] | (a, Some b) \<Rightarrow> [a, b])"

text \<open>\<open>strings.Split (s, sep)\<close> for a one-byte separator: never an empty list.\<close>

fun split_on :: "char \<Rightarrow> string \<Rightarrow> string list" where
  "split_on sep [] = [[]]"
| "split_on sep (c # cs) = (if c = sep then [] # split_on sep cs
     else (case split_on sep cs of [] \<Rightarrow> [[c]] | w # ws \<Rightarrow> (c # w) # ws))"

text \<open>\<open>strings.Join (parts, sep)\<close>.\<close>

fun join_with :: "string \<Rightarrow> string list \<Rightarrow> string" where
  "join_with sep [] = []"
| "join_with sep [x] = x"
| "join_with sep (x # y # zs) = x @ sep @ join_with sep (y # zs)"

definition is_space :: "char \<Rightarrow> bool" where
  "is_space c \<longleftrightarrow> (of_char c :: nat) \<in> {9, 10, 11, 12, 13, 32}"

text \<open>\<open>strings.TrimSpace\<close>.\<close>

definition trimSpace :: "string \<Rightarrow> string" where
  "trimSpace s = rev (dropWhile is_space (rev (dropWhile is_space s)))"

lemma hasPrefix_append [simp]: "hasPrefix (p @ s) p"
  by (simp add: hasPrefix_def)

lemma trimPrefix_append [simp]: "trimPrefix (p @ s) p = s"
  by (simp add: trimPrefix_def)

lemma hasPrefix_ex: "hasPrefix s p \<longleftrightarrow> (\<exists>t. s = p @ t)"
  by (metis append_take_drop_id hasPrefix_append hasPrefix_def)

lemma cut_no_sep: "sep \<notin> set a \<Longrightarrow> cut sep a = (a, None)"
  by (induction a) auto

lemma cut_append: "sep \<notin> set a \<Longrightarrow> cut sep (a @ sep # b) = (a, Some b)"
  by (induction a) auto

lemma splitN2_append: "sep \<notin> set a \<Longrightarrow> splitN2 (a @ sep # b) sep = [a, b]"
  by (simp add: splitN2_def cut_append)

lemma splitN2_no_sep: "sep \<notin> set a \<Longrightarrow> splitN2 a sep = [a]"
  by (simp add: splitN2_def cut_no_sep)

lemma split_on_no_sep: "sep \<notin> set a \<Longrightarrow> split_on sep a = [a]"
  by (induction a) auto

lemma split_on_not_Nil [simp]: "split_on sep s \<noteq> []"
  by (induction s) (auto split: list.splits)

lemma split_on_append:
  "sep \<notin> set a \<Longrightarrow> split_on sep (a @ sep # b) = a # split_on sep b"
  by (induction a) auto

subsection \<open>Decimal numbers\<close>

definition digit_char :: "nat \<Rightarrow> char" where
  "digit_char d = char_of (48 + d)"

definition is_digit :: "char \<Rightarrow> bool" where
  "is_digit c \<longleftrightarrow> 48 \<le> (of_char c :: nat) \<and> (of_char c :: nat) \<le> 57"

definition digit_val :: "char \<Rightarrow> nat" where
  "digit_val c = of_char c - 48"

fun decimal :: "nat \<Rightarrow> string" where
  "decimal n = (if n < 10 then [digit_char n] else decimal (n div 10) @ [digit_char (n mod 10)])"

declare decimal.simps [simp del]

text \<open>What \<open>fmt.Sprintf\<close> prints for \<open>%d\<close>.\<close>

definition itoa :: "int \<Rightarrow> string" where
  "itoa i = (if i < 0 then CHR ''-'' # decimal (nat (- i)) else decimal (nat i))"

datatype num_error = ErrSyntax | ErrRange

text \<open>
  The loop of \<open>strconv.ParseUint (s, 10, 64)\<close>: a byte that is no digit is a syntax error,
  and the first digit that takes the value past 64 bits ends the loop at once, whatever
  follows it.
\<close>

fun parse_uint_loop :: "int \<Rightarrow> string \<Rightarrow> int \<times> num_error option" where
  "parse_uint_loop n [] = (n, None)"
| "parse_uint_loop n (c # cs) =
     (if \<not> is_digit c then (0, Some ErrSyntax)
      else if 2 ^ 64 \<le> n * 10 + int (digit_val c) then (2 ^ 64 - 1, Some ErrRange)
      else parse_uint_loop (n * 10 + int (digit_val c)) cs)"

definition parse_uint :: "string \<Rightarrow> int \<times> num_error option" where
  "parse_uint s = (if s = [] then (0, Some ErrSyntax) else parse_uint_loop 0 s)"

definition clamp_int :: "bool \<Rightarrow> int \<Rightarrow> int \<times> num_error option" where
  "clamp_int neg un =
     (if \<not> neg \<and> 2 ^ 63 \<le> un then (2 ^ 63 - 1, Some ErrRange)
      else if neg \<and> 2 ^ 63 < un then (- (2 ^ 63), Some ErrRange)
      else (if neg then - un else un, None))"

text \<open>
  \<open>strconv.Atoi\<close>: an optional sign, then digits. On a syntax error the value is 0; on a
  range error it is the nearest value of 64 bits.
\<close>

definition strconv_Atoi :: "string \<Rightarrow> int \<times> num_error option" where
  "strconv_Atoi s =
     (let neg = (s \<noteq> [] \<and> hd s = CHR ''-'');
          body = (if s \<noteq> [] \<and> (hd s = CHR ''-'' \<or> hd s = CHR ''+'') then tl s else s)
      in case parse_uint body of
           (un, Some ErrSyntax) \<Rightarrow> (0, Some ErrSyntax)
         | (un, _) \<Rightarrow> clamp_int neg un)"

lemma digit_char_props [simp]:
  assumes "d < 10"
  shows "is_digit (digit_char d)" and "digit_val (digit_char d) = d"
proof -
  have "(of_char (digit_char d) :: nat) = 48 + d"
    using assms by (simp add: digit_char_def of_char_of take_bit_eq_mod)
  then show "is_digit (digit_char d)" and "digit_val (digit_char d) = d"
    using assms by (simp_all add: is_digit_def digit_val_def)
qed

lemma decimal_not_Nil [simp]: "decimal n \<noteq> []"
  by (subst decimal.simps) simp

lemma decimal_digits: "c \<in> set (decimal n) \<Longrightarrow> is_digit c"
proof (induction n rule: decimal.induct)
  case (1 n)
  show ?case
  proof (cases "n < 10")
    case True
    then show ?thesis using "1.prems" by (simp add: decimal.simps [of n])
  next
    case False
    then have "c \<in> set (decimal (n div 10)) \<or> c = digit_char (n mod 10)"
      using "1.prems" by (auto simp: decimal.simps [of n])
    then show ?thesis using "1.IH" [OF False] by (metis digit_char_props(1) mod_less_divisor zero_less_numeral)
  qed
qed

definition digits_value :: "nat \<Rightarrow> string \<Rightarrow> nat" where
  "digits_value = foldl (\<lambda>n c. n * 10 + digit_val c)"

lemma digits_value_decimal: "digits_value 0 (decimal n) = n"
proof (induction n rule: decimal.induct)
  case (1 n)
  show ?case
  proof (cases "n < 10")
    case True
    then show ?thesis by (simp add: decimal.simps [of n] digits_value_def)
  next
    case False
    from "1.IH" [OF False] show ?thesis
      by (simp add: decimal.simps [of n] False digits_value_def)
  qed
qed

lemma decimal_inject [simp]: "decimal m = decimal n \<longleftrightarrow> m = n"
  by (metis digits_value_decimal)

lemma digits_value_ge: "n \<le> digits_value n cs"
proof (induction cs arbitrary: n)
  case (Cons c cs)
  have "n \<le> n * 10 + digit_val c" by simp
  also have "\<dots> \<le> digits_value (n * 10 + digit_val c) cs" by (rule Cons.IH)
  finally show ?case by (simp add: digits_value_def)
qed (simp add: digits_value_def)

lemma parse_uint_loop_digits:
  assumes "\<forall>c \<in> set cs. is_digit c" and "digits_value n cs < 2 ^ 64"
  shows "parse_uint_loop (int n) cs = (int (digits_value n cs), None)"
  using assms
proof (induction cs arbitrary: n)
  case (Cons c cs)
  from Cons.prems have small: "digits_value (n * 10 + digit_val c) cs < 2 ^ 64"
    by (simp add: digits_value_def)
  with digits_value_ge [of "n * 10 + digit_val c" cs] have "n * 10 + digit_val c < 2 ^ 64"
    by linarith
  then have "int (n * 10 + digit_val c) < int (2 ^ 64)"
    by (simp only: of_nat_less_iff)
  with Cons.IH [OF _ small] Cons.prems show ?case
    by (simp add: digits_value_def)
qed (simp add: digits_value_def)

lemma parse_uint_decimal: "n < 2 ^ 64 \<Longrightarrow> parse_uint (decimal n) = (int n, None)"
  using parse_uint_loop_digits [of "decimal n" 0]
  by (simp add: parse_uint_def digits_value_decimal decimal_digits)

lemma not_digit_sign [simp]: "\<not> is_digit (CHR ''-'')" "\<not> is_digit (CHR ''+'')"
  "\<not> is_digit (CHR ''.'')" "\<not> is_digit (CHR ''/'')" "\<not> is_digit (CHR ''='')"
  "\<not> is_digit (CHR ''_'')" "\<not> is_digit (CHR '' '')" "\<not> is_digit (CHR 0x0A)"
  by (simp_all add: is_digit_def)

lemma hd_decimal_digit: "is_digit (hd (decimal n))"
  by (meson decimal_digits decimal_not_Nil hd_in_set)

lemma hd_decimal_not_sign [simp]: "hd (decimal n) \<noteq> CHR ''-''" "hd (decimal n) \<noteq> CHR ''+''"
  using hd_decimal_digit [of n] by auto

text \<open>Printing an \<open>int\<close> and reading it back gives the same \<open>int\<close>.\<close>

lemma Atoi_itoa: "in_int64 i \<Longrightarrow> strconv_Atoi (itoa i) = (i, None)"
proof (cases "i < 0")
  case True
  moreover assume "in_int64 i"
  ultimately have "nat (- i) \<le> 2 ^ 63" by (simp add: in_int64_def)
  with True show ?thesis
    by (simp add: strconv_Atoi_def itoa_def parse_uint_decimal clamp_int_def)
next
  case False
  moreover assume "in_int64 i"
  ultimately have "nat i < 2 ^ 63" by (simp add: in_int64_def nat_less_iff)
  with False show ?thesis
    by (simp add: strconv_Atoi_def itoa_def parse_uint_decimal clamp_int_def)
qed

lemma parse_uint_loop_nonneg: "0 \<le> n \<Longrightarrow> 0 \<le> fst (parse_uint_loop n cs)"
  by (induction n cs rule: parse_uint_loop.induct) auto

lemma parse_uint_nonneg: "parse_uint s = (n, e) \<Longrightarrow> 0 \<le> n"
  using parse_uint_loop_nonneg [of 0 s] by (auto simp: parse_uint_def split: if_splits)

lemma in_int64_clamp_int [simp]: "0 \<le> un \<Longrightarrow> in_int64 (fst (clamp_int neg un))"
  by (simp add: clamp_int_def in_int64_def)

lemma in_int64_0 [simp]: "in_int64 0"
  by (simp add: in_int64_def)

lemma in_int64_Atoi [simp]: "in_int64 (fst (strconv_Atoi s))"
  unfolding strconv_Atoi_def Let_def
  by (simp split: prod.split option.split num_error.split add: parse_uint_nonneg)

lemma itoa_not_Nil [simp]: "itoa i \<noteq> []"
  by (simp add: itoa_def)

lemma itoa_chars: "c \<in> set (itoa i) \<Longrightarrow> is_digit c \<or> c = CHR ''-''"
  by (auto simp: itoa_def decimal_digits split: if_splits)

lemma itoa_inject [simp]: "itoa i = itoa j \<longleftrightarrow> i = j"
proof
  assume eq: "itoa i = itoa j"
  have "i < 0 \<longleftrightarrow> j < 0"
    using eq hd_decimal_not_sign by (metis itoa_def list.sel(1))
  with eq show "i = j"
    by (auto simp: itoa_def split: if_splits)
qed simp

subsection \<open>Paths\<close>

text \<open>
  \<open>path/filepath\<close> on Unix: \<open>Clean\<close> works on the components between slashes, with the
  stack of the components kept so far (the last one first).
\<close>

fun clean_step :: "bool \<Rightarrow> string list \<Rightarrow> string \<Rightarrow> string list" where
  "clean_step rooted st c =
     (if c = [] \<or> c = ''.'' then st
      else if c = ''..'' then
        (case st of
           [] \<Rightarrow> (if rooted then [] else [''..''])
         | t # ts \<Rightarrow> (if t = ''..'' then ''..'' # st else ts))
      else c # st)"

definition path_clean :: "string \<Rightarrow> string" where
  "path_clean p =
     (let rooted = (p \<noteq> [] \<and> hd p = CHR ''/'');
          body = join_with ''/'' (rev (foldl (clean_step rooted) [] (split_on (CHR ''/'') p)))
      in if rooted then CHR ''/'' # body else if body = [] then ''.'' else body)"

text \<open>\<open>filepath.Join\<close>: empty elements are dropped, the rest is joined and cleaned.\<close>

definition filepath_Join :: "string list \<Rightarrow> string" where
  "filepath_Join elems =
     (case filter (\<lambda>e. e \<noteq> []) elems of [] \<Rightarrow> [] | es \<Rightarrow> path_clean (join_with ''/'' es))"

text \<open>A name that is a single path component.\<close>

definition plain_name :: "string \<Rightarrow> bool" where
  "plain_name c \<longleftrightarrow> c \<noteq> [] \<and> c \<noteq> ''.'' \<and> c \<noteq> ''..'' \<and> CHR ''/'' \<notin> set c"

lemma split_on_append_last:
  "sep \<notin> set b \<Longrightarrow> split_on sep (a @ sep # b) = split_on sep a @ [b]"
  by (induction a) (auto simp: split_on_no_sep split: list.splits)

lemma clean_step_plain [simp]: "plain_name c \<Longrightarrow> clean_step rooted st c = c # st"
  by (simp add: plain_name_def)

declare clean_step.simps [simp del]

lemma join_with_append_last:
  "xs \<noteq> [] \<Longrightarrow> join_with sep (xs @ [y]) = join_with sep xs @ sep @ y"
  by (induction sep xs rule: join_with.induct) auto

text \<open>The path of directory \<open>dir\<close> as a prefix of the paths of its entries.\<close>

definition dir_prefix :: "string \<Rightarrow> string" where
  "dir_prefix dir =
     (let rooted = (dir \<noteq> [] \<and> hd dir = CHR ''/'');
          st = rev (foldl (clean_step rooted) [] (split_on (CHR ''/'') dir))
      in (if rooted then ''/'' else []) @ (if st = [] then [] else join_with ''/'' st @ ''/''))"

text \<open>
  Joining a directory and a plain name gives the directory's prefix and then the name:
  distinct names under one directory are distinct paths.
\<close>

lemma filepath_Join_plain:
  assumes "plain_name c"
  shows "filepath_Join [dir, c] = dir_prefix dir @ c"
proof (cases "dir = []")
  case True
  with assms show ?thesis
    by (cases c) (auto simp: plain_name_def filepath_Join_def path_clean_def dir_prefix_def
        split_on_no_sep clean_step.simps)
next
  case False
  from assms have c: "c \<noteq> []" "CHR ''/'' \<notin> set c" by (auto simp: plain_name_def)
  let ?r = "hd dir = CHR ''/''"
  let ?st = "foldl (clean_step ?r) [] (split_on (CHR ''/'') dir)"
  have "filepath_Join [dir, c] = path_clean (dir @ CHR ''/'' # c)"
    using False c by (simp add: filepath_Join_def)
  also have "\<dots> = (if ?r then ''/'' else []) @ join_with ''/'' (rev ?st @ [c])"
    using False c assms join_with_append_last [of "rev ?st" "''/''" c]
    by (cases "?r"; cases "rev ?st = []")
       (simp_all add: path_clean_def split_on_append_last Let_def)
  also have "\<dots> = dir_prefix dir @ c"
    using False join_with_append_last [of "rev ?st" "''/''" c]
    by (cases "?r"; cases "rev ?st = []") (simp_all add: dir_prefix_def Let_def)
  finally show ?thesis .
qed

lemma filepath_Join_inject:
  "plain_name c \<Longrightarrow> plain_name d \<Longrightarrow> filepath_Join [dir, c] = filepath_Join [dir, d] \<longleftrightarrow> c = d"
  by (simp add: filepath_Join_plain)

lemma path_clean_append_plain:
  assumes "plain_name d" and "p \<noteq> []" and "split_on (CHR ''/'') p = ws @ [c]" and "plain_name c"
  shows "path_clean (p @ CHR ''/'' # d) = path_clean p @ CHR ''/'' # d"
proof -
  let ?r = "hd p = CHR ''/''"
  define st where "st = foldl (clean_step ?r) [] ws"
  have d: "CHR ''/'' \<notin> set d" using assms(1) by (simp add: plain_name_def)
  have "join_with ''/'' (rev st @ [c]) \<noteq> []"
    using assms(4) join_with_append_last [of "rev st" "''/''" c]
    by (cases "rev st = []") (auto simp: plain_name_def)
  moreover have "join_with ''/'' ((rev st @ [c]) @ [d]) = join_with ''/'' (rev st @ [c]) @ CHR ''/'' # d"
    using join_with_append_last [of "rev st @ [c]" "''/''" d] by simp
  ultimately show ?thesis
    using assms(1,2,4)
    by (cases "hd p = CHR ''/''")
       (simp_all add: path_clean_def Let_def split_on_append_last [OF d] assms(3) st_def)
qed

lemma filepath_Join_plain2:
  assumes "plain_name c" and "plain_name d"
  shows "filepath_Join [dir, c, d] = filepath_Join [dir, c] @ CHR ''/'' # d"
proof -
  from assms have c: "c \<noteq> []" "CHR ''/'' \<notin> set c" and d: "d \<noteq> []"
    by (auto simp: plain_name_def)
  show ?thesis
  proof (cases "dir = []")
    case True
    with c d assms path_clean_append_plain [of d c "[]" c] show ?thesis
      by (simp add: filepath_Join_def split_on_no_sep)
  next
    case False
    with c d assms path_clean_append_plain [of d "dir @ CHR ''/'' # c" "split_on (CHR ''/'') dir" c]
    show ?thesis
      by (simp add: filepath_Join_def split_on_append_last)
  qed
qed

subsection \<open>Shuffling by swaps\<close>

text \<open>
  \<open>rand.Shuffle (n, swap)\<close> calls \<open>swap\<close> on pairs of indices of its choice; here the
  pairs are given. An index outside the slice is a run-time panic, \<open>None\<close>.
\<close>

fun apply_swaps :: "'a list \<Rightarrow> (nat \<times> nat) list \<Rightarrow> 'a list option" where
  "apply_swaps xs [] = Some xs"
| "apply_swaps xs ((i, j) # ps) =
     (if i < length xs \<and> j < length xs
      then apply_swaps (xs[i := xs ! j, j := xs ! i]) ps else None)"

text \<open>What \<open>rand.Shuffle\<close> documents: it only asks for swaps of indices below \<open>n\<close>.\<close>

definition swaps_in_range :: "nat \<Rightarrow> (nat \<times> nat) list \<Rightarrow> bool" where
  "swaps_in_range n ps \<longleftrightarrow> list_all (\<lambda>(i, j). i < n \<and> j < n) ps"

lemma mset_list_swap:
  "i < length xs \<Longrightarrow> j < length xs \<Longrightarrow> mset (xs[i := xs ! j, j := xs ! i]) = mset xs"
  by (cases "i = j") (simp_all add: mset_update nth_list_update)

lemma apply_swaps_mset: "apply_swaps xs ps = Some ys \<Longrightarrow> mset ys = mset xs"
  by (induction xs ps rule: apply_swaps.induct) (auto simp: mset_list_swap split: if_splits)

lemma apply_swaps_total: "swaps_in_range (length xs) ps \<Longrightarrow> \<exists>ys. apply_swaps xs ps = Some ys"
  by (induction xs ps rule: apply_swaps.induct) (auto simp: swaps_in_range_def)

lemma apply_swaps_length: "apply_swaps xs ps = Some ys \<Longrightarrow> length ys = length xs"
  by (metis apply_swaps_mset size_mset)

lemma apply_swaps_set: "apply_swaps xs ps = Some ys \<Longrightarrow> set ys = set xs"
  by (metis apply_swaps_mset set_mset_mset)

lemma apply_swaps_distinct: "apply_swaps xs ps = Some ys \<Longrightarrow> distinct ys = distinct xs"
  by (metis apply_swaps_mset mset_eq_imp_distinct_iff)

lemmas apply_swaps_facts = apply_swaps_mset apply_swaps_length apply_swaps_set apply_swaps_distinct

subsection \<open>Results\<close>

text \<open>Errors of the operating system and of the context, which the code only passes on.\<close>

datatype os_error = ErrNotExist | OSError string

datatype ctx_error = Canceled | DeadlineExceeded

text \<open>A chain of early returns yields nil when every guard fails.\<close>

named_theorems error_chain

lemma if_Some_None [error_chain]: "(if b then Some e else r) = None \<longleftrightarrow> \<not> b \<and> r = None"
  by simp

lemma case_Some_None [error_chain]:
  "(case opt of None \<Rightarrow> r | Some e \<Rightarrow> Some e) = None \<longleftrightarrow> opt = None \<and> r = None"
  by (cases opt) simp_all

text \<open>A pointer that is set overrides the value it points over.\<close>

definition override :: "'a option \<Rightarrow> 'a \<Rightarrow> 'a" where
  "override opt cur = (case opt of None \<Rightarrow> cur | Some v \<Rightarrow> v)"

lemma override_simps [simp]: "override None cur = cur" "override (Some v) cur = v"
  by (simp_all add: override_def)

lemma override_idem [simp]: "override opt (override opt cur) = override opt cur"
  by (cases opt) simp_all

text \<open>\<open>if err != nil { return err }\<close> after a call that returns a value.\<close>

fun sum_bind :: "'e + 'a \<Rightarrow> ('a \<Rightarrow> 'e + 'b) \<Rightarrow> 'e + 'b" where
  "sum_bind (Inl e) f = Inl e"
| "sum_bind (Inr x) f = f x"

lemma sum_bind_Inr_iff: "sum_bind m f = Inr y \<longleftrightarrow> (\<exists>x. m = Inr x \<and> f x = Inr y)"
  by (cases m) auto

lemma sum_bind_InrE:
  assumes "sum_bind m f = Inr y"
  obtains x where "m = Inr x" and "f x = Inr y"
  using assms by (auto simp: sum_bind_Inr_iff)

text \<open>The first source that has a value, in order of precedence.\<close>

fun first_some :: "'a option list \<Rightarrow> 'a option" where
  "first_some [] = None"
| "first_some (None # xs) = first_some xs"
| "first_some (Some x # xs) = Some x"

end
