(* ===== verification/Config_Types.thy ===== *)
theory Config_Types
  imports Go_Prelude
begin

section \<open>The configuration (internal/config/config.go)\<close>

text \<open>
  The structs of \<open>config.go\<close> as records, field by field, the built-in \<open>Defaults\<close>, and
  \<open>PickUserAgent\<close>. A field name that several structs share carries its struct's name in
  front (\<open>Stats_Port\<close>, \<open>Privoxy_StartPort\<close>). An \<open>int\<close> is an integer that the code
  keeps within 64 bits; a slice is a list (a nil slice is the empty list).
\<close>

record InstancesConfig =
  PerCountry :: int
  Countries :: int
  MaxConcurrentRequests :: int
  Retries :: int

record ProxyMasterConfig =
  Master_Listen :: string
  Master_Port :: int
  SocksPort :: int
  HTTPPort :: int
  TransparentPort :: int
  ClientTimeout :: int
  ServerTimeout :: int

record ProxyStatsConfig =
  Stats_Listen :: string
  Stats_Port :: int
  Stats_URI :: string

record ProxyConfig =
  Master :: ProxyMasterConfig
  Stats :: ProxyStatsConfig
  LoadBalanceAlgorithm :: string
  HAProxyHTTPReuse :: string
  IncludeSecurityHeaders :: bool
  DoNotProxy :: "string list"

record RelayConfig =
  Enforce :: string

record TorHiddenServiceConfig =
  HS_Enabled :: bool
  BasePath :: string
  HS_StartPort :: int
  MaxStreams :: int
  MaxStreamsCloseCircuit :: bool
  DirGroupReadable :: bool
  NumIntroductionPoints :: int

record TorConfig =
  Tor_BinaryPath :: string
  ListenAddr :: string
  StartSocksPort :: int
  StartControlPort :: int
  StartHTTPPort :: int
  StartTransportPort :: int
  StartDNSPort :: int
  ControlAuth :: string
  HiddenService :: TorHiddenServiceConfig
  MinimumTimeout :: int
  CircuitBuildTimeout :: int
  LearnCircuitBuildTimeout :: int
  CircuitsAvailableTimeout :: int
  CircuitStreamTimeout :: int
  ClientOnly :: int
  ConnectionPadding :: int
  ReducedConnectionPadding :: int
  GeoIPExcludeUnknown :: int
  StrictNodes :: int
  FascistFirewall :: int
  FirewallPorts :: "int list"
  LongLivedPorts :: "int list"
  NewCircuitPeriod :: int
  MaxCircuitDirtiness :: int
  MaxClientCircuitsPending :: int
  SocksTimeout :: int
  TrackHostExitsExpire :: int
  UseEntryGuards :: int
  NumEntryGuards :: int
  SafeSocks :: int
  TestSocks :: int
  AllowNonRFC953Hostnames :: int
  ClientRejectInternalAddresses :: int
  DownloadExtraInfo :: int
  OptimisticData :: string
  AutomapHostsSuffixes :: string
  WarnPlaintextPorts :: string
  RejectPlaintextPorts :: string
  Sandbox :: bool
  StreamIsolation :: bool
  IPv6 :: bool
  ConfluxEnabled :: bool
  CongestionControlAuto :: bool
  CircuitFingerprintingResistance :: bool

record PrivoxyConfig =
  Privoxy_BinaryPath :: string
  Privoxy_Listen :: string
  Privoxy_StartPort :: int
  Timeout :: int
  ConfigFilePrefix :: string

record HAProxyConfig =
  HAProxy_BinaryPath :: string
  ConfigFile :: string

record CountryRotationConfig =
  Rotation_Enabled :: bool
  Rotation_Interval :: int
  TotalToChange :: int

record CountryConfig =
  Selected :: string
  Accepted :: "string list"
  Blacklisted :: "string list"
  Rotation :: CountryRotationConfig
  AutoCountries :: bool

record HealthCheckConfig =
  HC_URL :: string
  HC_Interval :: int
  MaxFail :: int
  MinimumSuccess :: int

record UserAgentConfig =
  TorBrowser :: string
  UserAgents :: "string list"
  UA_Default :: string

record LoggingConfig =
  Logging_Enabled :: bool
  Logging_Dir :: string
  Logging_NamePrefix :: string
  Logging_Level :: string
  Logging_Format :: string

record PathsConfig =
  TempFiles :: string
  ProxychainsFile :: string

record DNSConfig =
  DistListen :: string
  DistPort :: int
  TorListen :: string

record ExitReputationConfig =
  Reputation_Enabled :: bool

record Config =
  Instances :: InstancesConfig
  Proxy :: ProxyConfig
  Relay :: RelayConfig
  Tor :: TorConfig
  Privoxy :: PrivoxyConfig
  HAProxy :: HAProxyConfig
  Country :: CountryConfig
  HealthCheck :: HealthCheckConfig
  UserAgent :: UserAgentConfig
  Logging :: LoggingConfig
  Paths :: PathsConfig
  DNS :: DNSConfig
  ExitReputation :: ExitReputationConfig
  Profile :: string
  ProxyMode :: string
  BridgeType :: string
  Verbose :: bool
  Log :: bool
  LogLevel :: string

text \<open>\<open>func Defaults() *Config\<close>.\<close>

definition Defaults :: Config where
  "Defaults =
    \<lparr>Instances = \<lparr>PerCountry = 2, Countries = 6, MaxConcurrentRequests = 20,
       Retries = 1000\<rparr>,
     Proxy = \<lparr>Master = \<lparr>Master_Listen = ''0.0.0.0'', Master_Port = 63536, SocksPort = 63536,
         HTTPPort = 63537, TransparentPort = 63538, ClientTimeout = 35,
         ServerTimeout = 35\<rparr>,
       Stats = \<lparr>Stats_Listen = ''0.0.0.0'', Stats_Port = 63539,
         Stats_URI = ''/splitter_status''\<rparr>,
       LoadBalanceAlgorithm = ''roundrobin'', HAProxyHTTPReuse = ''never'',
       IncludeSecurityHeaders = True,
       DoNotProxy =
         [''0.0.0.0'', ''192.168.1.1'', ''192.168.2.1'', ''192.168.3.1'',
          ''192.168.0.1'', ''172.17.0.1'']\<rparr>,
     Relay = \<lparr>Enforce = ''entry''\<rparr>,
     Tor = \<lparr>Tor_BinaryPath = ''/usr/bin/tor'', ListenAddr = ''0.0.0.0'',
       StartSocksPort = 4999, StartControlPort = 5999, StartHTTPPort = 5199,
       StartTransportPort = 5099, StartDNSPort = 5299,
       ControlAuth = ''password'',
       HiddenService = \<lparr>HS_Enabled = True, BasePath = ''/tmp/splitter/hidden_service_'',
         HS_StartPort = 3999, MaxStreams = 0, MaxStreamsCloseCircuit = False,
         DirGroupReadable = False, NumIntroductionPoints = 3\<rparr>,
       MinimumTimeout = 15, CircuitBuildTimeout = 60,
       LearnCircuitBuildTimeout = 1, CircuitsAvailableTimeout = 5,
       CircuitStreamTimeout = 20, ClientOnly = 0, ConnectionPadding = 0,
       ReducedConnectionPadding = 1, GeoIPExcludeUnknown = 1, StrictNodes = 1,
       FascistFirewall = 0, FirewallPorts = [80, 443], LongLivedPorts = [1, 2],
       NewCircuitPeriod = 30, MaxCircuitDirtiness = 15,
       MaxClientCircuitsPending = 1024, SocksTimeout = 35,
       TrackHostExitsExpire = 10, UseEntryGuards = 1, NumEntryGuards = 1,
       SafeSocks = 1, TestSocks = 1, AllowNonRFC953Hostnames = 0,
       ClientRejectInternalAddresses = 1, DownloadExtraInfo = 0,
       OptimisticData = ''auto'', AutomapHostsSuffixes = ''.exit,.onion'',
       WarnPlaintextPorts = ''21,23,25,80,109,110,143'',
       RejectPlaintextPorts = [], Sandbox = False, StreamIsolation = False,
       IPv6 = False, ConfluxEnabled = False, CongestionControlAuto = False,
       CircuitFingerprintingResistance = False\<rparr>,
     Privoxy = \<lparr>Privoxy_BinaryPath = ''/usr/sbin/privoxy'', Privoxy_Listen = ''0.0.0.0'',
       Privoxy_StartPort = 6999, Timeout = 35,
       ConfigFilePrefix = ''/tmp/splitter/privoxy_splitter_config_''\<rparr>,
     HAProxy = \<lparr>HAProxy_BinaryPath = ''/usr/sbin/haproxy'',
       ConfigFile = ''/tmp/splitter/splitter_master_proxy.cfg''\<rparr>,
     Country = \<lparr>Selected = ''RANDOM'',
       Accepted =
         [''{AU}'', ''{AT}'', ''{BE}'', ''{BG}'', ''{CA}'', ''{CZ}'',
          ''{DK}'', ''{FI}'', ''{FR}'', ''{DE}'', ''{HU}'', ''{IS}'',
          ''{LV}'', ''{LT}'', ''{LU}'', ''{MD}'', ''{NL}'', ''{NO}'',
          ''{PA}'', ''{PL}'', ''{RO}'', ''{RU}'', ''{SC}'', ''{SG}'',
          ''{SK}'', ''{ES}'', ''{SE}'', ''{CH}'', ''{TR}'', ''{UA}'',
          ''{GB}'', ''{US}''],
       Blacklisted = [],
       Rotation = \<lparr>Rotation_Enabled = True, Rotation_Interval = 120,
         TotalToChange = 10\<rparr>,
       AutoCountries = False\<rparr>,
     HealthCheck = \<lparr>HC_URL = ''https://www.google.com/'', HC_Interval = 12, MaxFail = 1,
       MinimumSuccess = 1\<rparr>,
     UserAgent = \<lparr>TorBrowser = ''Mozilla/5.0 (Windows NT 10.0; rv:128.0) Gecko/20100101 Firefox/128.0'',
       UserAgents = [],
       UA_Default = ''Mozilla/5.0 (Windows NT 10.0; rv:128.0) Gecko/20100101 Firefox/128.0''\<rparr>,
     Logging = \<lparr>Logging_Enabled = False, Logging_Dir = ''/tmp/splitter'',
       Logging_NamePrefix = ''tor_log_'', Logging_Level = ''INFO'',
       Logging_Format = ''text''\<rparr>,
     Paths = \<lparr>TempFiles = ''/tmp/splitter'', ProxychainsFile = []\<rparr>,
     DNS = \<lparr>DistListen = ''0.0.0.0'', DistPort = 5353, TorListen = ''0.0.0.0''\<rparr>,
     ExitReputation = \<lparr>Reputation_Enabled = False\<rparr>,
     Profile = [],
     ProxyMode = ''native'',
     BridgeType = ''none'',
     Verbose = False,
     Log = False,
     LogLevel = []\<rparr>"

text \<open>
  \<open>PickUserAgent\<close>: a random element of the list if there is one, else the default, else
  the Tor Browser string. \<open>r\<close> is what \<open>rand.Intn (len)\<close> returned.
\<close>

definition PickUserAgent :: "UserAgentConfig \<Rightarrow> nat \<Rightarrow> string" where
  "PickUserAgent u r =
     (if 0 < length (UserAgents u) then UserAgents u ! r
      else if UA_Default u \<noteq> [] then UA_Default u
      else TorBrowser u)"

lemma PickUserAgent_listed:
  "UserAgents u \<noteq> [] \<Longrightarrow> r < length (UserAgents u) \<Longrightarrow> PickUserAgent u r \<in> set (UserAgents u)"
  by (simp add: PickUserAgent_def)

end
