(* ===== verification/Config_Env.thy ===== *)
theory Config_Env
  imports Config_Types
begin

section \<open>Environment variables (internal/config/env.go)\<close>

text \<open>
  The table of setters, \<open>applyEnvOverrides\<close> over the list that \<open>os.Environ\<close> returns, and
  the two converters. The locale \<open>env_field\<close> states what it is for a field of the
  configuration to be owned by some keys of the table; inside it is proved that the last
  variable of the environment with such a key decides the field.
\<close>

definition atoi :: "string \<Rightarrow> int" where
  "atoi s = fst (strconv_Atoi s)"

definition parseBool :: "string \<Rightarrow> bool" where
  "parseBool str =
     (let s = toLower (trimSpace str)
      in s = ''1'' \<or> s = ''true'' \<or> s = ''yes'' \<or> s = ''on'')"

type_synonym envSetter = "Config \<Rightarrow> string \<Rightarrow> Config"

definition envMappings :: "(string \<times> envSetter) list" where
  "envMappings =
    [(''INSTANCES'',
        \<lambda>c v. c\<lparr>Instances := (Instances c)\<lparr>PerCountry := atoi v\<rparr>\<rparr>),
     (''INSTANCES_PER_COUNTRY'',
        \<lambda>c v. c\<lparr>Instances := (Instances c)\<lparr>PerCountry := atoi v\<rparr>\<rparr>),
     (''INSTANCES_COUNTRIES'',
        \<lambda>c v. c\<lparr>Instances := (Instances c)\<lparr>Countries := atoi v\<rparr>\<rparr>),
     (''INSTANCES_MAX_CONCURRENT_REQUESTS'',
        \<lambda>c v. c\<lparr>Instances := (Instances c)\<lparr>MaxConcurrentRequests := atoi v\<rparr>\<rparr>),
     (''INSTANCES_RETRIES'',
        \<lambda>c v. c\<lparr>Instances := (Instances c)\<lparr>Retries := atoi v\<rparr>\<rparr>),
     (''COUNTRIES'',
        \<lambda>c v. c\<lparr>Instances := (Instances c)\<lparr>Countries := atoi v\<rparr>\<rparr>),
     (''RELAY_ENFORCE'',
        \<lambda>c v. c\<lparr>Relay := (Relay c)\<lparr>Enforce := v\<rparr>\<rparr>),
     (''PROXY_MODE'', \<lambda>c v. c\<lparr>ProxyMode := v\<rparr>),
     (''PROXY_LOAD_BALANCE_ALGORITHM'',
        \<lambda>c v. c\<lparr>Proxy := (Proxy c)\<lparr>LoadBalanceAlgorithm := v\<rparr>\<rparr>),
     (''PROXY_MASTER_LISTEN'',
        \<lambda>c v. c\<lparr>Proxy := (Proxy c)\<lparr>Master := (Master (Proxy c))\<lparr>Master_Listen := v\<rparr>\<rparr>\<rparr>),
     (''PROXY_MASTER_PORT'',
        \<lambda>c v. c\<lparr>Proxy := (Proxy c)\<lparr>Master := (Master (Proxy c))\<lparr>Master_Port := atoi v\<rparr>\<rparr>\<rparr>),
     (''PROXY_MASTER_SOCKS_PORT'',
        \<lambda>c v. c\<lparr>Proxy := (Proxy c)\<lparr>Master := (Master (Proxy c))\<lparr>SocksPort := atoi v\<rparr>\<rparr>\<rparr>),
     (''PROXY_MASTER_HTTP_PORT'',
        \<lambda>c v. c\<lparr>Proxy := (Proxy c)\<lparr>Master := (Master (Proxy c))\<lparr>HTTPPort := atoi v\<rparr>\<rparr>\<rparr>),
     (''PROXY_MASTER_TRANSPARENT_PORT'',
        \<lambda>c v. c\<lparr>Proxy := (Proxy c)\<lparr>Master := (Master (Proxy c))\<lparr>TransparentPort := atoi v\<rparr>\<rparr>\<rparr>),
     (''PROXY_MASTER_CLIENT_TIMEOUT'',
        \<lambda>c v. c\<lparr>Proxy := (Proxy c)\<lparr>Master := (Master (Proxy c))\<lparr>ClientTimeout := atoi v\<rparr>\<rparr>\<rparr>),
     (''PROXY_MASTER_SERVER_TIMEOUT'',
        \<lambda>c v. c\<lparr>Proxy := (Proxy c)\<lparr>Master := (Master (Proxy c))\<lparr>ServerTimeout := atoi v\<rparr>\<rparr>\<rparr>),
     (''PROXY_STATS_LISTEN'',
        \<lambda>c v. c\<lparr>Proxy := (Proxy c)\<lparr>Stats := (Stats (Proxy c))\<lparr>Stats_Listen := v\<rparr>\<rparr>\<rparr>),
     (''PROXY_STATS_PORT'',
        \<lambda>c v. c\<lparr>Proxy := (Proxy c)\<lparr>Stats := (Stats (Proxy c))\<lparr>Stats_Port := atoi v\<rparr>\<rparr>\<rparr>),
     (''PROXY_STATS_URI'',
        \<lambda>c v. c\<lparr>Proxy := (Proxy c)\<lparr>Stats := (Stats (Proxy c))\<lparr>Stats_URI := v\<rparr>\<rparr>\<rparr>),
     (''PROXY_HAPROXY_HTTP_REUSE'',
        \<lambda>c v. c\<lparr>Proxy := (Proxy c)\<lparr>HAProxyHTTPReuse := v\<rparr>\<rparr>),
     (''PROXY_INCLUDE_SECURITY_HEADERS'',
        \<lambda>c v. c\<lparr>Proxy := (Proxy c)\<lparr>IncludeSecurityHeaders := parseBool v\<rparr>\<rparr>),
     (''TOR_BINARY_PATH'',
        \<lambda>c v. c\<lparr>Tor := (Tor c)\<lparr>Tor_BinaryPath := v\<rparr>\<rparr>),
     (''TOR_LISTEN_ADDR'',
        \<lambda>c v. c\<lparr>Tor := (Tor c)\<lparr>ListenAddr := v\<rparr>\<rparr>),
     (''TOR_START_SOCKS_PORT'',
        \<lambda>c v. c\<lparr>Tor := (Tor c)\<lparr>StartSocksPort := atoi v\<rparr>\<rparr>),
     (''TOR_START_CONTROL_PORT'',
        \<lambda>c v. c\<lparr>Tor := (Tor c)\<lparr>StartControlPort := atoi v\<rparr>\<rparr>),
     (''TOR_START_HTTP_PORT'',
        \<lambda>c v. c\<lparr>Tor := (Tor c)\<lparr>StartHTTPPort := atoi v\<rparr>\<rparr>),
     (''TOR_START_TRANSPORT_PORT'',
        \<lambda>c v. c\<lparr>Tor := (Tor c)\<lparr>StartTransportPort := atoi v\<rparr>\<rparr>),
     (''TOR_START_DNS_PORT'',
        \<lambda>c v. c\<lparr>Tor := (Tor c)\<lparr>StartDNSPort := atoi v\<rparr>\<rparr>),
     (''TOR_CONTROL_AUTH'',
        \<lambda>c v. c\<lparr>Tor := (Tor c)\<lparr>ControlAuth := v\<rparr>\<rparr>),
     (''TOR_MINIMUM_TIMEOUT'',
        \<lambda>c v. c\<lparr>Tor := (Tor c)\<lparr>MinimumTimeout := atoi v\<rparr>\<rparr>),
     (''TOR_CIRCUIT_BUILD_TIMEOUT'',
        \<lambda>c v. c\<lparr>Tor := (Tor c)\<lparr>CircuitBuildTimeout := atoi v\<rparr>\<rparr>),
     (''TOR_LEARN_CIRCUIT_BUILD_TIMEOUT'',
        \<lambda>c v. c\<lparr>Tor := (Tor c)\<lparr>LearnCircuitBuildTimeout := atoi v\<rparr>\<rparr>),
     (''TOR_CIRCUITS_AVAILABLE_TIMEOUT'',
        \<lambda>c v. c\<lparr>Tor := (Tor c)\<lparr>CircuitsAvailableTimeout := atoi v\<rparr>\<rparr>),
     (''TOR_CIRCUIT_STREAM_TIMEOUT'',
        \<lambda>c v. c\<lparr>Tor := (Tor c)\<lparr>CircuitStreamTimeout := atoi v\<rparr>\<rparr>),
     (''TOR_CLIENT_ONLY'',
        \<lambda>c v. c\<lparr>Tor := (Tor c)\<lparr>ClientOnly := atoi v\<rparr>\<rparr>),
     (''TOR_CONNECTION_PADDING'',
        \<lambda>c v. c\<lparr>Tor := (Tor c)\<lparr>ConnectionPadding := atoi v\<rparr>\<rparr>),
     (''TOR_REDUCED_CONNECTION_PADDING'',
        \<lambda>c v. c\<lparr>Tor := (Tor c)\<lparr>ReducedConnectionPadding := atoi v\<rparr>\<rparr>),
     (''TOR_GEOIP_EXCLUDE_UNKNOWN'',
        \<lambda>c v. c\<lparr>Tor := (Tor c)\<lparr>GeoIPExcludeUnknown := atoi v\<rparr>\<rparr>),
     (''TOR_STRICT_NODES'',
        \<lambda>c v. c\<lparr>Tor := (Tor c)\<lparr>StrictNodes := atoi v\<rparr>\<rparr>),
     (''TOR_FASCIST_FIREWALL'',
        \<lambda>c v. c\<lparr>Tor := (Tor c)\<lparr>FascistFirewall := atoi v\<rparr>\<rparr>),
     (''TOR_NEW_CIRCUIT_PERIOD'',
        \<lambda>c v. c\<lparr>Tor := (Tor c)\<lparr>NewCircuitPeriod := atoi v\<rparr>\<rparr>),
     (''TOR_MAX_CIRCUIT_DIRTINESS'',
        \<lambda>c v. c\<lparr>Tor := (Tor c)\<lparr>MaxCircuitDirtiness := atoi v\<rparr>\<rparr>),
     (''TOR_MAX_CLIENT_CIRCUITS_PENDING'',
        \<lambda>c v. c\<lparr>Tor := (Tor c)\<lparr>MaxClientCircuitsPending := atoi v\<rparr>\<rparr>),
     (''TOR_SOCKS_TIMEOUT'',
        \<lambda>c v. c\<lparr>Tor := (Tor c)\<lparr>SocksTimeout := atoi v\<rparr>\<rparr>),
     (''TOR_TRACK_HOST_EXITS_EXPIRE'',
        \<lambda>c v. c\<lparr>Tor := (Tor c)\<lparr>TrackHostExitsExpire := atoi v\<rparr>\<rparr>),
     (''TOR_USE_ENTRY_GUARDS'',
        \<lambda>c v. c\<lparr>Tor := (Tor c)\<lparr>UseEntryGuards := atoi v\<rparr>\<rparr>),
     (''TOR_NUM_ENTRY_GUARDS'',
        \<lambda>c v. c\<lparr>Tor := (Tor c)\<lparr>NumEntryGuards := atoi v\<rparr>\<rparr>),
     (''TOR_SAFE_SOCKS'',
        \<lambda>c v. c\<lparr>Tor := (Tor c)\<lparr>SafeSocks := atoi v\<rparr>\<rparr>),
     (''TOR_TEST_SOCKS'',
        \<lambda>c v. c\<lparr>Tor := (Tor c)\<lparr>TestSocks := atoi v\<rparr>\<rparr>),
     (''TOR_OPTIMISTIC_DATA'',
        \<lambda>c v. c\<lparr>Tor := (Tor c)\<lparr>OptimisticData := v\<rparr>\<rparr>),
     (''TOR_AUTOMAP_HOSTS_SUFFIXES'',
        \<lambda>c v. c\<lparr>Tor := (Tor c)\<lparr>AutomapHostsSuffixes := v\<rparr>\<rparr>),
     (''TOR_WARN_PLAINTEXT_PORTS'',
        \<lambda>c v. c\<lparr>Tor := (Tor c)\<lparr>WarnPlaintextPorts := v\<rparr>\<rparr>),
     (''TOR_REJECT_PLAINTEXT_PORTS'',
        \<lambda>c v. c\<lparr>Tor := (Tor c)\<lparr>RejectPlaintextPorts := v\<rparr>\<rparr>),
     (''TOR_STREAM_ISOLATION'',
        \<lambda>c v. c\<lparr>Tor := (Tor c)\<lparr>StreamIsolation := parseBool v\<rparr>\<rparr>),
     (''TOR_IPV6'',
        \<lambda>c v. c\<lparr>Tor := (Tor c)\<lparr>IPv6 := parseBool v\<rparr>\<rparr>),
     (''TOR_CONFLUX_ENABLED'',
        \<lambda>c v. c\<lparr>Tor := (Tor c)\<lparr>ConfluxEnabled := parseBool v\<rparr>\<rparr>),
     (''TOR_CONGESTION_CONTROL_AUTO'',
        \<lambda>c v. c\<lparr>Tor := (Tor c)\<lparr>CongestionControlAuto := parseBool v\<rparr>\<rparr>),
     (''TOR_CIRCUIT_FINGERPRINTING_RESISTANCE'',
        \<lambda>c v. c\<lparr>Tor := (Tor c)\<lparr>CircuitFingerprintingResistance := parseBool v\<rparr>\<rparr>),
     (''TOR_SANDBOX'',
        \<lambda>c v. c\<lparr>Tor := (Tor c)\<lparr>Sandbox := parseBool v\<rparr>\<rparr>),
     (''PRIVOXY_BINARY_PATH'',
        \<lambda>c v. c\<lparr>Privoxy := (Privoxy c)\<lparr>Privoxy_BinaryPath := v\<rparr>\<rparr>),
     (''PRIVOXY_LISTEN'',
        \<lambda>c v. c\<lparr>Privoxy := (Privoxy c)\<lparr>Privoxy_Listen := v\<rparr>\<rparr>),
     (''PRIVOXY_START_PORT'',
        \<lambda>c v. c\<lparr>Privoxy := (Privoxy c)\<lparr>Privoxy_StartPort := atoi v\<rparr>\<rparr>),
     (''PRIVOXY_TIMEOUT'',
        \<lambda>c v. c\<lparr>Privoxy := (Privoxy c)\<lparr>Timeout := atoi v\<rparr>\<rparr>),
     (''PRIVOXY_CONFIG_FILE_PREFIX'',
        \<lambda>c v. c\<lparr>Privoxy := (Privoxy c)\<lparr>ConfigFilePrefix := v\<rparr>\<rparr>),
     (''HAPROXY_BINARY_PATH'',
        \<lambda>c v. c\<lparr>HAProxy := (HAProxy c)\<lparr>HAProxy_BinaryPath := v\<rparr>\<rparr>),
     (''HAPROXY_CONFIG_FILE'',
        \<lambda>c v. c\<lparr>HAProxy := (HAProxy c)\<lparr>ConfigFile := v\<rparr>\<rparr>),
     (''COUNTRY_SELECTED'',
        \<lambda>c v. c\<lparr>Country := (Country c)\<lparr>Selected := v\<rparr>\<rparr>),
     (''COUNTRY_ROTATION_ENABLED'',
        \<lambda>c v. c\<lparr>Country := (Country c)\<lparr>Rotation := (Rotation (Country c))\<lparr>Rotation_Enabled := parseBool v\<rparr>\<rparr>\<rparr>),
     (''COUNTRY_ROTATION_INTERVAL'',
        \<lambda>c v. c\<lparr>Country := (Country c)\<lparr>Rotation := (Rotation (Country c))\<lparr>Rotation_Interval := atoi v\<rparr>\<rparr>\<rparr>),
     (''COUNTRY_ROTATION_TOTAL_TO_CHANGE'',
        \<lambda>c v. c\<lparr>Country := (Country c)\<lparr>Rotation := (Rotation (Country c))\<lparr>TotalToChange := atoi v\<rparr>\<rparr>\<rparr>),
     (''COUNTRY_AUTO_COUNTRIES'',
        \<lambda>c v. c\<lparr>Country := (Country c)\<lparr>AutoCountries := parseBool v\<rparr>\<rparr>),
     (''HEALTH_CHECK_URL'',
        \<lambda>c v. c\<lparr>HealthCheck := (HealthCheck c)\<lparr>HC_URL := v\<rparr>\<rparr>),
     (''HEALTH_CHECK_INTERVAL'',
        \<lambda>c v. c\<lparr>HealthCheck := (HealthCheck c)\<lparr>HC_Interval := atoi v\<rparr>\<rparr>),
     (''HEALTH_CHECK_MAX_FAIL'',
        \<lambda>c v. c\<lparr>HealthCheck := (HealthCheck c)\<lparr>MaxFail := atoi v\<rparr>\<rparr>),
     (''HEALTH_CHECK_MINIMUM_SUCCESS'',
        \<lambda>c v. c\<lparr>HealthCheck := (HealthCheck c)\<lparr>MinimumSuccess := atoi v\<rparr>\<rparr>),
     (''USER_AGENT_TOR_BROWSER'',
        \<lambda>c v. c\<lparr>UserAgent := (UserAgent c)\<lparr>TorBrowser := v\<rparr>\<rparr>),
     (''USER_AGENT_DEFAULT'',
        \<lambda>c v. c\<lparr>UserAgent := (UserAgent c)\<lparr>UA_Default := v\<rparr>\<rparr>),
     (''LOG'',
        \<lambda>c v. c\<lparr>Logging := (Logging c)\<lparr>Logging_Enabled := parseBool v\<rparr>, Log := parseBool v\<rparr>),
     (''LOG_LEVEL'',
        \<lambda>c v. c\<lparr>Logging := (Logging c)\<lparr>Logging_Level := v\<rparr>, LogLevel := v\<rparr>),
     (''LOGGING_ENABLED'',
        \<lambda>c v. c\<lparr>Logging := (Logging c)\<lparr>Logging_Enabled := parseBool v\<rparr>\<rparr>),
     (''LOGGING_DIR'',
        \<lambda>c v. c\<lparr>Logging := (Logging c)\<lparr>Logging_Dir := v\<rparr>\<rparr>),
     (''LOGGING_LEVEL'',
        \<lambda>c v. c\<lparr>Logging := (Logging c)\<lparr>Logging_Level := v\<rparr>\<rparr>),
     (''LOGGING_FORMAT'',
        \<lambda>c v. c\<lparr>Logging := (Logging c)\<lparr>Logging_Format := v\<rparr>\<rparr>),
     (''PATHS_TEMP_FILES'',
        \<lambda>c v. c\<lparr>Paths := (Paths c)\<lparr>TempFiles := v\<rparr>\<rparr>),
     (''PATHS_PROXYCHAINS_FILE'',
        \<lambda>c v. c\<lparr>Paths := (Paths c)\<lparr>ProxychainsFile := v\<rparr>\<rparr>),
     (''DNS_DIST_LISTEN'',
        \<lambda>c v. c\<lparr>DNS := (DNS c)\<lparr>DistListen := v\<rparr>\<rparr>),
     (''DNS_DIST_PORT'',
        \<lambda>c v. c\<lparr>DNS := (DNS c)\<lparr>DistPort := atoi v\<rparr>\<rparr>),
     (''DNS_TOR_LISTEN'',
        \<lambda>c v. c\<lparr>DNS := (DNS c)\<lparr>TorListen := v\<rparr>\<rparr>),
     (''EXIT_REPUTATION'',
        \<lambda>c v. c\<lparr>ExitReputation := (ExitReputation c)\<lparr>Reputation_Enabled := parseBool v\<rparr>\<rparr>),
     (''PROFILE'', \<lambda>c v. c\<lparr>Profile := v\<rparr>),
     (''BRIDGE_TYPE'', \<lambda>c v. c\<lparr>BridgeType := v\<rparr>),
     (''VERBOSE'', \<lambda>c v. c\<lparr>Verbose := parseBool v\<rparr>)]"

text \<open>The prefix in upper case, ending in an underscore.\<close>

definition env_prefix :: "string \<Rightarrow> string" where
  "env_prefix prefix =
     (let upperPrefix = toUpper prefix
      in if hasSuffix upperPrefix ''_'' then upperPrefix else upperPrefix @ ''_'')"

text \<open>The body of the loop: one \<open>KEY=value\<close> string of the environment.\<close>

definition applyEnvVar :: "string \<Rightarrow> Config \<Rightarrow> string \<Rightarrow> Config" where
  "applyEnvVar upperPrefix cfg envVar =
     (case splitN2 envVar (CHR ''='') of
        [key, value] \<Rightarrow>
          (if \<not> hasPrefix key upperPrefix then cfg
           else (case map_of envMappings (trimPrefix key upperPrefix) of
                   None \<Rightarrow> cfg
                 | Some setter \<Rightarrow> setter cfg value))
      | _ \<Rightarrow> cfg)"

text \<open>The error list of the code is never added to, so the call never fails.\<close>

definition applyEnvOverrides :: "Config \<Rightarrow> string \<Rightarrow> string list \<Rightarrow> Config" where
  "applyEnvOverrides cfg prefix envVars = foldl (applyEnvVar (env_prefix prefix)) cfg envVars"

subsection \<open>Which variable decides a field\<close>

text \<open>
  The value that one \<open>KEY=value\<close> string gives to a set of keys, and the value the last
  such string of an environment gives.
\<close>

definition env_value :: "string \<Rightarrow> string list \<Rightarrow> string \<Rightarrow> string option" where
  "env_value p keys envVar =
     (case splitN2 envVar (CHR ''='') of
        [key, value] \<Rightarrow>
          (if hasPrefix key p \<and> trimPrefix key p \<in> set keys then Some value else None)
      | _ \<Rightarrow> None)"

definition env_last :: "string \<Rightarrow> string list \<Rightarrow> string list \<Rightarrow> string option" where
  "env_last p keys envVars =
     foldl (\<lambda>acc e. case env_value p keys e of None \<Rightarrow> acc | Some v \<Rightarrow> Some v) None envVars"

lemma env_value_binding:
  "CHR ''='' \<notin> set (p @ k) \<Longrightarrow> k \<in> set keys \<Longrightarrow> env_value p keys (p @ k @ ''='' @ v) = Some v"
  using splitN2_append [of "CHR ''=''" "p @ k" v] by (simp add: env_value_def)

lemma env_last_Nil [simp]: "env_last p keys [] = None"
  by (simp add: env_last_def)

lemma env_last_snoc:
  "env_last p keys (es @ [e]) =
     (case env_value p keys e of None \<Rightarrow> env_last p keys es | Some v \<Rightarrow> Some v)"
  by (simp add: env_last_def split: option.split)

lemma env_last_no_keys [simp]: "env_last p [] es = None"
  by (induction es rule: rev_induct) (simp_all add: env_last_snoc env_value_def split: list.splits)

locale env_field =
  fixes keys :: "string list"
    and proj :: "Config \<Rightarrow> 'a"
    and decode :: "string \<Rightarrow> 'a"
  assumes owned: "list_all (\<lambda>k. case map_of envMappings k of
                      None \<Rightarrow> False | Some f \<Rightarrow> \<forall>c v. proj (f c v) = decode v) keys"
    and others: "list_all (\<lambda>(k, f). if \<forall>c v. proj (f c v) = proj c then True else k \<in> set keys)
                   envMappings"
begin

lemma setter_field:
  assumes "map_of envMappings k = Some f"
  shows "proj (f c v) = (if k \<in> set keys then decode v else proj c)"
proof (cases "k \<in> set keys")
  case True
  with owned assms show ?thesis by (auto simp: list_all_iff)
next
  case False
  with others map_of_SomeD [OF assms] show ?thesis by (auto simp: list_all_iff split: if_splits)
qed

lemma unmapped_not_key: "map_of envMappings k = None \<Longrightarrow> k \<notin> set keys"
  using owned by (auto simp: list_all_iff)

lemma applyEnvVar_field:
  "proj (applyEnvVar p c e) = (case env_value p keys e of None \<Rightarrow> proj c | Some v \<Rightarrow> decode v)"
  by (auto simp: applyEnvVar_def env_value_def setter_field dest: unmapped_not_key
      split: list.split option.split)

lemma applyEnvOverrides_field:
  "proj (applyEnvOverrides c prefix es) =
     (case env_last (env_prefix prefix) keys es of None \<Rightarrow> proj c | Some v \<Rightarrow> decode v)"
  unfolding applyEnvOverrides_def
  by (induction es rule: rev_induct)
     (simp_all add: applyEnvVar_field env_last_snoc split: option.splits)

end

lemmas env_table = envMappings_def

interpretation per_country_env:
  env_field "[''INSTANCES'', ''INSTANCES_PER_COUNTRY'']" "\<lambda>c. PerCountry (Instances c)" atoi
  by unfold_locales (simp_all add: env_table)

interpretation countries_env:
  env_field "[''INSTANCES_COUNTRIES'', ''COUNTRIES'']" "\<lambda>c. Countries (Instances c)" atoi
  by unfold_locales (simp_all add: env_table)

interpretation relay_env: env_field "[''RELAY_ENFORCE'']" "\<lambda>c. Enforce (Relay c)" "\<lambda>v. v"
  by unfold_locales (simp_all add: env_table)

interpretation proxy_mode_env: env_field "[''PROXY_MODE'']" ProxyMode "\<lambda>v. v"
  by unfold_locales (simp_all add: env_table)

interpretation profile_env: env_field "[''PROFILE'']" Profile "\<lambda>v. v"
  by unfold_locales (simp_all add: env_table)

interpretation ipv6_env: env_field "[''TOR_IPV6'']" "\<lambda>c. IPv6 (Tor c)" parseBool
  by unfold_locales (simp_all add: env_table)

interpretation balance_env:
  env_field "[''PROXY_LOAD_BALANCE_ALGORITHM'']" "\<lambda>c. LoadBalanceAlgorithm (Proxy c)" "\<lambda>v. v"
  by unfold_locales (simp_all add: env_table)

interpretation rotation_env:
  env_field "[''COUNTRY_ROTATION_INTERVAL'']" "\<lambda>c. Rotation_Interval (Rotation (Country c))" atoi
  by unfold_locales (simp_all add: env_table)

interpretation socks_start_env:
  env_field "[''TOR_START_SOCKS_PORT'']" "\<lambda>c. StartSocksPort (Tor c)" atoi
  by unfold_locales (simp_all add: env_table)

text \<open>The country lists are owned by no key: the environment cannot change them.\<close>

interpretation accepted_env: env_field "[]" "\<lambda>c. (Accepted (Country c), Blacklisted (Country c))" undefined
  by unfold_locales (simp_all add: env_table)

definition documented_unmapped :: "string list" where
  "documented_unmapped =
    [''AUTO_COUNTRIES'', ''STREAM_ISOLATION'', ''IPV6'', ''METRICS'', ''COUNTRY_INTERVAL'',
     ''SOCKS_PORT'', ''HTTP_PORT'', ''STATS_PORT'', ''STATUS_PORT'']"

lemma documented_unmapped_rows:
  "list_all (\<lambda>k. k \<notin> set (map fst envMappings) \<and> CHR ''='' \<notin> set k) documented_unmapped"
  by code_simp

lemma unmapped_ignored:
  assumes "k \<notin> set (map fst envMappings)" and "CHR ''='' \<notin> set (p @ k)"
  shows "applyEnvVar p c (p @ k @ ''='' @ v) = c"
proof -
  have "map_of envMappings k = None" using assms(1) by (simp add: map_of_eq_None_iff)
  with splitN2_append [OF assms(2), of v] show ?thesis by (simp add: applyEnvVar_def)
qed

text \<open>C26. A variable whose name, without the prefix, is no key of the table changes nothing:
  among them nine that README.md documents (\<open>SPLITTER_SOCKS_PORT\<close>, \<open>SPLITTER_IPV6\<close>
  and others).\<close>

theorem documented_variables_ignored:
  "list_all (\<lambda>k. applyEnvOverrides c ''SPLITTER_'' [''SPLITTER_'' @ k @ ''='' @ v] = c)
     documented_unmapped"
proof -
  have p: "env_prefix ''SPLITTER_'' = ''SPLITTER_''"
    by (simp add: env_prefix_def hasSuffix_def go_eval)
  have "applyEnvOverrides c ''SPLITTER_'' [''SPLITTER_'' @ k @ ''='' @ v] = c"
    if "k \<notin> set (map fst envMappings) \<and> CHR ''='' \<notin> set k" for k
    using unmapped_ignored [of k "''SPLITTER_''" c v] that by (simp add: applyEnvOverrides_def p)
  with documented_unmapped_rows show ?thesis
    by (auto simp only: list_all_iff)
qed

end
