(* ===== verification/Config_Validate.thy ===== *)
theory Config_Validate
  imports Config_Types
begin

section \<open>Validation (internal/config/validate.go)\<close>

text \<open>
  \<open>Validate\<close> with its checks in the order of the code; an error is the value the code
  formats into its message, \<open>None\<close> is Go's nil. The lemmas say exactly which
  configurations pass, and what passing gives to the code that later hands out ports.
\<close>

datatype validate_error =
    PerCountryNotPositive int
  | CountriesNotPositive int
  | BadRelayEnforce string
  | BadProxyMode string
  | BadBridgeType string
  | BadProfile string
  | BadLogLevel string
  | BadLoggingLevel string
  | PortOutOfRange string int
  | SocksRangeExceeded int int int

fun inSet :: "string \<Rightarrow> string list \<Rightarrow> bool" where
  "inSet val [] = False"
| "inSet val (v # vs) = (if val = v then True else inSet val vs)"

definition port_fields :: "Config \<Rightarrow> (string \<times> int) list" where
  "port_fields cfg =
    [(''proxy.master.port'', Master_Port (Master (Proxy cfg))),
     (''proxy.master.socks_port'', SocksPort (Master (Proxy cfg))),
     (''proxy.master.http_port'', HTTPPort (Master (Proxy cfg))),
     (''proxy.master.transparent_port'', TransparentPort (Master (Proxy cfg))),
     (''proxy.stats.port'', Stats_Port (Stats (Proxy cfg))),
     (''tor.start_socks_port'', StartSocksPort (Tor cfg)),
     (''tor.start_control_port'', StartControlPort (Tor cfg)),
     (''tor.start_http_port'', StartHTTPPort (Tor cfg)),
     (''tor.start_transport_port'', StartTransportPort (Tor cfg)),
     (''tor.start_dns_port'', StartDNSPort (Tor cfg)),
     (''tor.hidden_service.start_port'', HS_StartPort (HiddenService (Tor cfg))),
     (''privoxy.start_port'', Privoxy_StartPort (Privoxy cfg)),
     (''dns.dist_port'', DistPort (DNS cfg))]"

fun check_ports :: "(string \<times> int) list \<Rightarrow> validate_error option" where
  "check_ports [] = None"
| "check_ports ((name, val) # ps) =
     (if val < 0 \<or> 65535 < val then Some (PortOutOfRange name val) else check_ports ps)"

definition validatePorts :: "Config \<Rightarrow> validate_error option" where
  "validatePorts cfg = check_ports (port_fields cfg)"

definition log_levels :: "string list" where
  "log_levels = [''debug'', ''info'', ''warn'', ''error'']"

definition Validate :: "Config \<Rightarrow> validate_error option" where
  "Validate cfg =
    (if PerCountry (Instances cfg) \<le> 0 then Some (PerCountryNotPositive (PerCountry (Instances cfg)))
     else if Countries (Instances cfg) \<le> 0 then Some (CountriesNotPositive (Countries (Instances cfg)))
     else if \<not> inSet (Enforce (Relay cfg)) [''entry'', ''exit'', ''speed'']
       then Some (BadRelayEnforce (Enforce (Relay cfg)))
     else if \<not> inSet (ProxyMode cfg) [''native'', ''legacy''] then Some (BadProxyMode (ProxyMode cfg))
     else if \<not> inSet (BridgeType cfg) [''snowflake'', ''webtunnel'', ''obfs4'', ''none'']
       then Some (BadBridgeType (BridgeType cfg))
     else if Profile cfg \<noteq> [] \<and>
         \<not> inSet (Profile cfg) [''stealth'', ''balanced'', ''streaming'', ''pentest'']
       then Some (BadProfile (Profile cfg))
     else if LogLevel cfg \<noteq> [] \<and> \<not> inSet (toLower (LogLevel cfg)) log_levels
       then Some (BadLogLevel (LogLevel cfg))
     else if \<not> inSet (toLower (Logging_Level (Logging cfg))) log_levels
       then Some (BadLoggingLevel (Logging_Level (Logging cfg)))
     else
       (case validatePorts cfg of
          Some e \<Rightarrow> Some e
        | None \<Rightarrow>
            (let totalPorts = mul64 (PerCountry (Instances cfg)) (Countries (Instances cfg));
                 maxPort = add64 (StartSocksPort (Tor cfg)) totalPorts
             in if 65535 < maxPort
                then Some (SocksRangeExceeded (StartSocksPort (Tor cfg)) totalPorts maxPort)
                else None)))"

subsection \<open>What validation accepts\<close>

lemma inSet_iff [simp]: "inSet val vs \<longleftrightarrow> val \<in> set vs"
  by (induction vs) auto

lemma check_ports_None: "check_ports ps = None \<longleftrightarrow> (\<forall>(name, val) \<in> set ps. 0 \<le> val \<and> val \<le> 65535)"
  by (induction ps rule: check_ports.induct) auto

lemma check_ports_Some:
  "check_ports ps = Some e \<Longrightarrow>
   \<exists>name val. e = PortOutOfRange name val \<and> (name, val) \<in> set ps \<and> (val < 0 \<or> 65535 < val)"
  by (induction ps rule: check_ports.induct) (auto split: if_splits)

text \<open>The contract of a configuration the program runs with.\<close>

definition config_ok :: "Config \<Rightarrow> bool" where
  "config_ok cfg \<longleftrightarrow>
     0 < PerCountry (Instances cfg) \<and> 0 < Countries (Instances cfg) \<and>
     Enforce (Relay cfg) \<in> {''entry'', ''exit'', ''speed''} \<and>
     ProxyMode cfg \<in> {''native'', ''legacy''} \<and>
     BridgeType cfg \<in> {''snowflake'', ''webtunnel'', ''obfs4'', ''none''} \<and>
     Profile cfg \<in> {[], ''stealth'', ''balanced'', ''streaming'', ''pentest''} \<and>
     (LogLevel cfg = [] \<or> toLower (LogLevel cfg) \<in> set log_levels) \<and>
     toLower (Logging_Level (Logging cfg)) \<in> set log_levels \<and>
     snd ` set (port_fields cfg) \<subseteq> {0..65535} \<and>
     StartSocksPort (Tor cfg) + PerCountry (Instances cfg) * Countries (Instances cfg) \<le> 65535"

text \<open>The port arithmetic of \<open>Validate\<close> stays within 64 bits.\<close>

definition socks_range_fits :: "Config \<Rightarrow> bool" where
  "socks_range_fits cfg \<longleftrightarrow>
     StartSocksPort (Tor cfg) + PerCountry (Instances cfg) * Countries (Instances cfg) < 2 ^ 63"

lemma ports_in_range_iff:
  "validatePorts cfg = None \<longleftrightarrow> snd ` set (port_fields cfg) \<subseteq> {0..65535}"
  unfolding validatePorts_def check_ports_None by fastforce

lemma validatePorts_socks: "validatePorts cfg = None \<Longrightarrow> 0 \<le> StartSocksPort (Tor cfg)"
  by (simp add: ports_in_range_iff port_fields_def)

lemma Validate_range_arith:
  assumes "0 < p" and "0 < c" and "0 \<le> s" and "s + p * c < 2 ^ 63"
  shows "add64 s (mul64 p c) = s + p * c"
proof -
  have "0 < p * c" using assms by simp
  then have "in_int64 (p * c)" and "in_int64 (s + p * c)"
    using assms(3,4) unfolding in_int64_def by linarith+
  then show ?thesis by (simp add: go_int)
qed

text \<open>Validation of the port range, once the other checks have passed.\<close>

lemma Validate_port_checks:
  assumes "0 < PerCountry (Instances cfg)" and "0 < Countries (Instances cfg)"
    and "socks_range_fits cfg" and "validatePorts cfg = None"
  shows "65535 < add64 (StartSocksPort (Tor cfg))
           (mul64 (PerCountry (Instances cfg)) (Countries (Instances cfg)))
     \<longleftrightarrow> 65535 < StartSocksPort (Tor cfg) + PerCountry (Instances cfg) * Countries (Instances cfg)"
  using Validate_range_arith [OF assms(1,2) validatePorts_socks [OF assms(4)]] assms(3)
  by (simp add: socks_range_fits_def)

lemma Validate_None_iff:
  "Validate cfg = None \<longleftrightarrow>
     0 < PerCountry (Instances cfg) \<and> 0 < Countries (Instances cfg) \<and>
     Enforce (Relay cfg) \<in> {''entry'', ''exit'', ''speed''} \<and>
     ProxyMode cfg \<in> {''native'', ''legacy''} \<and>
     BridgeType cfg \<in> {''snowflake'', ''webtunnel'', ''obfs4'', ''none''} \<and>
     Profile cfg \<in> {[], ''stealth'', ''balanced'', ''streaming'', ''pentest''} \<and>
     (LogLevel cfg = [] \<or> toLower (LogLevel cfg) \<in> set log_levels) \<and>
     toLower (Logging_Level (Logging cfg)) \<in> set log_levels \<and>
     validatePorts cfg = None \<and>
     \<not> 65535 < add64 (StartSocksPort (Tor cfg))
         (mul64 (PerCountry (Instances cfg)) (Countries (Instances cfg)))"
  unfolding Validate_def Let_def error_chain inSet_iff
  by (simp only: not_le set_simps not_not de_Morgan_conj insert_iff empty_iff) blast

text \<open>C20. As long as the port arithmetic fits in 64 bits, \<open>Validate\<close> accepts exactly the
  configurations that meet the contract: positive instance counts, the known relay, proxy,
  bridge, profile and log-level names, every port field within 0..65535, and a SOCKS port
  range that ends at or below 65535.\<close>

theorem Validate_correct:
  assumes "socks_range_fits cfg"
  shows "Validate cfg = None \<longleftrightarrow> config_ok cfg"
  unfolding Validate_None_iff config_ok_def ports_in_range_iff [symmetric]
  using Validate_port_checks [OF _ _ assms] by (meson linorder_not_le)

lemma Defaults_fits: "socks_range_fits Defaults"
  by (simp add: socks_range_fits_def Defaults_def)

lemma Defaults_ok: "config_ok Defaults"
  by (simp add: config_ok_def Defaults_def port_fields_def log_levels_def go_eval)

theorem Validate_correct_witness: "Validate Defaults = None"
  using Validate_correct [OF Defaults_fits] Defaults_ok by simp

lemma Validate_config_ok: "socks_range_fits cfg \<Longrightarrow> config_ok cfg \<Longrightarrow> Validate cfg = None"
  unfolding Validate_None_iff config_ok_def ports_in_range_iff [symmetric]
  using Validate_port_checks [of cfg] by (meson linorder_not_le)

subsection \<open>The multiplication of the instance counts can wrap\<close>

text \<open>
  \<open>Validate\<close> multiplies the two counts as 64-bit integers and looks at the result only. With
  \<open>2 ^ 32\<close> instances in \<open>2 ^ 32\<close> countries the product is 0, and the range check passes.
\<close>

definition huge_counts :: Config where
  "huge_counts = Defaults\<lparr>Instances := (Instances Defaults)\<lparr>PerCountry := 2 ^ 32, Countries := 2 ^ 32\<rparr>\<rparr>"

lemma Validate_accepts_wrapped_product:
  "Validate huge_counts = None \<and> \<not> config_ok huge_counts"
proof
  have "Validate Defaults = None"
    by (rule Validate_config_ok [OF Defaults_fits Defaults_ok])
  then show "Validate huge_counts = None"
    unfolding Validate_None_iff validatePorts_def port_fields_def
    by (simp add: huge_counts_def Defaults_def mul64_def add64_def wrap64_def)
  show "\<not> config_ok huge_counts"
    by (simp add: config_ok_def huge_counts_def Defaults_def)
qed

end
