(* ===== verification/Config_Profiles.thy ===== *)
theory Config_Profiles
  imports Config_Types
begin

section \<open>Profiles (internal/config/profiles.go, internal/profile/profile.go)\<close>

text \<open>
  A profile of \<open>profiles.yaml\<close> gives some sections and, in each, some fields: pointers in
  the code, options here. \<open>overlay\<close> is the part of \<open>applyProfile\<close> after the entry has been
  found. The lemmas say that an overlay sets exactly the fields the entry gives.
\<close>

record profileInstances =
  p_PerCountry :: "int option"
  p_Countries :: "int option"
  p_MaxConcurrentRequests :: "int option"
  p_Retries :: "int option"

record profileRelay =
  p_Enforce :: "string option"

record profileProxy =
  p_LoadBalanceAlgorithm :: "string option"
  p_HAProxyHTTPReuse :: "string option"

record profileTor =
  p_MaxCircuitDirtiness :: "int option"
  p_ConnectionPadding :: "int option"
  p_UseEntryGuards :: "int option"
  p_ReducedConnectionPadding :: "int option"
  p_StreamIsolation :: "bool option"
  p_IPv6 :: "bool option"
  p_ConfluxEnabled :: "bool option"
  p_CongestionControlAuto :: "bool option"
  p_Sandbox :: "bool option"
  p_CircuitFingerprintingResistance :: "bool option"

record profileLogging =
  p_LoggingEnabled :: "bool option"
  p_LoggingLevel :: "string option"

record profileCountry =
  p_RotationInterval :: "int option"
  p_TotalToChange :: "int option"

record profileHealthCheck =
  p_ExitReputation :: "bool option"

record profileEntry =
  p_Description :: string
  p_Instances :: "profileInstances option"
  p_Relay :: "profileRelay option"
  p_Proxy :: "profileProxy option"
  p_Tor :: "profileTor option"
  p_Logging :: "profileLogging option"
  p_Country :: "profileCountry option"
  p_HealthCheck :: "profileHealthCheck option"

subsection \<open>The overlay of each section\<close>

definition overlay_instances :: "profileInstances \<Rightarrow> InstancesConfig \<Rightarrow> InstancesConfig" where
  "overlay_instances p c =
    c\<lparr>PerCountry := override (p_PerCountry p) (PerCountry c),
      Countries := override (p_Countries p) (Countries c),
      MaxConcurrentRequests := override (p_MaxConcurrentRequests p) (MaxConcurrentRequests c),
      Retries := override (p_Retries p) (Retries c)\<rparr>"

definition overlay_relay :: "profileRelay \<Rightarrow> RelayConfig \<Rightarrow> RelayConfig" where
  "overlay_relay p c = c\<lparr>Enforce := override (p_Enforce p) (Enforce c)\<rparr>"

definition overlay_proxy :: "profileProxy \<Rightarrow> ProxyConfig \<Rightarrow> ProxyConfig" where
  "overlay_proxy p c =
    c\<lparr>LoadBalanceAlgorithm := override (p_LoadBalanceAlgorithm p) (LoadBalanceAlgorithm c),
      HAProxyHTTPReuse := override (p_HAProxyHTTPReuse p) (HAProxyHTTPReuse c)\<rparr>"

definition overlay_tor :: "profileTor \<Rightarrow> TorConfig \<Rightarrow> TorConfig" where
  "overlay_tor p c =
    c\<lparr>MaxCircuitDirtiness := override (p_MaxCircuitDirtiness p) (MaxCircuitDirtiness c),
      ConnectionPadding := override (p_ConnectionPadding p) (ConnectionPadding c),
      UseEntryGuards := override (p_UseEntryGuards p) (UseEntryGuards c),
      ReducedConnectionPadding := override (p_ReducedConnectionPadding p) (ReducedConnectionPadding c),
      StreamIsolation := override (p_StreamIsolation p) (StreamIsolation c),
      IPv6 := override (p_IPv6 p) (IPv6 c),
      ConfluxEnabled := override (p_ConfluxEnabled p) (ConfluxEnabled c),
      CongestionControlAuto := override (p_CongestionControlAuto p) (CongestionControlAuto c),
      Sandbox := override (p_Sandbox p) (Sandbox c),
      CircuitFingerprintingResistance :=
        override (p_CircuitFingerprintingResistance p) (CircuitFingerprintingResistance c)\<rparr>"

definition overlay_logging :: "profileLogging \<Rightarrow> LoggingConfig \<Rightarrow> LoggingConfig" where
  "overlay_logging p c =
    c\<lparr>Logging_Enabled := override (p_LoggingEnabled p) (Logging_Enabled c),
      Logging_Level := override (p_LoggingLevel p) (Logging_Level c)\<rparr>"

definition overlay_country :: "profileCountry \<Rightarrow> CountryConfig \<Rightarrow> CountryConfig" where
  "overlay_country p c =
    c\<lparr>Rotation := (Rotation c)
        \<lparr>Rotation_Interval := override (p_RotationInterval p) (Rotation_Interval (Rotation c)),
         TotalToChange := override (p_TotalToChange p) (TotalToChange (Rotation c))\<rparr>\<rparr>"

definition overlay_reputation :: "profileHealthCheck \<Rightarrow> ExitReputationConfig \<Rightarrow> ExitReputationConfig" where
  "overlay_reputation p c =
    c\<lparr>Reputation_Enabled := override (p_ExitReputation p) (Reputation_Enabled c)\<rparr>"

text \<open>A section that is absent changes nothing.\<close>

definition on_section :: "('p \<Rightarrow> 'c \<Rightarrow> 'c) \<Rightarrow> 'p option \<Rightarrow> 'c \<Rightarrow> 'c" where
  "on_section f sec c = (case sec of None \<Rightarrow> c | Some p \<Rightarrow> f p c)"

definition overlay :: "profileEntry \<Rightarrow> Config \<Rightarrow> Config" where
  "overlay e cfg =
    cfg\<lparr>Instances := on_section overlay_instances (p_Instances e) (Instances cfg),
        Relay := on_section overlay_relay (p_Relay e) (Relay cfg),
        Proxy := on_section overlay_proxy (p_Proxy e) (Proxy cfg),
        Tor := on_section overlay_tor (p_Tor e) (Tor cfg),
        Logging := on_section overlay_logging (p_Logging e) (Logging cfg),
        Country := on_section overlay_country (p_Country e) (Country cfg),
        ExitReputation := on_section overlay_reputation (p_HealthCheck e) (ExitReputation cfg)\<rparr>"

lemma on_section_simps [simp]: "on_section f None c = c" "on_section f (Some p) c = f p c"
  by (simp_all add: on_section_def)

lemmas overlay_defs = overlay_instances_def overlay_relay_def overlay_proxy_def overlay_tor_def
  overlay_logging_def overlay_country_def overlay_reputation_def

lemma on_section_idem:
  assumes "\<And>p c. f p (f p c) = f p c"
  shows "on_section f sec (on_section f sec c) = on_section f sec c"
  using assms by (cases sec) simp_all

lemma overlay_idem: "overlay e (overlay e cfg) = overlay e cfg"
  by (simp add: overlay_def on_section_idem overlay_defs)

text \<open>The value an entry gives for a field of one of its sections.\<close>

definition given :: "('e \<Rightarrow> 'p option) \<Rightarrow> ('p \<Rightarrow> 'v option) \<Rightarrow> 'e \<Rightarrow> 'v option" where
  "given sec fld e = (case sec e of None \<Rightarrow> None | Some p \<Rightarrow> fld p)"

lemma overlay_fields:
  "PerCountry (Instances (overlay e cfg)) = override (given p_Instances p_PerCountry e) (PerCountry (Instances cfg))"
  "Countries (Instances (overlay e cfg)) = override (given p_Instances p_Countries e) (Countries (Instances cfg))"
  "Enforce (Relay (overlay e cfg)) = override (given p_Relay p_Enforce e) (Enforce (Relay cfg))"
  "IPv6 (Tor (overlay e cfg)) = override (given p_Tor p_IPv6 e) (IPv6 (Tor cfg))"
  "Rotation_Interval (Rotation (Country (overlay e cfg))) =
     override (given p_Country p_RotationInterval e) (Rotation_Interval (Rotation (Country cfg)))"
  by (simp_all add: overlay_def overlay_defs given_def on_section_def split: option.split)

text \<open>What no profile can change.\<close>

lemma overlay_frame [simp]:
  "Profile (overlay e cfg) = Profile cfg" "ProxyMode (overlay e cfg) = ProxyMode cfg"
  "BridgeType (overlay e cfg) = BridgeType cfg" "LogLevel (overlay e cfg) = LogLevel cfg"
  "Log (overlay e cfg) = Log cfg" "Privoxy (overlay e cfg) = Privoxy cfg"
  "StartSocksPort (Tor (overlay e cfg)) = StartSocksPort (Tor cfg)"
  "Accepted (Country (overlay e cfg)) = Accepted (Country cfg)"
  "Blacklisted (Country (overlay e cfg)) = Blacklisted (Country cfg)"
  by (simp_all add: overlay_def overlay_defs on_section_def split: option.split)

subsection \<open>The profile names (package profile)\<close>

definition ValidProfiles :: "string list" where
  "ValidProfiles = [''stealth'', ''balanced'', ''streaming'', ''pentest'']"

fun isValid_loop :: "string \<Rightarrow> string list \<Rightarrow> bool" where
  "isValid_loop name [] = False"
| "isValid_loop name (p # ps) = (if name = p then True else isValid_loop name ps)"

definition IsValid :: "string \<Rightarrow> bool" where
  "IsValid name = isValid_loop name ValidProfiles"

definition Names :: "string list" where
  "Names = [] @ ValidProfiles"

lemma IsValid_iff: "IsValid name \<longleftrightarrow> name \<in> set Names"
proof -
  have "isValid_loop name ps \<longleftrightarrow> name \<in> set ps" for ps
    by (induction ps) auto
  then show ?thesis by (simp add: IsValid_def Names_def)
qed

end
