(* ===== verification/Config_Load.thy ===== *)
theory Config_Load
  imports Config_Env Config_Validate Config_Profiles
begin

section \<open>Loading the configuration (internal/config/loader.go, profiles.go)\<close>

text \<open>
  \<open>Load\<close> starts from the defaults and applies, in this order, the YAML file, the user-agent
  file, the profile, the environment and the command-line flags, then normalises the log
  settings and validates. The file system and the YAML decoder are the fields of
  \<open>load_env\<close>; a decoder gets the bytes of the file and, for the main file, the
  configuration it decodes into. \<open>flag_reader\<close> is the interface \<open>FlagReader\<close>.
\<close>

record flag_reader =
  Changed :: "string \<Rightarrow> bool"
  GetInt :: "string \<Rightarrow> string + int"
  GetString :: "string \<Rightarrow> string + string"
  GetBool :: "string \<Rightarrow> string + bool"

record LoadOptions =
  ConfigPath :: string
  ProfilesPath :: string
  UserAgentsPath :: string
  EnvPrefix :: string
  Flags :: "flag_reader option"

record load_env =
  ReadFile :: "string \<Rightarrow> os_error + string"
  UnmarshalConfig :: "string \<Rightarrow> Config \<Rightarrow> string + Config"
  UnmarshalProfiles :: "string \<Rightarrow> string + (string \<rightharpoonup> profileEntry)"
  UnmarshalUserAgents :: "string \<Rightarrow> string + string list \<times> string"
  Environ :: "string list"

datatype load_error =
    Reading string os_error
  | Parsing string string
  | UnknownProfile string
  | UserAgentsReading os_error
  | UserAgentsParsing string
  | Invalid validate_error

definition loadYAML :: "load_env \<Rightarrow> Config \<Rightarrow> string \<Rightarrow> load_error + Config" where
  "loadYAML env cfg path =
     (case ReadFile env path of
        Inl ErrNotExist \<Rightarrow> Inr cfg
      | Inl err \<Rightarrow> Inl (Reading path err)
      | Inr data \<Rightarrow>
          (case UnmarshalConfig env data cfg of
             Inl err \<Rightarrow> Inl (Parsing path err)
           | Inr cfg' \<Rightarrow> Inr cfg'))"

definition loadUserAgents :: "load_env \<Rightarrow> Config \<Rightarrow> string \<Rightarrow> load_error + Config" where
  "loadUserAgents env cfg path =
     (case ReadFile env (if path = [] then ''configs/useragents.yaml'' else path) of
        Inl ErrNotExist \<Rightarrow> Inr cfg
      | Inl err \<Rightarrow> Inl (UserAgentsReading err)
      | Inr data \<Rightarrow>
          (case UnmarshalUserAgents env data of
             Inl err \<Rightarrow> Inl (UserAgentsParsing err)
           | Inr (agents, dflt) \<Rightarrow>
               (let cfg1 = (if 0 < length agents
                      then cfg\<lparr>UserAgent := (UserAgent cfg)\<lparr>UserAgents := agents\<rparr>\<rparr> else cfg)
                in Inr (if dflt \<noteq> []
                     then cfg1\<lparr>UserAgent := (UserAgent cfg1)\<lparr>UA_Default := dflt, TorBrowser := dflt\<rparr>\<rparr>
                     else cfg1))))"

definition applyProfile :: "load_env \<Rightarrow> Config \<Rightarrow> string \<Rightarrow> string \<Rightarrow> load_error + Config" where
  "applyProfile env cfg profileName profilesPath =
     (if profileName = [] then Inr cfg
      else
        (let path = (if profilesPath = [] then ''configs/profiles.yaml'' else profilesPath)
         in case ReadFile env path of
              Inl err \<Rightarrow> Inl (Reading path err)
            | Inr data \<Rightarrow>
                (case UnmarshalProfiles env data of
                   Inl err \<Rightarrow> Inl (Parsing path err)
                 | Inr profiles \<Rightarrow>
                     (case profiles profileName of
                        None \<Rightarrow> Inl (UnknownProfile profileName)
                      | Some entry \<Rightarrow> Inr (overlay entry cfg)))))"

subsection \<open>Flags\<close>

text \<open>\<open>if flags.Changed(name) { if v, err := flags.Get(name); err == nil { ... } }\<close>\<close>

definition flag_value :: "flag_reader \<Rightarrow> (string \<Rightarrow> string + 'v) \<Rightarrow> string \<Rightarrow> 'v option" where
  "flag_value flags get name =
     (if Changed flags name then (case get name of Inl err \<Rightarrow> None | Inr v \<Rightarrow> Some v) else None)"

definition on_flag :: "'v option \<Rightarrow> ('v \<Rightarrow> Config \<Rightarrow> Config) \<Rightarrow> Config \<Rightarrow> Config" where
  "on_flag val upd cfg = (case val of None \<Rightarrow> cfg | Some v \<Rightarrow> upd v cfg)"

definition applyFlags :: "Config \<Rightarrow> flag_reader \<Rightarrow> Config" where
  "applyFlags cfg flags =
    (let int_flag = flag_value flags (GetInt flags);
         string_flag = flag_value flags (GetString flags);
         bool_flag = flag_value flags (GetBool flags)
     in (on_flag (bool_flag ''exit-reputation'')
           (\<lambda>v c. c\<lparr>ExitReputation := (ExitReputation c)\<lparr>Reputation_Enabled := v\<rparr>\<rparr>) \<circ>
         on_flag (bool_flag ''ipv6'') (\<lambda>v c. c\<lparr>Tor := (Tor c)\<lparr>IPv6 := v\<rparr>\<rparr>) \<circ>
         on_flag (bool_flag ''stream-isolation'') (\<lambda>v c. c\<lparr>Tor := (Tor c)\<lparr>StreamIsolation := v\<rparr>\<rparr>) \<circ>
         on_flag (bool_flag ''auto-countries'')
           (\<lambda>v c. c\<lparr>Country := (Country c)\<lparr>AutoCountries := v\<rparr>\<rparr>) \<circ>
         on_flag (string_flag ''log-level'') (\<lambda>v c. c\<lparr>LogLevel := v\<rparr>) \<circ>
         on_flag (bool_flag ''log'') (\<lambda>v c. c\<lparr>Log := v\<rparr>) \<circ>
         on_flag (bool_flag ''verbose'') (\<lambda>v c. c\<lparr>Verbose := v\<rparr>) \<circ>
         on_flag (string_flag ''bridge-type'') (\<lambda>v c. c\<lparr>BridgeType := v\<rparr>) \<circ>
         on_flag (string_flag ''proxy-mode'') (\<lambda>v c. c\<lparr>ProxyMode := v\<rparr>) \<circ>
         on_flag (string_flag ''profile'') (\<lambda>v c. c\<lparr>Profile := v\<rparr>) \<circ>
         on_flag (string_flag ''relay-enforce'') (\<lambda>v c. c\<lparr>Relay := (Relay c)\<lparr>Enforce := v\<rparr>\<rparr>) \<circ>
         on_flag (int_flag ''countries'') (\<lambda>v c. c\<lparr>Instances := (Instances c)\<lparr>Countries := v\<rparr>\<rparr>) \<circ>
         on_flag (int_flag ''instances'')
           (\<lambda>v c. c\<lparr>Instances := (Instances c)\<lparr>PerCountry := v\<rparr>\<rparr>)) cfg)"

subsection \<open>Load\<close>

definition normalise_log :: "Config \<Rightarrow> Config" where
  "normalise_log cfg =
     (let cfg1 = (if LogLevel cfg \<noteq> []
            then cfg\<lparr>Logging := (Logging cfg)\<lparr>Logging_Level := toUpper (LogLevel cfg)\<rparr>\<rparr> else cfg)
      in if Log cfg1 then cfg1\<lparr>Logging := (Logging cfg1)\<lparr>Logging_Enabled := True\<rparr>\<rparr> else cfg1)"

definition Load :: "load_env \<Rightarrow> LoadOptions \<Rightarrow> load_error + Config" where
  "Load env opts =
    (let configPath = (if ConfigPath opts = [] then ''configs/default.yaml'' else ConfigPath opts);
         prefix = (if EnvPrefix opts = [] then ''SPLITTER_'' else EnvPrefix opts)
     in sum_bind (loadYAML env Defaults configPath) (\<lambda>cfg1.
        sum_bind (loadUserAgents env cfg1 (UserAgentsPath opts)) (\<lambda>cfg2.
        (let flag_profile = (case Flags opts of None \<Rightarrow> None
               | Some fl \<Rightarrow> flag_value fl (GetString fl) ''profile'');
             profileName = override flag_profile (Profile cfg2);
             cfg3 = (case flag_profile of None \<Rightarrow> cfg2 | Some v \<Rightarrow> cfg2\<lparr>Profile := v\<rparr>)
         in sum_bind (applyProfile env cfg3 profileName (ProfilesPath opts)) (\<lambda>cfg4.
            (let cfg5 = applyEnvOverrides cfg4 prefix (Environ env);
                 cfg6 = (case Flags opts of None \<Rightarrow> cfg5 | Some fl \<Rightarrow> applyFlags cfg5 fl);
                 cfg7 = normalise_log cfg6
             in case Validate cfg7 of
                  Some e \<Rightarrow> Inl (Invalid e)
                | None \<Rightarrow> Inr cfg7))))))"

subsection \<open>What a successful load gives\<close>

definition flag_of :: "LoadOptions \<Rightarrow> (flag_reader \<Rightarrow> string \<Rightarrow> string + 'v) \<Rightarrow> string \<Rightarrow> 'v option" where
  "flag_of opts get name =
     (case Flags opts of None \<Rightarrow> None | Some fl \<Rightarrow> flag_value fl (get fl) name)"

text \<open>The entry of the profile file that \<open>applyProfile\<close> overlays.\<close>

definition applied_entry :: "load_env \<Rightarrow> string \<Rightarrow> string \<Rightarrow> profileEntry option" where
  "applied_entry env name path =
     (if name = [] then None
      else case ReadFile env (if path = [] then ''configs/profiles.yaml'' else path) of
             Inl err \<Rightarrow> None
           | Inr data \<Rightarrow> (case UnmarshalProfiles env data of Inl err \<Rightarrow> None | Inr ps \<Rightarrow> ps name))"

definition config_path :: "LoadOptions \<Rightarrow> string" where
  "config_path opts = (if ConfigPath opts = [] then ''configs/default.yaml'' else ConfigPath opts)"

definition load_prefix :: "LoadOptions \<Rightarrow> string" where
  "load_prefix opts = (if EnvPrefix opts = [] then ''SPLITTER_'' else EnvPrefix opts)"

lemma applyProfile_Inr:
  "applyProfile env cfg name path = Inr cfg' \<Longrightarrow>
   cfg' = on_section overlay (applied_entry env name path) cfg"
  by (auto simp: applyProfile_def applied_entry_def Let_def split: if_splits sum.splits option.splits)

lemma loadUserAgents_frame:
  "loadUserAgents env cfg path = Inr cfg' \<Longrightarrow> \<exists>ua. cfg' = cfg\<lparr>UserAgent := ua\<rparr>"
proof -
  have same: "\<exists>ua. c = c\<lparr>UserAgent := ua\<rparr>" for c :: Config
    by (rule exI [of _ "UserAgent c"]) simp
  show "loadUserAgents env cfg path = Inr cfg' \<Longrightarrow> \<exists>ua. cfg' = cfg\<lparr>UserAgent := ua\<rparr>"
    by (auto simp: loadUserAgents_def Let_def intro: same
        split: sum.splits os_error.splits prod.splits if_splits)
qed

text \<open>The stages of a load that succeeds.\<close>

lemma Load_InrE:
  assumes "Load env opts = Inr cfg"
  obtains yaml ua cfg4 where
    "loadYAML env Defaults (config_path opts) = Inr yaml"
    and "cfg4 = on_section overlay
           (applied_entry env (override (flag_of opts GetString ''profile'') (Profile yaml)) (ProfilesPath opts))
           (yaml\<lparr>UserAgent := ua, Profile := override (flag_of opts GetString ''profile'') (Profile yaml)\<rparr>)"
    and "cfg = normalise_log (on_section (\<lambda>fl c. applyFlags c fl) (Flags opts)
           (applyEnvOverrides cfg4 (load_prefix opts) (Environ env)))"
    and "Validate cfg = None"
proof -
  from assms obtain yaml cfg2 cfg4 where
    y: "loadYAML env Defaults (config_path opts) = Inr yaml" and
    u: "loadUserAgents env yaml (UserAgentsPath opts) = Inr cfg2" and
    p: "applyProfile env
          (case flag_of opts GetString ''profile'' of None \<Rightarrow> cfg2 | Some v \<Rightarrow> cfg2\<lparr>Profile := v\<rparr>)
          (override (flag_of opts GetString ''profile'') (Profile cfg2)) (ProfilesPath opts) = Inr cfg4" and
    c: "cfg = normalise_log (case Flags opts of
            None \<Rightarrow> applyEnvOverrides cfg4 (load_prefix opts) (Environ env)
          | Some fl \<Rightarrow> applyFlags (applyEnvOverrides cfg4 (load_prefix opts) (Environ env)) fl)" and
    v: "Validate cfg = None"
    unfolding Load_def Let_def flag_of_def config_path_def load_prefix_def
    by (auto elim!: sum_bind_InrE split: option.splits)
  from loadUserAgents_frame [OF u] obtain ua where ua: "cfg2 = yaml\<lparr>UserAgent := ua\<rparr>" ..
  have "(case flag_of opts GetString ''profile'' of None \<Rightarrow> cfg2 | Some v \<Rightarrow> cfg2\<lparr>Profile := v\<rparr>)
      = yaml\<lparr>UserAgent := ua, Profile := override (flag_of opts GetString ''profile'') (Profile yaml)\<rparr>"
    by (simp add: ua split: option.split)
  with y applyProfile_Inr [OF p] c v show thesis
    by (intro that [of yaml cfg4 ua]) (simp_all add: ua on_section_def split: option.split)
qed

lemma normalise_log_frame [simp]:
  "Instances (normalise_log c) = Instances c" "Relay (normalise_log c) = Relay c"
  "Tor (normalise_log c) = Tor c" "Country (normalise_log c) = Country c"
  "Profile (normalise_log c) = Profile c" "ProxyMode (normalise_log c) = ProxyMode c"
  "LogLevel (normalise_log c) = LogLevel c" "Log (normalise_log c) = Log c"
  by (simp_all add: normalise_log_def Let_def)

text \<open>A flag decides the field it writes and leaves the others alone.\<close>

lemma on_flag_owns: "(\<forall>v c. f (upd v c) = v) \<Longrightarrow> f (on_flag val upd c) = override val (f c)"
  by (cases val) (simp_all add: on_flag_def)

lemma on_flag_leaves: "(\<forall>v c. f (upd v c) = f c) \<Longrightarrow> f (on_flag val upd c) = f c"
  by (cases val) (simp_all add: on_flag_def)

lemmas on_flag_rules = on_flag_owns on_flag_leaves

lemmas on_flag_fields =
  on_flag_rules [where f = "\<lambda>c. PerCountry (Instances c)"]
  on_flag_rules [where f = "\<lambda>c. Countries (Instances c)"]
  on_flag_rules [where f = "\<lambda>c. Enforce (Relay c)"]
  on_flag_rules [where f = "\<lambda>c. IPv6 (Tor c)"]
  on_flag_rules [where f = Profile]
  on_flag_rules [where f = LogLevel]

lemma applyFlags_fields:
  "PerCountry (Instances (applyFlags c fl)) =
     override (flag_value fl (GetInt fl) ''instances'') (PerCountry (Instances c))"
  "Countries (Instances (applyFlags c fl)) =
     override (flag_value fl (GetInt fl) ''countries'') (Countries (Instances c))"
  "Enforce (Relay (applyFlags c fl)) =
     override (flag_value fl (GetString fl) ''relay-enforce'') (Enforce (Relay c))"
  "IPv6 (Tor (applyFlags c fl)) = override (flag_value fl (GetBool fl) ''ipv6'') (IPv6 (Tor c))"
  by (simp_all add: applyFlags_def Let_def on_flag_fields)

lemma first_some_Cons: "first_some (x # xs) = (case x of None \<Rightarrow> first_some xs | Some v \<Rightarrow> Some v)"
  by (cases x) simp_all

text \<open>A field, from the flags down to the file.\<close>

lemma stage_fields:
  assumes "cfg4 = on_section overlay e (yaml\<lparr>UserAgent := ua, Profile := pr\<rparr>)"
    and "cfg = normalise_log (on_section (\<lambda>fl c. applyFlags c fl) (Flags opts)
           (applyEnvOverrides cfg4 prefix es))"
  shows
    "PerCountry (Instances cfg) =
       override (flag_of opts GetInt ''instances'')
         (override (map_option atoi (env_last (env_prefix prefix) [''INSTANCES'', ''INSTANCES_PER_COUNTRY''] es))
           (override (Option.bind e (given p_Instances p_PerCountry)) (PerCountry (Instances yaml))))"
    "Countries (Instances cfg) =
       override (flag_of opts GetInt ''countries'')
         (override (map_option atoi (env_last (env_prefix prefix) [''INSTANCES_COUNTRIES'', ''COUNTRIES''] es))
           (override (Option.bind e (given p_Instances p_Countries)) (Countries (Instances yaml))))"
    "Enforce (Relay cfg) =
       override (flag_of opts GetString ''relay-enforce'')
         (override (env_last (env_prefix prefix) [''RELAY_ENFORCE''] es)
           (override (Option.bind e (given p_Relay p_Enforce)) (Enforce (Relay yaml))))"
  unfolding assms on_section_def flag_of_def
  by (simp_all add: applyFlags_fields per_country_env.applyEnvOverrides_field
      countries_env.applyEnvOverrides_field relay_env.applyEnvOverrides_field overlay_fields
      split: option.split)

lemma first_some_override:
  "first_some [a, b, c, Some d] = Some (override a (override b (override c d)))"
  by (simp add: first_some_Cons override_def split: option.split)


lemma normalise_log_post:
  "cfg = normalise_log c \<Longrightarrow>
     (LogLevel cfg = [] \<or> Logging_Level (Logging cfg) = toUpper (LogLevel cfg)) \<and>
     (\<not> Log cfg \<or> Logging_Enabled (Logging cfg))"
  by (simp add: normalise_log_def Let_def)

text \<open>A configuration that \<open>Load\<close> returns is valid, a non-empty log level is the level
  of the logger in upper case, and asking for the log enables it.\<close>

theorem Load_valid:
  assumes "Load env opts = Inr cfg"
  shows "Validate cfg = None \<and>
    (LogLevel cfg = [] \<or> Logging_Level (Logging cfg) = toUpper (LogLevel cfg)) \<and>
    (\<not> Log cfg \<or> Logging_Enabled (Logging cfg))"
  using normalise_log_post by (blast intro: Load_InrE [OF assms])

subsection \<open>A load on concrete files, variables and flags\<close>

text \<open>No YAML file, the profile file with one profile, one variable and three flags.\<close>

definition demo_profile :: profileEntry where
  "demo_profile = \<lparr>p_Description = [],
     p_Instances = Some \<lparr>p_PerCountry = Some 3, p_Countries = Some 8,
       p_MaxConcurrentRequests = None, p_Retries = None\<rparr>,
     p_Relay = Some \<lparr>p_Enforce = Some ''exit''\<rparr>,
     p_Proxy = None, p_Tor = None, p_Logging = None, p_Country = None, p_HealthCheck = None\<rparr>"

definition demo_env :: load_env where
  "demo_env = \<lparr>
     ReadFile = (\<lambda>p. if p = ''configs/profiles.yaml'' then Inr ''profiles'' else Inl ErrNotExist),
     UnmarshalConfig = (\<lambda>d c. Inr c),
     UnmarshalProfiles = (\<lambda>d. Inr (map_of [(''stealth'', demo_profile)])),
     UnmarshalUserAgents = (\<lambda>d. Inr ([], [])),
     Environ = [''HOME=/root'', ''SPLITTER_COUNTRIES=5'', ''SPLITTER_LOG=on'']\<rparr>"

definition demo_flags :: flag_reader where
  "demo_flags = \<lparr>Changed = (\<lambda>n. n = ''profile'' \<or> n = ''instances'' \<or> n = ''log-level''),
     GetInt = (\<lambda>n. Inr 4),
     GetString = (\<lambda>n. if n = ''log-level'' then Inr ''debug'' else Inr ''stealth''),
     GetBool = (\<lambda>n. Inr False)\<rparr>"

definition demo_opts :: LoadOptions where
  "demo_opts = \<lparr>ConfigPath = [], ProfilesPath = [], UserAgentsPath = [], EnvPrefix = [],
     Flags = Some demo_flags\<rparr>"

lemma demo_yaml: "loadYAML demo_env Defaults (config_path demo_opts) = Inr Defaults"
  by (simp add: loadYAML_def demo_env_def demo_opts_def config_path_def)

lemma demo_applied_env:
  "applyEnvOverrides c ''SPLITTER_'' (Environ demo_env) =
     c\<lparr>Instances := (Instances c)\<lparr>Countries := 5\<rparr>,
       Logging := (Logging c)\<lparr>Logging_Enabled := True\<rparr>, Log := True\<rparr>"
proof -
  have "map_of envMappings ''COUNTRIES'' = Some (\<lambda>c v. c\<lparr>Instances := (Instances c)\<lparr>Countries := atoi v\<rparr>\<rparr>)"
    and "map_of envMappings ''LOG'' = Some (\<lambda>c v. c\<lparr>Logging := (Logging c)\<lparr>Logging_Enabled := parseBool v\<rparr>, Log := parseBool v\<rparr>)"
    by (simp_all add: envMappings_def)
  moreover have "atoi ''5'' = 5" and "parseBool ''on''"
    by code_simp+
  ultimately show ?thesis
    by (simp add: applyEnvOverrides_def demo_env_def applyEnvVar_def splitN2_def hasPrefix_def
        trimPrefix_def env_prefix_def hasSuffix_def go_eval)
qed

lemma demo_applied_flags:
  "applyFlags c demo_flags =
     c\<lparr>Instances := (Instances c)\<lparr>PerCountry := 4\<rparr>, Profile := ''stealth'', LogLevel := ''debug''\<rparr>"
  by (simp add: applyFlags_def demo_flags_def on_flag_def flag_value_def)

definition demo_config :: Config where
  "demo_config = Defaults
     \<lparr>Instances := \<lparr>PerCountry = 4, Countries = 5, MaxConcurrentRequests = 20, Retries = 1000\<rparr>,
      Relay := \<lparr>Enforce = ''exit''\<rparr>,
      Logging := (Logging Defaults)\<lparr>Logging_Enabled := True, Logging_Level := ''DEBUG''\<rparr>,
      Profile := ''stealth'', Log := True, LogLevel := ''debug''\<rparr>"

lemma demo_valid: "Validate demo_config = None"
  unfolding Validate_None_iff validatePorts_def port_fields_def
  by (simp add: demo_config_def Defaults_def log_levels_def go_eval mul64_def add64_def wrap64_def)

lemma demo_stages:
  "normalise_log (applyFlags (applyEnvOverrides (overlay demo_profile (Defaults\<lparr>Profile := ''stealth''\<rparr>))
      ''SPLITTER_'' (Environ demo_env)) demo_flags) = demo_config"
  unfolding demo_applied_env demo_applied_flags
  by (simp add: overlay_def overlay_instances_def overlay_relay_def demo_profile_def demo_config_def
      normalise_log_def Defaults_def go_eval)

lemma demo_profile_flag:
  "flag_value demo_flags (GetString demo_flags) ''profile'' = Some ''stealth''"
  by (simp add: flag_value_def demo_flags_def)

lemma demo_applied_profile:
  "applyProfile demo_env c ''stealth'' [] = Inr (overlay demo_profile c)"
  by (simp add: applyProfile_def demo_env_def)

lemma demo_loads: "Load demo_env demo_opts = Inr demo_config"
proof -
  have "loadUserAgents demo_env Defaults [] = Inr Defaults"
    by (simp add: loadUserAgents_def demo_env_def)
  with demo_yaml demo_stages demo_valid show ?thesis
    unfolding Load_def config_path_def
    by (simp add: demo_opts_def demo_profile_flag demo_applied_profile)
qed


theorem Load_valid_witness:
  "Validate demo_config = None \<and> Logging_Level (Logging demo_config) = toUpper ''debug'' \<and>
   Logging_Enabled (Logging demo_config)"
proof -
  have "LogLevel demo_config = ''debug''" and "Log demo_config"
    by (simp_all add: demo_config_def)
  with Load_valid [OF demo_loads] show ?thesis by simp
qed

subsection \<open>The profile variable comes too late\<close>

text \<open>
  The environment is applied after the profile: a profile named by \<open>SPLITTER_PROFILE\<close> is
  recorded in the configuration and passes validation, but none of its settings is applied.
  Here there is no profile file at all, which the flag \<open>--profile\<close> would report as an error.
\<close>

definition env_profile_only :: load_env where
  "env_profile_only = \<lparr>ReadFile = (\<lambda>p. Inl ErrNotExist), UnmarshalConfig = (\<lambda>d c. Inr c),
     UnmarshalProfiles = (\<lambda>d. Inl []), UnmarshalUserAgents = (\<lambda>d. Inr ([], [])),
     Environ = [''SPLITTER_PROFILE=stealth'']\<rparr>"

definition no_flags :: LoadOptions where
  "no_flags = \<lparr>ConfigPath = [], ProfilesPath = [], UserAgentsPath = [], EnvPrefix = [], Flags = None\<rparr>"

lemma profile_variable_not_applied:
  "Load env_profile_only no_flags = Inr (Defaults\<lparr>Profile := ''stealth''\<rparr>)"
proof -
  have "map_of envMappings ''PROFILE'' = Some (\<lambda>c v. c\<lparr>Profile := v\<rparr>)"
    by (simp add: envMappings_def)
  then have "applyEnvOverrides Defaults ''SPLITTER_'' [''SPLITTER_PROFILE=stealth'']
      = Defaults\<lparr>Profile := ''stealth''\<rparr>"
    by (simp add: applyEnvOverrides_def applyEnvVar_def splitN2_def hasPrefix_def trimPrefix_def
        env_prefix_def hasSuffix_def go_eval)
  moreover have "Validate (Defaults\<lparr>Profile := ''stealth''\<rparr>) = None"
    unfolding Validate_None_iff validatePorts_def port_fields_def
    by (simp add: Defaults_def log_levels_def go_eval mul64_def add64_def wrap64_def)
  moreover have "Profile Defaults = []" "LogLevel Defaults = []" "\<not> Log Defaults"
    by (simp_all add: Defaults_def)
  ultimately show ?thesis
    by (simp add: Load_def no_flags_def env_profile_only_def loadYAML_def loadUserAgents_def
        applyProfile_def normalise_log_def)
qed

end
