(* ===== verification/Port_Allocator.thy ===== *)
theory Port_Allocator
  imports Go_Prelude
begin

section \<open>The port allocator (internal/network/allocator.go)\<close>

text \<open>
  The allocator's state is the set of ports it has handed out. \<open>isAvailable\<close> asks the
  operating system by opening and closing a listener: \<open>listen\<close> is that call, on a state
  \<open>'w\<close> of the world that it may change, so two probes of one port may differ. The locale
  \<open>port_pool\<close> is the contract of a pool of ports: what is handed out is fresh and is held
  until it is released.
\<close>

definition maxPortScan :: int where
  "maxPortScan = 1000"

record Allocator =
  allocd :: "int set"

definition NewAllocator :: Allocator where
  "NewAllocator = \<lparr>allocd = {}\<rparr>"

datatype alloc_error =
    NoPortInRange int int
  | CountNotPositive int
  | NoConsecutivePorts int int

type_synonym 'w listen = "'w \<Rightarrow> int \<Rightarrow> bool \<times> 'w"

definition isAvailable :: "'w listen \<Rightarrow> 'w \<Rightarrow> int \<Rightarrow> bool \<times> 'w" where
  "isAvailable listen w port = listen w port"

text \<open>The loop of \<open>allocatePortLocked\<close> from \<open>offset\<close> on.\<close>

function allocate_loop ::
  "'w listen \<Rightarrow> int \<Rightarrow> int \<Rightarrow> Allocator \<Rightarrow> 'w \<Rightarrow> (alloc_error + int) \<times> Allocator \<times> 'w" where
  "allocate_loop listen preferredPort offset a w =
     (if offset < maxPortScan
      then (let candidate = add64 preferredPort offset
            in if 65535 < candidate
               then (Inl (NoPortInRange preferredPort (add64 preferredPort maxPortScan)), a, w)
               else if candidate \<in> allocd a
               then allocate_loop listen preferredPort (offset + 1) a w
               else (case isAvailable listen w candidate of
                       (False, w') \<Rightarrow> allocate_loop listen preferredPort (offset + 1) a w'
                     | (True, w') \<Rightarrow> (Inr candidate, a\<lparr>allocd := insert candidate (allocd a)\<rparr>, w')))
      else (Inl (NoPortInRange preferredPort (add64 preferredPort maxPortScan)), a, w))"
  by pat_completeness auto
termination
  by (relation "measure (\<lambda>(listen, preferredPort, offset, a, w). nat (maxPortScan - offset))") auto

declare allocate_loop.simps [simp del]

definition AllocatePort ::
  "'w listen \<Rightarrow> int \<Rightarrow> Allocator \<Rightarrow> 'w \<Rightarrow> (alloc_error + int) \<times> Allocator \<times> 'w" where
  "AllocatePort listen preferredPort a w = allocate_loop listen preferredPort 0 a w"

text \<open>The inner loop of \<open>AllocateN\<close>: are all ports from \<open>base + i\<close> to \<open>base + count - 1\<close> free?\<close>

function all_free :: "'w listen \<Rightarrow> int \<Rightarrow> int \<Rightarrow> int \<Rightarrow> Allocator \<Rightarrow> 'w \<Rightarrow> bool \<times> 'w" where
  "all_free listen base n i a w =
     (if i < n
      then (let p = add64 base i
            in if p \<in> allocd a then (False, w)
               else (case isAvailable listen w p of
                       (False, w') \<Rightarrow> (False, w')
                     | (True, w') \<Rightarrow> all_free listen base n (i + 1) a w'))
      else (True, w))"
  by pat_completeness auto
termination
  by (relation "measure (\<lambda>(listen, base, n, i, a, w). nat (n - i))") auto

declare all_free.simps [simp del]

definition port_range :: "int \<Rightarrow> int \<Rightarrow> int set" where
  "port_range base n = (\<lambda>i. add64 base i) ` {0..<n}"

function allocate_n_loop ::
  "'w listen \<Rightarrow> int \<Rightarrow> int \<Rightarrow> int \<Rightarrow> Allocator \<Rightarrow> 'w \<Rightarrow> (alloc_error + int) \<times> Allocator \<times> 'w" where
  "allocate_n_loop listen preferredPort n base a w =
     (if sub64 (add64 base n) 1 \<le> 65535 \<and> base < add64 preferredPort maxPortScan
      then (case all_free listen base n 0 a w of
              (False, w') \<Rightarrow> allocate_n_loop listen preferredPort n (add64 base 1) a w'
            | (True, w') \<Rightarrow>
                (Inr base, a\<lparr>allocd := allocd a \<union> port_range base n\<rparr>, w'))
      else (Inl (NoConsecutivePorts n preferredPort), a, w))"
  by pat_completeness auto
termination
proof (relation "measure (\<lambda>(listen, preferredPort, n, base, a, w).
    nat (add64 preferredPort maxPortScan - base))", goal_cases)
  case (2 listen preferredPort n base a w)
  have "add64 preferredPort maxPortScan < 2 ^ 63"
    using in_int64_add64 [of preferredPort maxPortScan] by (simp add: in_int64_def)
  with 2 have "base + 1 \<le> add64 base 1"
    unfolding add64_def by (intro wrap64_ge) auto
  with 2 show ?case by auto
qed simp

declare allocate_n_loop.simps [simp del]

definition AllocateN ::
  "'w listen \<Rightarrow> int \<Rightarrow> int \<Rightarrow> Allocator \<Rightarrow> 'w \<Rightarrow> (alloc_error + int) \<times> Allocator \<times> 'w" where
  "AllocateN listen preferredPort n a w =
     (if n \<le> 0 then (Inl (CountNotPositive n), a, w)
      else allocate_n_loop listen preferredPort n preferredPort a w)"

definition Release :: "int \<Rightarrow> Allocator \<Rightarrow> Allocator" where
  "Release port a = a\<lparr>allocd := allocd a - {port}\<rparr>"

definition ReleaseAll :: "Allocator \<Rightarrow> Allocator" where
  "ReleaseAll a = a\<lparr>allocd := {}\<rparr>"

text \<open>\<open>Allocated\<close> ranges over the map in an order of Go's choice, \<open>order\<close>.\<close>

definition Allocated :: "(int set \<Rightarrow> int list) \<Rightarrow> Allocator \<Rightarrow> int list" where
  "Allocated order a = order (allocd a)"

subsection \<open>Handing out a single port\<close>

text \<open>One turn of the loop: it gives up, takes the candidate, or goes on to the next one.\<close>

lemma allocate_loop_turn:
  obtains (stop) "allocate_loop listen p off a w = (Inl (NoPortInRange p (add64 p maxPortScan)), a, w)"
      and "maxPortScan \<le> off \<or> 65535 < add64 p off"
    | (take) w' where "allocate_loop listen p off a w =
          (Inr (add64 p off), a\<lparr>allocd := insert (add64 p off) (allocd a)\<rparr>, w')"
      and "off < maxPortScan" and "add64 p off \<le> 65535" and "add64 p off \<notin> allocd a"
      and "listen w (add64 p off) = (True, w')"
    | (skip) w' where "allocate_loop listen p off a w = allocate_loop listen p (off + 1) a w'"
      and "off < maxPortScan" and "add64 p off \<le> 65535"
      and "add64 p off \<in> allocd a \<and> w' = w \<or> listen w (add64 p off) = (False, w')"
proof (cases "off < maxPortScan \<and> add64 p off \<le> 65535")
  case False
  then show thesis by (intro stop) (auto simp: allocate_loop.simps [of listen p off] Let_def)
next
  case True
  show thesis
  proof (cases "add64 p off \<in> allocd a")
    case in_pool: True
    with True show thesis
      by (intro skip [of w]) (auto simp: allocate_loop.simps [of listen p off] Let_def)
  next
    case free: False
    obtain b w' where l: "listen w (add64 p off) = (b, w')" by fastforce
    with True free show thesis
      by (cases b; intro take [of w'] skip [of w'])
         (auto simp: allocate_loop.simps [of listen p off] isAvailable_def Let_def)
  qed
qed

lemma allocate_loop_induct [case_names stop take skip]:
  assumes "\<And>off w. \<lbrakk>maxPortScan \<le> off \<or> 65535 < add64 p off\<rbrakk>
      \<Longrightarrow> P off w (Inl (NoPortInRange p (add64 p maxPortScan)), a, w)"
    and "\<And>off w w'. \<lbrakk>off < maxPortScan; add64 p off \<le> 65535; add64 p off \<notin> allocd a;
      listen w (add64 p off) = (True, w')\<rbrakk>
      \<Longrightarrow> P off w (Inr (add64 p off), a\<lparr>allocd := insert (add64 p off) (allocd a)\<rparr>, w')"
    and "\<And>off w w' r. \<lbrakk>off < maxPortScan; add64 p off \<le> 65535;
      add64 p off \<in> allocd a \<and> w' = w \<or> listen w (add64 p off) = (False, w'); P (off + 1) w' r\<rbrakk>
      \<Longrightarrow> P off w r"
  shows "P off w (allocate_loop listen p off a w)"
proof (induction "nat (maxPortScan - off)" arbitrary: off w rule: less_induct)
  case (less off w)
  show ?case
  proof (cases rule: allocate_loop_turn [of listen p off a w])
    case stop
    with assms(1) show ?thesis by metis
  next
    case take
    with assms(2) show ?thesis by metis
  next
    case (skip w')
    then have "P (off + 1) w' (allocate_loop listen p (off + 1) a w')"
      by (intro less) simp
    with skip assms(3) show ?thesis by metis
  qed
qed

text \<open>What a call promises about its result, whatever the operating system answers.\<close>

definition port_result :: "int \<Rightarrow> int \<Rightarrow> Allocator \<Rightarrow> (alloc_error + int) \<times> Allocator \<times> 'w \<Rightarrow> bool" where
  "port_result p off a r \<longleftrightarrow>
     (case r of
        (Inl e, a', w') \<Rightarrow> a' = a
      | (Inr q, a', w') \<Rightarrow> q \<notin> allocd a \<and> allocd a' = insert q (allocd a) \<and> q \<le> 65535 \<and>
          q \<in> (\<lambda>i. add64 p i) ` {off..<maxPortScan})"

lemma allocate_loop_result: "port_result p off a (allocate_loop listen p off a w)"
proof (rule allocate_loop_induct [where P = "\<lambda>off w. port_result p off a"])
  fix off and w w' :: 'a and r
  assume "port_result p (off + 1) a r"
  then show "port_result p off a r"
    by (auto simp: port_result_def split: sum.splits)
qed (auto simp: port_result_def)

lemma AllocatePort_Inl: "AllocatePort listen p a w = (Inl e, a', w') \<Longrightarrow> a' = a"
  using allocate_loop_result [of p 0 a listen w] by (simp add: AllocatePort_def port_result_def)

lemma AllocatePort_Inr:
  assumes "AllocatePort listen p a w = (Inr q, a', w')"
  shows "q \<notin> allocd a" and "allocd a' = insert q (allocd a)" and "q \<le> 65535"
  using assms allocate_loop_result [of p 0 a listen w] by (simp_all add: AllocatePort_def port_result_def)

text \<open>
  When the operating system's answer for a port does not change during the call, the scan
  is a search for the first free port of the window.
\<close>

definition free_port :: "(int \<Rightarrow> bool) \<Rightarrow> Allocator \<Rightarrow> int \<Rightarrow> bool" where
  "free_port avail a q \<longleftrightarrow> q \<notin> allocd a \<and> avail q \<and> q \<le> 65535"

definition first_free :: "(int \<Rightarrow> bool) \<Rightarrow> Allocator \<Rightarrow> int \<Rightarrow> int \<Rightarrow> alloc_error + int \<Rightarrow> bool" where
  "first_free avail a from limit r \<longleftrightarrow>
     (case r of
        Inr q \<Rightarrow> q \<in> {from..<limit} \<and> free_port avail a q \<and> (\<forall>c. from \<le> c \<and> c < q \<longrightarrow> \<not> free_port avail a c)
      | Inl e \<Rightarrow> \<forall>c. from \<le> c \<and> c < limit \<longrightarrow> \<not> free_port avail a c)"

definition steady :: "(int \<Rightarrow> bool) \<Rightarrow> 'w listen" where
  "steady avail w port = (avail port, w)"

lemma first_free_next:
  "\<lbrakk>first_free avail a (i + 1) limit r; \<not> free_port avail a i\<rbrakk> \<Longrightarrow> first_free avail a i limit r"
proof -
  have "i \<le> c \<Longrightarrow> i = c \<or> i + 1 \<le> c" for c :: int by auto
  then show "\<lbrakk>first_free avail a (i + 1) limit r; \<not> free_port avail a i\<rbrakk> \<Longrightarrow> first_free avail a i limit r"
    unfolding first_free_def by (cases r) (fastforce, fastforce)
qed

lemma allocate_loop_first_free:
  assumes "in_int64 p" and "in_int64 (p + maxPortScan)" and "0 \<le> off"
  shows "first_free avail a (p + off) (p + maxPortScan)
     (fst (allocate_loop (steady avail) p off a w))"
proof -
  have add: "add64 p i = p + i" if "0 \<le> i" "i < maxPortScan" for i
    using assms(1,2) that by (intro add64_id) (auto simp: in_int64_def)
  have "0 \<le> off \<longrightarrow> first_free avail a (p + off) (p + maxPortScan)
     (fst (allocate_loop (steady avail) p off a w))"
  proof (rule allocate_loop_induct
      [where P = "\<lambda>off w r. 0 \<le> off \<longrightarrow> first_free avail a (p + off) (p + maxPortScan) (fst r)"])
    fix off and w :: 'a assume "maxPortScan \<le> off \<or> 65535 < add64 p off"
    then have "0 \<le> off \<Longrightarrow> maxPortScan \<le> off \<or> 65535 < p + off"
      using add [of off] by (cases "maxPortScan \<le> off") auto
    then show "0 \<le> off \<longrightarrow> first_free avail a (p + off) (p + maxPortScan)
        (fst (Inl (NoPortInRange p (add64 p maxPortScan)), a, w))"
      by (auto simp: first_free_def free_port_def)
  next
    fix off and w w' :: 'a and r :: "(alloc_error + int) \<times> Allocator \<times> 'a"
    assume "off < maxPortScan" and "add64 p off \<le> 65535"
      and "add64 p off \<in> allocd a \<and> w' = w \<or> steady avail w (add64 p off) = (False, w')"
      and IH: "0 \<le> off + 1 \<longrightarrow> first_free avail a (p + (off + 1)) (p + maxPortScan) (fst r)"
    then have "0 \<le> off \<Longrightarrow> \<not> free_port avail a (p + off)"
      using add [of off] by (auto simp: free_port_def steady_def)
    then show "0 \<le> off \<longrightarrow> first_free avail a (p + off) (p + maxPortScan) (fst r)"
      using IH first_free_next [of avail a "p + off"] by (simp add: add.assoc)
  qed (auto simp: first_free_def free_port_def steady_def add)
  with assms(3) show ?thesis by simp
qed

text \<open>\<open>AllocatePort\<close> returns the first port of the window from the preferred port on
  that is neither held nor in use and is at most 65535, and fails only when the window of
  1000 ports has none.\<close>

theorem AllocatePort_first_free:
  assumes "in_int64 p" and "in_int64 (p + maxPortScan)"
  shows "first_free avail a p (p + maxPortScan) (fst (AllocatePort (steady avail) p a w))"
  using allocate_loop_first_free [OF assms order_refl, of avail a w] by (simp add: AllocatePort_def)


lemma AllocatePort_first_free_witness:
  "first_free (\<lambda>q. q \<noteq> 5000) \<lparr>allocd = {4999}\<rparr> 4999 (4999 + maxPortScan)
     (fst (AllocatePort (steady (\<lambda>q. q \<noteq> 5000)) 4999 \<lparr>allocd = {4999}\<rparr> ()))
   \<and> free_port (\<lambda>q. q \<noteq> 5000) \<lparr>allocd = {4999}\<rparr> 5001"
  using AllocatePort_first_free [of 4999 "\<lambda>q. q \<noteq> 5000" "\<lparr>allocd = {4999}\<rparr>" "()"]
  by (simp add: maxPortScan_def in_int64_def free_port_def)

subsection \<open>Handing out a block of consecutive ports\<close>

lemma all_free_disjoint:
  "all_free listen base n i a w = (True, w') \<Longrightarrow> \<forall>j. i \<le> j \<and> j < n \<longrightarrow> add64 base j \<notin> allocd a"
proof (induction listen base n i a w rule: all_free.induct)
  case (1 listen base n i a w)
  show ?case
  proof (cases "i < n")
    case True
    with "1.prems" obtain v where "add64 base i \<notin> allocd a"
      and l: "isAvailable listen w (add64 base i) = (True, v)"
      and r: "all_free listen base n (i + 1) a v = (True, w')"
      by (auto simp: all_free.simps [of listen base n i] Let_def split: if_splits prod.splits bool.splits)
    with True "1.IH" [OF True refl _ l [symmetric] _ r]
    have "\<forall>j. i + 1 \<le> j \<and> j < n \<longrightarrow> add64 base j \<notin> allocd a" by simp
    with \<open>add64 base i \<notin> allocd a\<close> show ?thesis
      by (metis antisym_conv1 zless_imp_add1_zle)
  qed auto
qed

lemma all_free_steady:
  "all_free (steady avail) base n i a w =
     (\<forall>j \<in> {i..<n}. add64 base j \<notin> allocd a \<and> avail (add64 base j), w)"
proof (induction "nat (n - i)" arbitrary: i)
  case 0
  then show ?case by (simp add: all_free.simps [of _ base n i])
next
  case (Suc m)
  then have "{i..<n} = insert i {i + 1..<n}" and "i < n" by auto
  moreover have "all_free (steady avail) base n (i + 1) a w =
     (\<forall>j \<in> {i + 1..<n}. add64 base j \<notin> allocd a \<and> avail (add64 base j), w)"
    using Suc(2) by (intro Suc(1)) simp
  ultimately show ?case
    by (simp add: all_free.simps [of _ base n i] isAvailable_def steady_def Let_def split: bool.split)
qed

lemma allocate_n_loop_fresh:
  "allocate_n_loop listen p n base a w = (r, a', w') \<Longrightarrow>
     (case r of Inl e \<Rightarrow> a' = a
      | Inr b \<Rightarrow> port_range b n \<inter> allocd a = {} \<and> allocd a' = allocd a \<union> port_range b n)"
proof (induction listen p n base a w rule: allocate_n_loop.induct)
  case (1 listen p n base a w)
  let ?go = "sub64 (add64 base n) 1 \<le> 65535 \<and> base < add64 p maxPortScan"
  obtain free v where f: "all_free listen base n 0 a w = (free, v)" by fastforce
  consider (stop) "\<not> ?go" | (take) "?go" "free" | (skip) "?go" "\<not> free" by blast
  then show ?case
  proof cases
    case stop
    with "1.prems" show ?thesis
      by (auto simp: allocate_n_loop.simps [of listen p n base])
  next
    case take
    with f all_free_disjoint [of listen base n 0 a w v] have "port_range base n \<inter> allocd a = {}"
      by (auto simp: port_range_def)
    with take f "1.prems" show ?thesis
      by (auto simp: allocate_n_loop.simps [of listen p n base])
  next
    case skip
    with f "1.prems" have "allocate_n_loop listen p n (add64 base 1) a v = (r, a', w')"
      by (simp add: allocate_n_loop.simps [of listen p n base])
    from "1.IH" [OF skip(1) f [symmetric] _ this] skip(2) show ?thesis by simp
  qed
qed

text \<open>The block of \<open>n\<close> ports from \<open>b\<close> on, when the operating system's answers are steady.\<close>

definition free_block :: "(int \<Rightarrow> bool) \<Rightarrow> Allocator \<Rightarrow> int \<Rightarrow> int \<Rightarrow> bool" where
  "free_block avail a n b \<longleftrightarrow> (\<forall>q \<in> {b..<b + n}. free_port avail a q)"

definition first_block :: "(int \<Rightarrow> bool) \<Rightarrow> Allocator \<Rightarrow> int \<Rightarrow> int \<Rightarrow> int \<Rightarrow> alloc_error + int \<Rightarrow> bool" where
  "first_block avail a n from limit r \<longleftrightarrow>
     (case r of
        Inr b \<Rightarrow> b \<in> {from..<limit} \<and> free_block avail a n b \<and>
          (\<forall>c. from \<le> c \<and> c < b \<longrightarrow> \<not> free_block avail a n c)
      | Inl e \<Rightarrow> \<forall>c. from \<le> c \<and> c < limit \<longrightarrow> \<not> free_block avail a n c)"


lemma first_block_next:
  "\<lbrakk>first_block avail a n (i + 1) limit r; \<not> free_block avail a n i\<rbrakk> \<Longrightarrow> first_block avail a n i limit r"
proof -
  have "i \<le> c \<Longrightarrow> i = c \<or> i + 1 \<le> c" for c :: int by auto
  then show "\<lbrakk>first_block avail a n (i + 1) limit r; \<not> free_block avail a n i\<rbrakk>
      \<Longrightarrow> first_block avail a n i limit r"
    unfolding first_block_def by (cases r) (fastforce, fastforce)
qed

lemma no_block_past_end:
  "0 < n \<Longrightarrow> 65535 < b + n - 1 \<Longrightarrow> \<not> free_block avail a n b"
  unfolding free_block_def free_port_def by (auto intro!: bexI [of _ "b + n - 1"])

lemma allocate_n_loop_first_block:
  assumes "0 < n" and "in_int64 p" and "in_int64 (p + maxPortScan)" and "in_int64 (p + maxPortScan + n)"
    and "p \<le> base" and "base \<le> p + maxPortScan"
  shows "first_block avail a n base (p + maxPortScan)
     (fst (allocate_n_loop (steady avail) p n base a w))"
  using assms(5,6)
proof (induction "nat (p + maxPortScan - base)" arbitrary: base w rule: less_induct)
  case (less base w)
  have lim: "add64 p maxPortScan = p + maxPortScan"
    using assms(3) by (rule add64_id)
  have last: "sub64 (add64 base n) 1 = base + n - 1"
    using assms less.prems by (simp add: go_int in_int64_def)
  have add: "add64 base j = base + j" if "0 \<le> j" "j < n" for j
    using assms less.prems that by (intro add64_id) (auto simp: in_int64_def)
  have next_base: "add64 base 1 = base + 1" using add [of 0] assms less.prems
    by (intro add64_id) (auto simp: in_int64_def)
  note unfold = allocate_n_loop.simps [of "steady avail" p n base]
  consider (edge) "65535 < base + n - 1" | (scanned) "base = p + maxPortScan"
    | (turn) "base + n - 1 \<le> 65535" "base < p + maxPortScan"
    using less.prems by linarith
  then show ?case
  proof cases
    case edge
    have "\<not> free_block avail a n c" if "base \<le> c" for c
      using that edge by (intro no_block_past_end assms(1)) linarith
    then show ?thesis using edge by (simp add: unfold last first_block_def)
  next
    case scanned
    then have "\<not> base < add64 p maxPortScan" by (simp add: lim)
    then show ?thesis using scanned by (subst unfold) (auto simp: first_block_def)
  next
    case turn
    have block: "free_block avail a n base \<longleftrightarrow>
        (\<forall>j \<in> {0..<n}. add64 base j \<notin> allocd a \<and> avail (add64 base j))"
    proof -
      have "{base..<base + n} = (\<lambda>j. add64 base j) ` {0..<n}"
        using add by (force simp: image_iff intro: bexI [of _ "q - base" for q])
      moreover have "add64 base j \<le> 65535" if "j \<in> {0..<n}" for j
        using that turn add [of j] by auto
      ultimately show ?thesis by (auto simp: free_block_def free_port_def)
    qed
    show ?thesis
    proof (cases "free_block avail a n base")
      case True
      with turn block less.prems show ?thesis
        by (auto simp: unfold last lim all_free_steady first_block_def)
    next
      case False
      with turn block have "allocate_n_loop (steady avail) p n base a w =
          allocate_n_loop (steady avail) p n (base + 1) a w"
        by (auto simp: unfold last lim all_free_steady next_base split: bool.split)
      moreover have "first_block avail a n (base + 1) (p + maxPortScan)
          (fst (allocate_n_loop (steady avail) p n (base + 1) a w))"
        using turn less.prems by (intro less.hyps) auto
      ultimately show ?thesis using False by (simp add: first_block_next)
    qed
  qed
qed

text \<open>\<open>AllocateN\<close> returns the first base of the window of 1000 whose \<open>count\<close> consecutive
  ports are all free and at most 65535, and fails only when no base of the window starts such
  a block.\<close>

theorem AllocateN_first_block:
  assumes "0 < n" and "in_int64 p" and "in_int64 (p + maxPortScan)" and "in_int64 (p + maxPortScan + n)"
  shows "first_block avail a n p (p + maxPortScan) (fst (AllocateN (steady avail) p n a w))"
  using allocate_n_loop_first_block [OF assms order_refl, of avail a w] assms(1)
  by (simp add: AllocateN_def maxPortScan_def)

lemma AllocateN_first_block_witness:
  "first_block (\<lambda>q. q \<noteq> 5003) \<lparr>allocd = {5000}\<rparr> 3 4999 (4999 + maxPortScan)
     (fst (AllocateN (steady (\<lambda>q. q \<noteq> 5003)) 4999 3 \<lparr>allocd = {5000}\<rparr> ()))
   \<and> fst (AllocateN (steady (\<lambda>q. q \<noteq> 5003)) 4999 3 \<lparr>allocd = {5000}\<rparr> ()) \<noteq> Inr 5001"
proof -
  have t: "first_block (\<lambda>q. q \<noteq> 5003) \<lparr>allocd = {5000}\<rparr> 3 4999 (4999 + maxPortScan)
     (fst (AllocateN (steady (\<lambda>q. q \<noteq> 5003)) 4999 3 \<lparr>allocd = {5000}\<rparr> ()))"
    by (rule AllocateN_first_block) (simp_all add: maxPortScan_def in_int64_def)
  moreover have "\<not> free_block (\<lambda>q. q \<noteq> 5003) \<lparr>allocd = {5000}\<rparr> 3 5001"
    by (auto simp: free_block_def free_port_def intro: bexI [of _ 5003])
  ultimately show ?thesis by (auto simp: first_block_def)
qed

subsection \<open>The pool as an interface\<close>

text \<open>
  What a client sees of a pool is a sequence of events: sets of ports granted and freed.
  \<open>ledger\<close> replays them and fails if a port is granted that is already held.
\<close>

datatype pool_event = Granted "int set" | Freed "int set"

fun ledger :: "pool_event list \<Rightarrow> int set \<Rightarrow> int set option" where
  "ledger [] H = Some H"
| "ledger (Granted G # es) H = (if G \<inter> H = {} then ledger es (H \<union> G) else None)"
| "ledger (Freed F # es) H = ledger es (H - F)"

fun serve :: "('r \<Rightarrow> 's \<Rightarrow> pool_event \<times> 's) \<Rightarrow> 'r list \<Rightarrow> 's \<Rightarrow> pool_event list \<times> 's" where
  "serve step [] s = ([], s)"
| "serve step (r # rs) s =
     (case step r s of (e, s') \<Rightarrow> (case serve step rs s' of (es, t) \<Rightarrow> (e # es, t)))"

locale port_pool =
  fixes held :: "'s \<Rightarrow> int set"
    and step :: "'r \<Rightarrow> 's \<Rightarrow> pool_event \<times> 's"
  assumes grant: "step r s = (Granted G, s') \<Longrightarrow> G \<inter> held s = {} \<and> held s' = held s \<union> G"
    and free: "step r s = (Freed F, s') \<Longrightarrow> held s' = held s - F"
begin

lemma ledger_serve: "serve step rs s = (es, t) \<Longrightarrow> ledger es (held s) = Some (held t)"
proof (induction rs arbitrary: s es)
  case (Cons r rs)
  obtain e s' where st: "step r s = (e, s')" by fastforce
  with Cons.prems obtain es' where "serve step rs s' = (es', t)" and "es = e # es'"
    by (auto split: prod.splits)
  with Cons.IH [of s'] st grant [of r s] free [of r s] show ?case
    by (cases e) simp_all
qed simp

end

text \<open>The allocator's operations as requests; a failed allocation grants nothing.\<close>

datatype port_request = Get int | GetN int int | Give int | GiveAll

fun allocator_step ::
  "'w listen \<Rightarrow> port_request \<Rightarrow> Allocator \<times> 'w \<Rightarrow> pool_event \<times> Allocator \<times> 'w" where
  "allocator_step listen (Get p) (a, w) =
     (case AllocatePort listen p a w of
        (Inl e, s) \<Rightarrow> (Granted {}, s) | (Inr q, s) \<Rightarrow> (Granted {q}, s))"
| "allocator_step listen (GetN p n) (a, w) =
     (case AllocateN listen p n a w of
        (Inl e, s) \<Rightarrow> (Granted {}, s) | (Inr b, s) \<Rightarrow> (Granted (port_range b n), s))"
| "allocator_step listen (Give p) (a, w) = (Freed {p}, Release p a, w)"
| "allocator_step listen GiveAll (a, w) = (Freed (allocd a), ReleaseAll a, w)"

lemma AllocateN_fresh:
  "AllocateN listen p n a w = (r, a', w') \<Longrightarrow>
     (case r of Inl e \<Rightarrow> a' = a
      | Inr b \<Rightarrow> port_range b n \<inter> allocd a = {} \<and> allocd a' = allocd a \<union> port_range b n)"
  by (auto simp: AllocateN_def dest: allocate_n_loop_fresh split: if_splits)

interpretation pool: port_pool "\<lambda>(a, w). allocd a" "allocator_step listen" for listen
proof
  fix r and s s' :: "Allocator \<times> 'a" and G
  obtain a w a' w' where s: "s = (a, w)" "s' = (a', w')" by (metis surj_pair)
  assume "allocator_step listen r s = (Granted G, s')"
  then have "G \<inter> allocd a = {} \<and> allocd a' = allocd a \<union> G"
    unfolding s
    by (cases r)
       (auto split: prod.splits sum.splits dest: AllocatePort_Inl AllocatePort_Inr dest!: AllocateN_fresh)
  then show "G \<inter> (\<lambda>(a, w). allocd a) s = {} \<and> (\<lambda>(a, w). allocd a) s' = (\<lambda>(a, w). allocd a) s \<union> G"
    by (simp add: s)
next
  fix r and s s' :: "Allocator \<times> 'a" and F
  assume "allocator_step listen r s = (Freed F, s')"
  then show "(\<lambda>(a, w). allocd a) s' = (\<lambda>(a, w). allocd a) s - F"
    by (cases "(listen, r, s)" rule: allocator_step.cases)
       (auto simp: Release_def ReleaseAll_def split: prod.splits sum.splits)
qed

text \<open>C19. Whatever the operating system answers, no sequence of allocations and releases ever
  hands out a port that is still held: replaying the grants and releases from an empty pool
  meets no port twice and ends with exactly the ports the allocator records as held.\<close>

theorem allocator_never_grants_held:
  "case serve (allocator_step listen) rs (NewAllocator, w) of
     (es, a, w') \<Rightarrow> ledger es {} = Some (allocd a)"
proof -
  obtain es a w' where run: "serve (allocator_step listen) rs (NewAllocator, w) = (es, a, w')"
    by (metis prod_cases3)
  from pool.ledger_serve [OF run] have "ledger es {} = Some (allocd a)"
    by (simp add: NewAllocator_def)
  with run show ?thesis by simp
qed

end
