(* ===== verification/Country_Metrics.thy ===== *)
theory Country_Metrics
  imports Go_Prelude "HOL-Library.Char_ord" "HOL-Library.List_Lexorder"
begin

section \<open>The list of relay countries and its cache (internal/country/metrics.go)\<close>

text \<open>
  \<open>FetchCountries\<close> serves a fresh cache file, else asks the Onionoo service, else serves a
  stale cache. The file system is the map of file contents with the errors its calls give;
  the HTTP client, the JSON codec and the clock are parameters, as is the order in which Go
  walks a map. Strings are ordered by their bytes, as \<open>sort.Strings\<close> does.
\<close>

record cacheEntry =
  FetchedAt :: int
  cached_Countries :: "string list"

record MetricsFetcher =
  cacheTTL :: int
  cacheDir :: string
  metricsURL :: string

definition hour :: int where
  "hour = 3600 * 1000000000"

definition defaultCacheTTL :: int where
  "defaultCacheTTL = 12 * hour"

definition defaultMetricsURL :: string where
  "defaultMetricsURL =
     ''https://onionoo.torproject.org/details?type=relay&running=true&fields=country,relay_flags''"

definition NewMetricsFetcher :: "string \<Rightarrow> MetricsFetcher" where
  "NewMetricsFetcher dir = \<lparr>cacheTTL = defaultCacheTTL, cacheDir = dir, metricsURL = defaultMetricsURL\<rparr>"

definition SetMetricsURL :: "string \<Rightarrow> MetricsFetcher \<Rightarrow> MetricsFetcher" where
  "SetMetricsURL url mf = mf\<lparr>metricsURL := url\<rparr>"

record onionooRelay =
  relay_Country :: string
  RelayFlags :: "string list"

record onionooResponse =
  Relays :: "onionooRelay list"

datatype fetch_error =
    CreatingRequest string
  | RequestFailed string
  | UnexpectedStatus int
  | DecodingResponse string
  | ReadCache os_error
  | CacheUnmarshal string
  | CacheMkdir os_error
  | CacheMarshal string
  | CacheWrite os_error
  | FetchFailedNoCache fetch_error
  | EmptyNoCache

text \<open>
  The environment of one call: making and doing the request (a status and what the decoder
  makes of the body), the codec of the cache file, and the errors of the file system.
\<close>

record metrics_env =
  NewRequest :: "string \<Rightarrow> string option"
  Do :: "string \<Rightarrow> string + int \<times> (string + onionooResponse)"
  Marshal :: "cacheEntry \<Rightarrow> string + string"
  Unmarshal :: "string \<Rightarrow> string + cacheEntry"
  read_err :: "string \<Rightarrow> os_error option"
  mkdir_err :: "string \<Rightarrow> os_error option"
  write_err :: "string \<Rightarrow> os_error option"
  map_order :: "string set \<Rightarrow> string list"

type_synonym files = "string \<rightharpoonup> string"

subsection \<open>Asking the service\<close>

fun has_relay :: "string list \<Rightarrow> bool" where
  "has_relay [] = False"
| "has_relay (flag # flags) = (if flag = ''Guard'' \<or> flag = ''Exit'' then True else has_relay flags)"

fun seen_countries :: "onionooRelay list \<Rightarrow> string set \<Rightarrow> string set" where
  "seen_countries [] seen = seen"
| "seen_countries (r # rs) seen =
     (if relay_Country r = [] then seen_countries rs seen
      else if \<not> has_relay (RelayFlags r) then seen_countries rs seen
      else seen_countries rs (insert (toUpper (relay_Country r)) seen))"

definition fetchFromAPI :: "metrics_env \<Rightarrow> MetricsFetcher \<Rightarrow> fetch_error + string list" where
  "fetchFromAPI env mf =
     (case NewRequest env (metricsURL mf) of
        Some err \<Rightarrow> Inl (CreatingRequest err)
      | None \<Rightarrow>
          (case Do env (metricsURL mf) of
             Inl err \<Rightarrow> Inl (RequestFailed err)
           | Inr (status, body) \<Rightarrow>
               (if status \<noteq> 200 then Inl (UnexpectedStatus status)
                else (case body of
                        Inl err \<Rightarrow> Inl (DecodingResponse err)
                      | Inr resp \<Rightarrow>
                          Inr (sort (map_order env (seen_countries (Relays resp) {})))))))"

subsection \<open>The cache file\<close>

definition cachePath :: "MetricsFetcher \<Rightarrow> string" where
  "cachePath mf = cacheDir mf @ ''/country_cache.json''"

definition readCache :: "metrics_env \<Rightarrow> MetricsFetcher \<Rightarrow> files \<Rightarrow> fetch_error + cacheEntry option" where
  "readCache env mf fs =
     (case read_err env (cachePath mf) of
        Some err \<Rightarrow> (if err = ErrNotExist then Inr None else Inl (ReadCache err))
      | None \<Rightarrow>
          (case fs (cachePath mf) of
             None \<Rightarrow> Inr None
           | Some data \<Rightarrow>
               (case Unmarshal env data of
                  Inl err \<Rightarrow> Inl (CacheUnmarshal err)
                | Inr entry \<Rightarrow> Inr (Some entry))))"

definition writeCache ::
  "metrics_env \<Rightarrow> MetricsFetcher \<Rightarrow> int \<Rightarrow> string list \<Rightarrow> files \<Rightarrow> fetch_error option \<times> files" where
  "writeCache env mf now countries fs =
     (case mkdir_err env (cacheDir mf) of
        Some err \<Rightarrow> (Some (CacheMkdir err), fs)
      | None \<Rightarrow>
          (case Marshal env \<lparr>FetchedAt = now, cached_Countries = countries\<rparr> of
             Inl err \<Rightarrow> (Some (CacheMarshal err), fs)
           | Inr data \<Rightarrow>
               (case write_err env (cachePath mf) of
                  Some err \<Rightarrow> (Some (CacheWrite err), fs)
                | None \<Rightarrow> (None, fs(cachePath mf \<mapsto> data)))))"

text \<open>
  \<open>FetchCountries\<close>, called at time \<open>now\<close>. On an error \<open>readCache\<close> returns a nil entry, so the
  cache counts as absent.
\<close>

definition FetchCountries ::
  "metrics_env \<Rightarrow> MetricsFetcher \<Rightarrow> int \<Rightarrow> files \<Rightarrow> (fetch_error + string list) \<times> files" where
  "FetchCountries env mf now fs =
     (let cached = (case readCache env mf fs of Inl err \<Rightarrow> None | Inr entry \<Rightarrow> entry);
          fresh = (case cached of None \<Rightarrow> False | Some e \<Rightarrow> now - FetchedAt e < cacheTTL mf)
      in if fresh then (Inr (cached_Countries (the cached)), fs)
         else (case fetchFromAPI env mf of
                 Inl fetchErr \<Rightarrow>
                   (case cached of
                      Some e \<Rightarrow> (Inr (cached_Countries e), fs)
                    | None \<Rightarrow> (Inl (FetchFailedNoCache fetchErr), fs))
               | Inr countries \<Rightarrow>
                   (if length countries = 0
                    then (case cached of
                            Some e \<Rightarrow> (Inr (cached_Countries e), fs)
                          | None \<Rightarrow> (Inl EmptyNoCache, fs))
                    else (case writeCache env mf now countries fs of
                            (err, fs') \<Rightarrow> (Inr countries, fs')))))"

subsection \<open>What the calls promise\<close>

text \<open>The country codes that count: upper case, of relays that are a guard or an exit.\<close>

definition usable_codes :: "onionooRelay list \<Rightarrow> string set" where
  "usable_codes rs =
     {toUpper (relay_Country r) | r. r \<in> set rs \<and> relay_Country r \<noteq> [] \<and>
        (''Guard'' \<in> set (RelayFlags r) \<or> ''Exit'' \<in> set (RelayFlags r))}"

lemma has_relay_iff: "has_relay flags \<longleftrightarrow> ''Guard'' \<in> set flags \<or> ''Exit'' \<in> set flags"
  by (induction flags) auto

lemma seen_countries_set: "seen_countries rs seen = seen \<union> usable_codes rs"
proof (induction rs arbitrary: seen)
  case (Cons r rs)
  have "usable_codes (r # rs) = usable_codes rs \<union>
      (if relay_Country r \<noteq> [] \<and> has_relay (RelayFlags r) then {toUpper (relay_Country r)} else {})"
    by (auto simp: usable_codes_def has_relay_iff)
  with Cons.IH show ?case by auto
qed (simp add: usable_codes_def)

lemma finite_usable_codes: "finite (usable_codes rs)"
proof -
  have "usable_codes rs \<subseteq> (\<lambda>r. toUpper (relay_Country r)) ` set rs"
    by (auto simp: usable_codes_def)
  then show ?thesis by (rule finite_subset) simp
qed

text \<open>Walking a map visits every key once.\<close>

definition walks_keys :: "(string set \<Rightarrow> string list) \<Rightarrow> bool" where
  "walks_keys order \<longleftrightarrow> (\<forall>S. finite S \<longrightarrow> set (order S) = S \<and> distinct (order S))"

lemma sort_walk:
  "\<lbrakk>walks_keys order; finite S\<rbrakk> \<Longrightarrow> sort (order S) = sorted_list_of_set S"
  by (metis sorted_list_of_set.idem_if_sorted_distinct distinct_sort set_sort sorted_sort walks_keys_def)

text \<open>What the service's answer is turned into does not depend on the order in which a map
  is walked: it is the sorted list, without repetitions, of the upper-case codes of the
  countries with a guard or an exit relay.\<close>

theorem fetchFromAPI_sorted_codes:
  assumes "walks_keys (map_order env)"
    and "NewRequest env (metricsURL mf) = None"
    and "Do env (metricsURL mf) = Inr (200, Inr resp)"
  shows "fetchFromAPI env mf = Inr (sorted_list_of_set (usable_codes (Relays resp)))"
  using assms by (simp add: fetchFromAPI_def seen_countries_set sort_walk finite_usable_codes)

lemma sort_order_walks: "walks_keys sorted_list_of_set"
  by (simp add: walks_keys_def)

definition demo_metrics_env :: metrics_env where
  "demo_metrics_env =
     \<lparr>NewRequest = (\<lambda>url. None),
      Do = (\<lambda>url. Inr (200, Inr \<lparr>Relays =
        [\<lparr>relay_Country = ''se'', RelayFlags = [''Running'', ''Exit'']\<rparr>,
         \<lparr>relay_Country = ''fr'', RelayFlags = [''Running'']\<rparr>,
         \<lparr>relay_Country = ''de'', RelayFlags = [''Guard'']\<rparr>]\<rparr>)),
      Marshal = (\<lambda>e. Inr (itoa (FetchedAt e) @ join_with '','' ([] # cached_Countries e))),
      Unmarshal = (\<lambda>data. Inr \<lparr>FetchedAt = fst (strconv_Atoi (hd (split_on (CHR '','') data))),
        cached_Countries = tl (split_on (CHR '','') data)\<rparr>),
      read_err = (\<lambda>p. None), mkdir_err = (\<lambda>p. None), write_err = (\<lambda>p. None),
      map_order = sorted_list_of_set\<rparr>"

lemma fetchFromAPI_sorted_codes_witness:
  "fetchFromAPI demo_metrics_env (NewMetricsFetcher ''/tmp'') = Inr [''DE'', ''SE'']"
proof -
  let ?rs = "[\<lparr>relay_Country = ''se'', RelayFlags = [''Running'', ''Exit'']\<rparr>,
         \<lparr>relay_Country = ''fr'', RelayFlags = [''Running'']\<rparr>,
         \<lparr>relay_Country = ''de'', RelayFlags = [''Guard'']\<rparr>]"
  have "usable_codes ?rs = seen_countries ?rs {}"
    by (simp add: seen_countries_set)
  also have "\<dots> = {''DE'', ''SE''}"
    by (simp add: go_eval)
  finally have codes: "usable_codes ?rs = {''DE'', ''SE''}" .
  have "fetchFromAPI demo_metrics_env (NewMetricsFetcher ''/tmp'') =
      Inr (sorted_list_of_set (usable_codes (Relays \<lparr>Relays = ?rs\<rparr>)))"
    by (rule fetchFromAPI_sorted_codes) (simp_all add: demo_metrics_env_def sort_order_walks)
  also have "\<dots> = Inr [''DE'', ''SE'']"
    by (simp add: codes less_char_def)
  finally show ?thesis .
qed

text \<open>
  A cache that can be read shields the caller: the call cannot fail, and a fresh one is
  returned whatever the service would say.
\<close>

lemma FetchCountries_cached:
  assumes "readCache env mf fs = Inr (Some e)"
  shows "\<exists>cs fs'. FetchCountries env mf now fs = (Inr cs, fs') \<and>
    (now - FetchedAt e < cacheTTL mf \<longrightarrow> cs = cached_Countries e \<and> fs' = fs) \<and>
    (cs = cached_Countries e \<or> fetchFromAPI env mf = Inr cs \<and> cs \<noteq> [])"
  using assms by (auto simp: FetchCountries_def Let_def split: sum.split prod.split)

text \<open>The codec of the cache file reads back what it wrote.\<close>

definition codec_ok :: "metrics_env \<Rightarrow> cacheEntry \<Rightarrow> bool" where
  "codec_ok env e \<longleftrightarrow> (\<exists>data. Marshal env e = Inr data \<and> Unmarshal env data = Inr e)"

text \<open>A list fetched from the service and written is what every later call within the
  cache's life returns, whatever the service answers then.\<close>

theorem FetchCountries_cache_roundtrip:
  assumes "fetchFromAPI env mf = Inr cs" and "cs \<noteq> []"
    and "codec_ok env \<lparr>FetchedAt = now, cached_Countries = cs\<rparr>"
    and "read_err env (cachePath mf) = None" and "mkdir_err env (cacheDir mf) = None"
    and "write_err env (cachePath mf) = None" and "fs (cachePath mf) = None"
    and "later - now < cacheTTL mf"
  shows "fst (FetchCountries env mf now fs) = Inr cs \<and>
    FetchCountries (env\<lparr>Do := outage\<rparr>) mf later (snd (FetchCountries env mf now fs)) =
      (Inr cs, snd (FetchCountries env mf now fs))"
proof -
  obtain data where data: "Marshal env \<lparr>FetchedAt = now, cached_Countries = cs\<rparr> = Inr data"
      "Unmarshal env data = Inr \<lparr>FetchedAt = now, cached_Countries = cs\<rparr>"
    using assms(3) by (auto simp: codec_ok_def)
  have first: "FetchCountries env mf now fs = (Inr cs, fs(cachePath mf \<mapsto> data))"
    using assms data by (simp add: FetchCountries_def readCache_def writeCache_def)
  have "readCache (env\<lparr>Do := outage\<rparr>) mf (fs(cachePath mf \<mapsto> data)) =
      Inr (Some \<lparr>FetchedAt = now, cached_Countries = cs\<rparr>)"
    using assms data by (simp add: readCache_def)
  from FetchCountries_cached [OF this, of later] assms(8) first show ?thesis by auto
qed

lemma demo_codec:
  "codec_ok demo_metrics_env \<lparr>FetchedAt = 5, cached_Countries = [''DE'', ''SE'']\<rparr>"
  by (simp add: codec_ok_def demo_metrics_env_def itoa_def decimal.simps digit_char_def
      strconv_Atoi_def parse_uint_def is_digit_def digit_val_def clamp_int_def go_eval)

lemma FetchCountries_cache_roundtrip_witness:
  "fetchFromAPI demo_metrics_env (NewMetricsFetcher ''/tmp'') = Inr [''DE'', ''SE''] \<and>
   fst (FetchCountries (demo_metrics_env\<lparr>Do := \<lambda>url. Inl ''no route''\<rparr>) (NewMetricsFetcher ''/tmp'')
     (5 + hour) (snd (FetchCountries demo_metrics_env (NewMetricsFetcher ''/tmp'') 5 Map.empty)))
   = Inr [''DE'', ''SE'']"
proof -
  have api: "fetchFromAPI demo_metrics_env (NewMetricsFetcher ''/tmp'') = Inr [''DE'', ''SE'']"
    by (simp add: fetchFromAPI_def demo_metrics_env_def NewMetricsFetcher_def go_eval less_char_def)
  with FetchCountries_cache_roundtrip [OF api _ demo_codec, of Map.empty "5 + hour" "\<lambda>url. Inl ''no route''"]
  show ?thesis
    by (simp add: demo_metrics_env_def NewMetricsFetcher_def defaultCacheTTL_def hour_def)
qed

end
