(* ===== verification/Tor_Version.thy ===== *)
theory Tor_Version
  imports Go_Prelude "HOL-Library.Product_Lexorder"
begin

section \<open>Tor and OpenSSL versions (internal/tor/version.go)\<close>

text \<open>
  Versions with their order, the parser of the output of \<open>tor --version\<close> with its two regular
  expressions, and the table of features. A regular expression here is a concatenation of
  literals and runs of digits or blanks, in which no run can give back a character the rest
  could use, so the leftmost match is found by trying each position with a deterministic
  matcher.
\<close>

datatype Version = Version (Major: int) (Minor: int) (Patch: int) (Release: int)

definition version_key :: "Version \<Rightarrow> int \<times> int \<times> int \<times> int" where
  "version_key v = (Major v, Minor v, Patch v, Release v)"

lemma version_key_inject: "version_key v = version_key w \<Longrightarrow> v = w"
  by (cases v; cases w) (simp add: version_key_def)

text \<open>Versions are ordered by their components from the left.\<close>

instantiation Version :: linorder
begin

definition less_eq_Version :: "Version \<Rightarrow> Version \<Rightarrow> bool" where
  "less_eq_Version v w \<longleftrightarrow> version_key v \<le> version_key w"

definition less_Version :: "Version \<Rightarrow> Version \<Rightarrow> bool" where
  "less_Version v w \<longleftrightarrow> version_key v < version_key w"

instance
  by standard
    (auto simp: less_eq_Version_def less_Version_def not_le[symmetric] intro: version_key_inject)

end

fun atLeast :: "Version \<Rightarrow> int \<Rightarrow> int \<Rightarrow> int \<Rightarrow> int \<Rightarrow> bool" where
  "atLeast v major minor patch release =
     (if Major v \<noteq> major then Major v > major
      else if Minor v \<noteq> minor then Minor v > minor
      else if Patch v \<noteq> patch then Patch v > patch
      else Release v \<ge> release)"

declare atLeast.simps [simp del]

definition SupportsConflux :: "Version \<Rightarrow> bool" where
  "SupportsConflux v = atLeast v 0 4 8 0"

definition SupportsHTTPTunnel :: "Version \<Rightarrow> bool" where
  "SupportsHTTPTunnel v = atLeast v 0 4 8 0"

definition SupportsCongestionControl :: "Version \<Rightarrow> bool" where
  "SupportsCongestionControl v = atLeast v 0 4 7 0"

definition SupportsCGO :: "Version \<Rightarrow> bool" where
  "SupportsCGO v = atLeast v 0 4 9 0"

definition SupportsTLS13 :: "Version \<Rightarrow> bool" where
  "SupportsTLS13 v = atLeast v 0 4 9 0"

definition SupportsSandbox :: "Version \<Rightarrow> bool" where
  "SupportsSandbox v = atLeast v 0 4 7 0"

definition SupportsHappyFamilies :: "Version \<Rightarrow> bool" where
  "SupportsHappyFamilies v = atLeast v 0 4 9 0"

definition SupportsPostQuantum :: "Version \<Rightarrow> bool" where
  "SupportsPostQuantum v = atLeast v 0 4 8 17"

lemmas supports_defs = SupportsConflux_def SupportsHTTPTunnel_def SupportsCongestionControl_def
  SupportsCGO_def SupportsTLS13_def SupportsSandbox_def SupportsHappyFamilies_def
  SupportsPostQuantum_def

definition Version_String :: "Version \<Rightarrow> string" where
  "Version_String v = itoa (Major v) @ ''.'' @ itoa (Minor v) @ ''.'' @ itoa (Patch v) @ ''.'' @ itoa (Release v)"

subsection \<open>Matching\<close>

definition match_lit :: "string \<Rightarrow> string \<Rightarrow> string option" where
  "match_lit p s = (if hasPrefix s p then Some (drop (length p) s) else None)"

text \<open>A non-empty run of characters, as long as possible.\<close>

definition match_run :: "(char \<Rightarrow> bool) \<Rightarrow> string \<Rightarrow> (string \<times> string) option" where
  "match_run P s = (if takeWhile P s = [] then None else Some (takeWhile P s, dropWhile P s))"

text \<open>\<open>\s\<close> of the regular expressions: tab, newline, form feed, return, blank.\<close>

definition regex_space :: "char \<Rightarrow> bool" where
  "regex_space c \<longleftrightarrow> (of_char c :: nat) \<in> {9, 10, 12, 13, 32}"

text \<open>\<open>Tor version (\d+)\.(\d+)\.(\d+)(?:\.(\d+))?\<close> at the start of \<open>s\<close>: the groups.\<close>

definition versionRegex :: "string \<Rightarrow> string list option" where
  "versionRegex s =
     Option.bind (match_lit ''Tor version '' s) (\<lambda>s1.
     Option.bind (match_run is_digit s1) (\<lambda>(a, s2).
     Option.bind (match_lit ''.'' s2) (\<lambda>s3.
     Option.bind (match_run is_digit s3) (\<lambda>(b, s4).
     Option.bind (match_lit ''.'' s4) (\<lambda>s5.
     Option.bind (match_run is_digit s5) (\<lambda>(c, s6).
     Some [a, b, c,
       (case Option.bind (match_lit ''.'' s6) (match_run is_digit) of
          None \<Rightarrow> [] | Some (d, s7) \<Rightarrow> d)]))))))"

text \<open>\<open>OpenSSL\s+(\d+)\.(\d+)\.(\d+)\<close> at the start of \<open>s\<close>: the whole match and the groups.\<close>

definition openSSLRegex :: "string \<Rightarrow> string list option" where
  "openSSLRegex s =
     Option.bind (match_lit ''OpenSSL'' s) (\<lambda>s1.
     Option.bind (match_run regex_space s1) (\<lambda>(sp, s2).
     Option.bind (match_run is_digit s2) (\<lambda>(a, s3).
     Option.bind (match_lit ''.'' s3) (\<lambda>s4.
     Option.bind (match_run is_digit s4) (\<lambda>(b, s5).
     Option.bind (match_lit ''.'' s5) (\<lambda>s6.
     Option.bind (match_run is_digit s6) (\<lambda>(c, s7).
     Some [''OpenSSL'' @ sp @ a @ ''.'' @ b @ ''.'' @ c, a, b, c])))))))"

text \<open>\<open>FindStringSubmatch\<close>: the leftmost match.\<close>

fun find_submatch :: "(string \<Rightarrow> string list option) \<Rightarrow> string \<Rightarrow> string list option" where
  "find_submatch m [] = m []"
| "find_submatch m (c # cs) = (case m (c # cs) of Some r \<Rightarrow> Some r | None \<Rightarrow> find_submatch m cs)"

subsection \<open>Parsing the output\<close>

datatype version_error =
    VersionCtx ctx_error
  | VersionOutput os_error
  | NoVersion string

text \<open>The body of the loop: \<open>None\<close> is \<open>continue\<close>.\<close>

definition parse_line :: "string \<Rightarrow> Version option" where
  "parse_line line =
     (case find_submatch versionRegex line of
        Some [m1, m2, m3, m4] \<Rightarrow>
          (case (strconv_Atoi m1, strconv_Atoi m2, strconv_Atoi m3) of
             ((major, None), (minor, None), (patch, None)) \<Rightarrow>
               Some (Version major minor patch
                 (if m4 \<noteq> [] then
                    (case strconv_Atoi m4 of (release, None) \<Rightarrow> release | (release, Some err) \<Rightarrow> 0)
                  else 0))
           | _ \<Rightarrow> None)
      | _ \<Rightarrow> None)"

fun parse_lines :: "string list \<Rightarrow> Version option" where
  "parse_lines [] = None"
| "parse_lines (line # lines) =
     (case parse_line line of Some v \<Rightarrow> Some v | None \<Rightarrow> parse_lines lines)"

definition parseVersionOutput :: "string \<Rightarrow> version_error + Version" where
  "parseVersionOutput output =
     (case parse_lines (split_on (CHR 0x0A) output) of
        Some v \<Rightarrow> Inr v | None \<Rightarrow> Inl (NoVersion output))"

definition DetectVersionFromOutput :: "string \<Rightarrow> version_error + Version" where
  "DetectVersionFromOutput output = parseVersionOutput output"

text \<open>
  \<open>DetectVersion\<close> waits for its context or for the goroutine that runs the binary:
  \<open>done_first\<close> is the context's error if the select takes that branch, and \<open>output\<close> is
  what the command gives.
\<close>

definition DetectVersion :: "ctx_error option \<Rightarrow> os_error + string \<Rightarrow> version_error + Version" where
  "DetectVersion done_first out =
     (case done_first of
        Some e \<Rightarrow> Inl (VersionCtx e)
      | None \<Rightarrow> (case out of Inl err \<Rightarrow> Inl (VersionOutput err) | Inr output \<Rightarrow> parseVersionOutput output))"

record TLSInfo =
  OpenSSLVersion :: string
  PostQuantumOK :: bool

fun isOpenSSLAtLeast :: "int \<Rightarrow> int \<Rightarrow> int \<Rightarrow> int \<Rightarrow> int \<Rightarrow> int \<Rightarrow> bool" where
  "isOpenSSLAtLeast major minor patch wantMajor wantMinor wantPatch =
     (if major \<noteq> wantMajor then major > wantMajor
      else if minor \<noteq> wantMinor then minor > wantMinor
      else patch \<ge> wantPatch)"

declare isOpenSSLAtLeast.simps [simp del]

definition parseTLSInfo :: "string \<Rightarrow> TLSInfo" where
  "parseTLSInfo output =
     (case find_submatch openSSLRegex output of
        Some [m0, m1, m2, m3] \<Rightarrow>
          \<lparr>OpenSSLVersion = m0,
           PostQuantumOK =
             (case (strconv_Atoi m1, strconv_Atoi m2, strconv_Atoi m3) of
                ((major, None), (minor, None), (patch, None)) \<Rightarrow>
                  isOpenSSLAtLeast major minor patch 3 5 0
              | _ \<Rightarrow> False)\<rparr>
      | _ \<Rightarrow> \<lparr>OpenSSLVersion = [], PostQuantumOK = False\<rparr>)"

definition DetectTLSInfo :: "ctx_error option \<Rightarrow> os_error + string \<Rightarrow> version_error + TLSInfo" where
  "DetectTLSInfo done_first out =
     (case done_first of
        Some e \<Rightarrow> Inl (VersionCtx e)
      | None \<Rightarrow> (case out of Inl err \<Rightarrow> Inl (VersionOutput err) | Inr output \<Rightarrow> Inr (parseTLSInfo output)))"

subsection \<open>Features follow the order of versions\<close>

lemma atLeast_iff: "atLeast v major minor patch release \<longleftrightarrow> Version major minor patch release \<le> v"
  by (auto simp: atLeast.simps less_eq_Version_def version_key_def)

lemma isOpenSSLAtLeast_iff:
  "isOpenSSLAtLeast major minor patch wantMajor wantMinor wantPatch \<longleftrightarrow>
     (wantMajor, wantMinor, wantPatch) \<le> (major, minor, patch)"
  by (auto simp: isOpenSSLAtLeast.simps)

definition features :: "(Version \<Rightarrow> bool) list" where
  "features = [SupportsConflux, SupportsHTTPTunnel, SupportsCongestionControl, SupportsCGO,
     SupportsTLS13, SupportsSandbox, SupportsHappyFamilies, SupportsPostQuantum]"

text \<open>Every feature that a version of Tor has is kept by all later versions, and the features
  come in the order congestion control and sandbox, conflux and the HTTP tunnel, post-quantum
  keys, CGO with TLS 1.3 and happy families: having one implies having those before it.\<close>

theorem features_monotone:
  assumes "v \<le> w"
  shows "(\<forall>F \<in> set features. F v \<longrightarrow> F w) \<and>
    SupportsSandbox v = SupportsCongestionControl v \<and>
    (SupportsConflux v \<longrightarrow> SupportsCongestionControl v) \<and>
    SupportsHTTPTunnel v = SupportsConflux v \<and>
    (SupportsPostQuantum v \<longrightarrow> SupportsConflux v) \<and>
    (SupportsCGO v \<longrightarrow> SupportsPostQuantum v) \<and>
    SupportsTLS13 v = SupportsCGO v \<and> SupportsHappyFamilies v = SupportsCGO v"
proof -
  have step: "atLeast v a b c d \<Longrightarrow> Version a' b' c' d' \<le> Version a b c d \<Longrightarrow> atLeast v a' b' c' d'"
    for a b c d a' b' c' d'
    by (auto simp: atLeast_iff intro: order_trans)
  have "Version 0 4 7 0 \<le> Version 0 4 8 0" and "Version 0 4 8 0 \<le> Version 0 4 8 17"
    and "Version 0 4 8 17 \<le> Version 0 4 9 0"
    by (simp_all add: less_eq_Version_def version_key_def)
  with step have "(SupportsConflux v \<longrightarrow> SupportsCongestionControl v) \<and>
    (SupportsPostQuantum v \<longrightarrow> SupportsConflux v) \<and> (SupportsCGO v \<longrightarrow> SupportsPostQuantum v)"
    unfolding supports_defs by blast
  moreover have "\<forall>F \<in> set features. F v \<longrightarrow> F w"
    using assms by (auto simp: features_def supports_defs atLeast_iff)
  ultimately show ?thesis by (simp add: supports_defs)
qed

lemma features_monotone_witness:
  "Version 0 4 8 17 \<le> Version 0 4 9 1 \<and> SupportsPostQuantum (Version 0 4 8 17) \<and>
   SupportsPostQuantum (Version 0 4 9 1) \<and> \<not> SupportsCGO (Version 0 4 8 17)"
proof -
  have le: "Version 0 4 8 17 \<le> Version 0 4 9 1"
    by (simp add: less_eq_Version_def version_key_def)
  have "SupportsPostQuantum (Version 0 4 8 17)" "\<not> SupportsCGO (Version 0 4 8 17)"
    by (simp_all add: supports_defs atLeast.simps)
  with features_monotone [OF le] le show ?thesis
    by (simp add: features_def)
qed

subsection \<open>Reading back a printed version\<close>

lemma match_lit_append [simp]: "match_lit p (p @ s) = Some s"
  by (simp add: match_lit_def)

lemma match_run_append:
  assumes "\<forall>c \<in> set a. P c" and "a \<noteq> []" and "s = [] \<or> \<not> P (hd s)"
  shows "match_run P (a @ s) = Some (a, s)"
proof -
  have "takeWhile P (a @ s) = a" and "dropWhile P (a @ s) = s"
    using assms by (cases s; simp add: takeWhile_append2 dropWhile_append2)+
  with assms show ?thesis by (simp add: match_run_def)
qed

lemma itoa_nonneg_digits: "0 \<le> i \<Longrightarrow> c \<in> set (itoa i) \<Longrightarrow> is_digit c"
  by (auto simp: itoa_def decimal_digits)

lemma match_run_itoa:
  "\<lbrakk>0 \<le> i; s = [] \<or> \<not> is_digit (hd s)\<rbrakk> \<Longrightarrow> match_run is_digit (itoa i @ s) = Some (itoa i, s)"
  by (rule match_run_append) (auto simp: itoa_nonneg_digits)

lemma versionRegex_printed:
  assumes "0 \<le> a" "0 \<le> b" "0 \<le> c" "0 \<le> d" and "s = [] \<or> \<not> is_digit (hd s)"
  shows "versionRegex (''Tor version '' @ Version_String (Version a b c d) @ s) =
    Some [itoa a, itoa b, itoa c, itoa d]"
proof -
  have dot: "match_lit ''.'' (CHR ''.'' # r) = Some r" for r
    by (simp add: match_lit_def hasPrefix_def)
  have run: "match_run is_digit (itoa i @ CHR ''.'' # r) = Some (itoa i, CHR ''.'' # r)" if "0 \<le> i" for i r
    using that by (simp add: match_run_itoa)
  have start: "match_lit ''Tor version '' (''Tor version '' @ r) = Some r" for r
    by (rule match_lit_append)
  show ?thesis
    unfolding versionRegex_def start Option.bind.simps
    using assms by (simp add: Version_String_def run dot match_run_itoa)
qed

lemma find_submatch_at_start: "m s = Some r \<Longrightarrow> find_submatch m s = Some r"
  by (cases s) auto

text \<open>C29. A version that the program prints, after the words that introduce it in the output
  of \<open>tor --version\<close>, is read back as the same version, whatever follows that is no digit.\<close>

theorem parse_printed_version:
  assumes "\<forall>i \<in> {Major v, Minor v, Patch v, Release v}. 0 \<le> i \<and> in_int64 i"
    and "rest = [] \<or> \<not> is_digit (hd rest)"
  shows "parseVersionOutput (''Tor version '' @ Version_String v @ rest) = Inr v"
proof -
  obtain a b c d where v: "v = Version a b c d" by (cases v)
  define line where "line = takeWhile (\<lambda>c. c \<noteq> CHR 0x0A) rest"
  have no_newline: "CHR 0x0A \<notin> set (itoa i)" for i
    using itoa_chars [of "CHR 0x0A" i] by auto
  have head: "CHR 0x0A \<notin> set (''Tor version '' @ Version_String v)"
    using no_newline by (simp add: Version_String_def)
  have "\<exists>ls. split_on (CHR 0x0A) rest = line # ls"
    unfolding line_def by (induction rest) (auto split: list.splits)
  moreover have "split_on sep (xs @ ys) = (xs @ hd (split_on sep ys)) # tl (split_on sep ys)"
    if "sep \<notin> set xs" for sep xs ys
    using that by (induction xs) (auto split: list.splits)
  ultimately obtain ls where split: "split_on (CHR 0x0A) (''Tor version '' @ Version_String v @ rest) =
      (''Tor version '' @ Version_String v @ line) # ls"
    using head by (metis append.assoc list.sel(1))
  have "line = [] \<or> \<not> is_digit (hd line)"
    using assms(2) by (cases rest) (auto simp: line_def)
  then have "versionRegex (''Tor version '' @ Version_String v @ line) = Some [itoa a, itoa b, itoa c, itoa d]"
    using assms(1) unfolding v by (intro versionRegex_printed) simp_all
  then have "parse_line (''Tor version '' @ Version_String v @ line) = Some v"
    using assms(1) by (simp only: parse_line_def find_submatch_at_start) (simp add: Atoi_itoa v)
  with split show ?thesis
    by (simp only: parseVersionOutput_def parse_lines.simps option.case)
qed

lemma parse_printed_version_witness:
  "parseVersionOutput (''Tor version '' @ Version_String (Version 0 4 8 17) @ ''.'' @ [CHR 0x0A]) =
     Inr (Version 0 4 8 17)"
  by (rule parse_printed_version) (simp_all add: in_int64_def)

end
