(* ===== verification/Process_Manager.thy ===== *)
theory Process_Manager
  imports Go_Prelude
begin

section \<open>The process manager (internal/process)\<close>

text \<open>
  The manager keeps every process it has started, in order; a pointer to a process is its
  index in that list, \<open>None\<close> for nil. A goroutine per process waits for the process to exit
  and closes its channel \<open>done\<close>. The first part gives the operations as functions on the
  manager, with what the operating system answers as arguments; the second gives \<open>Stop\<close> as
  the steps of concurrent callers, with the exits of processes and their reaping as steps of
  their own, and shows what holds in every reachable state.
\<close>

datatype ProcessState = P_StateStarting | P_StateRunning | P_StateStopped | P_StateFailed

fun ProcessState_String :: "ProcessState \<Rightarrow> string" where
  "ProcessState_String P_StateStarting = ''starting''"
| "ProcessState_String P_StateRunning = ''running''"
| "ProcessState_String P_StateStopped = ''stopped''"
| "ProcessState_String P_StateFailed = ''failed''"

record Process =
  proc_Name :: string
  proc_Path :: string
  proc_Args :: "string list"
  proc_pid :: nat
  pstate :: ProcessState
  done_closed :: bool
  proc_wait :: "string option"

record Manager =
  processes :: "Process list"
  tmpDir :: string

definition NewManager :: "string \<Rightarrow> Manager" where
  "NewManager dir = \<lparr>processes = [], tmpDir = dir\<rparr>"

definition List :: "Manager \<Rightarrow> nat list" where
  "List m = [0..<length (processes m)]"

definition add :: "Process \<Rightarrow> Manager \<Rightarrow> Manager" where
  "add p m = m\<lparr>processes := processes m @ [p]\<rparr>"

definition on_process :: "nat \<Rightarrow> (Process \<Rightarrow> Process) \<Rightarrow> Manager \<Rightarrow> Manager" where
  "on_process h f m = m\<lparr>processes := (processes m)[h := f (processes m ! h)]\<rparr>"

subsection \<open>Starting, waiting, stopping\<close>

datatype spawn_error = SpawnCtx ctx_error | SpawnStart string

text \<open>
  \<open>Spawn\<close>: \<open>ctx_err\<close> is the context's error if it is done, \<open>start\<close> the outcome of
  \<open>cmd.Start\<close>, a process id or an error.
\<close>

definition Spawn ::
  "ctx_error option \<Rightarrow> string \<Rightarrow> string \<Rightarrow> string list \<Rightarrow> string + nat \<Rightarrow> Manager
    \<Rightarrow> (spawn_error + nat) \<times> Manager" where
  "Spawn ctx_err name binary args start m =
     (case ctx_err of
        Some e \<Rightarrow> (Inl (SpawnCtx e), m)
      | None \<Rightarrow>
          (case start of
             Inl err \<Rightarrow> (Inl (SpawnStart err), m)
           | Inr pid \<Rightarrow>
               (Inr (length (processes m)),
                add \<lparr>proc_Name = name, proc_Path = binary, proc_Args = args, proc_pid = pid,
                     pstate = P_StateRunning, done_closed = False, proc_wait = None\<rparr> m)))"

text \<open>The goroutine of \<open>Spawn\<close>, once \<open>cmd.Wait\<close> has returned \<open>waitErr\<close>.\<close>

definition reap :: "string option \<Rightarrow> Process \<Rightarrow> Process" where
  "reap waitErr p =
     p\<lparr>proc_wait := waitErr,
       pstate := (if pstate p = P_StateRunning
                  then (if waitErr \<noteq> None then P_StateFailed else P_StateStopped) else pstate p),
       done_closed := True\<rparr>"

definition Process_State :: "Manager \<Rightarrow> nat \<Rightarrow> ProcessState" where
  "Process_State m h = pstate (processes m ! h)"

definition Pid :: "Manager \<Rightarrow> nat \<Rightarrow> nat" where
  "Pid m h = proc_pid (processes m ! h)"

text \<open>\<open>Wait\<close> blocks, \<open>None\<close>, until the process has been reaped.\<close>

definition Process_Wait :: "Manager \<Rightarrow> nat \<Rightarrow> string option option" where
  "Process_Wait m h =
     (let p = processes m ! h in if done_closed p then Some (proc_wait p) else None)"

definition Wait :: "Manager \<Rightarrow> nat option \<Rightarrow> string option option" where
  "Wait m p = (case p of None \<Rightarrow> Some (Some ''Wait: nil process'') | Some h \<Rightarrow> Process_Wait m h)"

text \<open>
  \<open>Stop\<close> as its caller sees it, from call to return: \<open>waitErr\<close> is what \<open>cmd.Wait\<close> gives if
  the process has still to be reaped. \<open>Stop\<close> returns nil on every path.
\<close>

definition mark_stopped :: "Process \<Rightarrow> Process" where
  "mark_stopped p = (if pstate p = P_StateRunning then p\<lparr>pstate := P_StateStopped\<rparr> else p)"

definition Stop :: "nat option \<Rightarrow> string option \<Rightarrow> Manager \<Rightarrow> Manager" where
  "Stop p waitErr m =
     (case p of
        None \<Rightarrow> m
      | Some h \<Rightarrow> on_process h (\<lambda>q. let q' = mark_stopped q in if done_closed q' then q' else reap waitErr q') m)"

text \<open>\<open>StopAll\<close> stops all processes known when it is called.\<close>

definition StopAll :: "(nat \<Rightarrow> string option) \<Rightarrow> Manager \<Rightarrow> Manager" where
  "StopAll waitErr m = foldl (\<lambda>m' h. Stop (Some h) (waitErr h) m') m (List m)"

text \<open>\<open>Cleanup\<close>; \<open>RemoveAll\<close> is \<open>os.RemoveAll\<close>.\<close>

definition Cleanup :: "(string \<Rightarrow> 'fs \<Rightarrow> os_error option \<times> 'fs) \<Rightarrow> Manager \<Rightarrow> 'fs \<Rightarrow> os_error option \<times> 'fs" where
  "Cleanup RemoveAll m fs =
     (if tmpDir m = [] then (None, fs)
      else (case RemoveAll (tmpDir m) fs of
              (Some err, fs') \<Rightarrow> (if err \<noteq> ErrNotExist then Some err else None, fs')
            | (None, fs') \<Rightarrow> (None, fs')))"

lemma on_process_simps [simp]:
  "length (processes (on_process h f m)) = length (processes m)"
  "h < length (processes m) \<Longrightarrow> processes (on_process h f m) ! h = f (processes m ! h)"
  "k \<noteq> h \<Longrightarrow> processes (on_process h f m) ! k = processes m ! k"
  "tmpDir (on_process h f m) = tmpDir m"
  by (simp_all add: on_process_def)

lemma add_simps [simp]:
  "length (processes (add p m)) = Suc (length (processes m))"
  "k < length (processes m) \<Longrightarrow> processes (add p m) ! k = processes m ! k"
  "processes (add p m) ! length (processes m) = p"
  by (simp_all add: add_def nth_append)

lemma reap_simps [simp]:
  "done_closed (reap e p)" "proc_pid (reap e p) = proc_pid p" "proc_Name (reap e p) = proc_Name p"
  by (simp_all add: reap_def)

lemma reap_not_running [simp]: "pstate (reap e p) \<noteq> P_StateRunning"
  by (simp add: reap_def)

lemma mark_stopped_simps [simp]:
  "done_closed (mark_stopped p) = done_closed p" "pstate (mark_stopped p) \<noteq> P_StateRunning"
  "proc_pid (mark_stopped p) = proc_pid p" "proc_Name (mark_stopped p) = proc_Name p"
  by (simp_all add: mark_stopped_def)

lemma Stop_frame [simp]:
  "length (processes (Stop p e m)) = length (processes m)"
  "k \<noteq> h \<Longrightarrow> processes (Stop (Some h) e m) ! k = processes m ! k"
  "Stop None e m = m"
  "tmpDir (Stop p e m) = tmpDir m"
  by (simp_all add: Stop_def split: option.split)

lemma Stop_done:
  "h < length (processes m) \<Longrightarrow> done_closed (processes (Stop (Some h) e m) ! h) \<and>
     pstate (processes (Stop (Some h) e m) ! h) \<noteq> P_StateRunning"
  by (simp add: Stop_def Let_def reap_def)

lemma foldl_Stop:
  assumes "\<forall>h \<in> set hs. h < length (processes m)"
  shows "length (processes (foldl (\<lambda>m' h. Stop (Some h) (e h) m') m hs)) = length (processes m) \<and>
    (\<forall>h \<in> set hs. done_closed (processes (foldl (\<lambda>m' h. Stop (Some h) (e h) m') m hs) ! h) \<and>
       pstate (processes (foldl (\<lambda>m' h. Stop (Some h) (e h) m') m hs) ! h) \<noteq> P_StateRunning)"
  using assms
proof (induction hs rule: rev_induct)
  case (snoc h hs)
  let ?m = "foldl (\<lambda>m' h. Stop (Some h) (e h) m') m hs"
  have IH: "length (processes ?m) = length (processes m)"
    and d: "\<forall>k \<in> set hs. done_closed (processes ?m ! k) \<and> pstate (processes ?m ! k) \<noteq> P_StateRunning"
    using snoc by simp_all
  have "done_closed (processes (Stop (Some h) (e h) ?m) ! k) \<and>
      pstate (processes (Stop (Some h) (e h) ?m) ! k) \<noteq> P_StateRunning" if "k \<in> set (hs @ [h])" for k
  proof (cases "k = h")
    case True
    with snoc.prems IH show ?thesis using Stop_done [of h ?m "e h"] by simp
  next
    case False
    with that d show ?thesis by simp
  qed
  with IH show ?case by simp
qed simp

text \<open>After \<open>StopAll\<close> no process of the manager runs and all have been reaped.\<close>

lemma StopAll_done:
  "h < length (processes m) \<Longrightarrow> done_closed (processes (StopAll e m) ! h) \<and>
     Process_State (StopAll e m) h \<noteq> P_StateRunning"
  using foldl_Stop [of "List m" m e] by (simp add: StopAll_def List_def Process_State_def)

subsection \<open>Concurrent callers of Stop\<close>

text \<open>
  The place of a caller in \<open>Stop\<close>: before the check of the state; waiting for a process that
  somebody else stops or that has exited; about to send the first signal; in the select; after
  the second signal; returned.
\<close>

datatype stop_pc = AtEntry | AtJoin | AtTerm | AtSelect | AtFinal | Returned

datatype signal = SIGTERM | SIGKILL

text \<open>
  The system: the manager, the processes the operating system has not yet seen exit, the
  callers, each with the process it stops, and the signals sent so far to each process.
\<close>

record stop_sys =
  mgr :: Manager
  alive :: "nat set"
  callers :: "(nat option \<times> stop_pc) multiset"
  signals :: "(nat \<times> signal) multiset"

definition proc_of :: "stop_sys \<Rightarrow> nat \<Rightarrow> Process" where
  "proc_of s h = processes (mgr s) ! h"

inductive stop_step :: "stop_sys \<Rightarrow> stop_sys \<Rightarrow> bool" where
  spawn: "Spawn ctx_err name binary args start (mgr s) = (Inr h, m) \<Longrightarrow>
     stop_step s (s\<lparr>mgr := m, alive := insert h (alive s)\<rparr>)"
| exits: "h \<in> alive s \<Longrightarrow> stop_step s (s\<lparr>alive := alive s - {h}\<rparr>)"
| reaped: "\<lbrakk>h < length (processes (mgr s)); h \<notin> alive s; \<not> done_closed (proc_of s h)\<rbrakk> \<Longrightarrow>
     stop_step s (s\<lparr>mgr := on_process h (reap waitErr) (mgr s)\<rparr>)"
| call: "(\<forall>h. p = Some h \<longrightarrow> h < length (processes (mgr s))) \<Longrightarrow>
     stop_step s (s\<lparr>callers := add_mset (p, AtEntry) (callers s)\<rparr>)"
| entry_nil: "callers s = add_mset (None, AtEntry) R \<Longrightarrow>
     stop_step s (s\<lparr>callers := add_mset (None, Returned) R\<rparr>)"
| entry_other: "\<lbrakk>callers s = add_mset (Some h, AtEntry) R; pstate (proc_of s h) \<noteq> P_StateRunning\<rbrakk> \<Longrightarrow>
     stop_step s (s\<lparr>callers := add_mset (Some h, AtJoin) R\<rparr>)"
| entry_running: "\<lbrakk>callers s = add_mset (Some h, AtEntry) R; pstate (proc_of s h) = P_StateRunning\<rbrakk> \<Longrightarrow>
     stop_step s (s\<lparr>mgr := on_process h mark_stopped (mgr s),
                    callers := add_mset (Some h, AtTerm) R\<rparr>)"
| join: "\<lbrakk>callers s = add_mset (Some h, AtJoin) R; done_closed (proc_of s h)\<rbrakk> \<Longrightarrow>
     stop_step s (s\<lparr>callers := add_mset (Some h, Returned) R\<rparr>)"
| sigterm: "callers s = add_mset (Some h, AtTerm) R \<Longrightarrow>
     stop_step s (s\<lparr>callers := add_mset (Some h, AtSelect) R,
                    signals := add_mset (h, SIGTERM) (signals s)\<rparr>)"
| select_done: "\<lbrakk>callers s = add_mset (Some h, AtSelect) R; done_closed (proc_of s h)\<rbrakk> \<Longrightarrow>
     stop_step s (s\<lparr>callers := add_mset (Some h, Returned) R\<rparr>)"
| sigkill: "callers s = add_mset (Some h, AtSelect) R \<Longrightarrow>
     stop_step s (s\<lparr>callers := add_mset (Some h, AtFinal) R,
                    signals := add_mset (h, SIGKILL) (signals s)\<rparr>)"
| final: "\<lbrakk>callers s = add_mset (Some h, AtFinal) R; done_closed (proc_of s h)\<rbrakk> \<Longrightarrow>
     stop_step s (s\<lparr>callers := add_mset (Some h, Returned) R\<rparr>)"

definition stop_init :: "string \<Rightarrow> stop_sys" where
  "stop_init dir = \<lparr>mgr = NewManager dir, alive = {}, callers = {#}, signals = {#}\<rparr>"

inductive stop_reach :: "string \<Rightarrow> stop_sys \<Rightarrow> bool" for dir where
  init: "stop_reach dir (stop_init dir)"
| step: "\<lbrakk>stop_reach dir s; stop_step s t\<rbrakk> \<Longrightarrow> stop_reach dir t"

text \<open>How many signals of a kind a process has been sent, and how many callers are where.\<close>

abbreviation sent :: "stop_sys \<Rightarrow> nat \<Rightarrow> signal \<Rightarrow> nat" where
  "sent s h sig \<equiv> count (signals s) (h, sig)"

abbreviation at :: "stop_sys \<Rightarrow> nat \<Rightarrow> stop_pc \<Rightarrow> nat" where
  "at s h pc \<equiv> count (callers s) (Some h, pc)"

text \<open>
  The invariant, process by process. The right to signal belongs to the one caller that found
  the process running: while the process is marked running nobody has it, and afterwards the
  process stays marked stopped.
\<close>

definition stop_inv1 :: "stop_sys \<Rightarrow> nat \<Rightarrow> bool" where
  "stop_inv1 s h \<longleftrightarrow>
     (if h < length (processes (mgr s))
      then at s h AtTerm + sent s h SIGTERM \<le> 1 \<and>
           at s h AtSelect + sent s h SIGKILL \<le> sent s h SIGTERM \<and>
           at s h AtFinal \<le> sent s h SIGKILL \<and>
           (0 < at s h AtTerm + sent s h SIGTERM \<longrightarrow> pstate (proc_of s h) = P_StateStopped) \<and>
           (0 < at s h Returned \<longrightarrow> done_closed (proc_of s h)) \<and>
           (pstate (proc_of s h) = P_StateRunning \<longrightarrow> \<not> done_closed (proc_of s h)) \<and>
           (done_closed (proc_of s h) \<longrightarrow> h \<notin> alive s)
      else (\<forall>pc. at s h pc = 0) \<and> (\<forall>sig. sent s h sig = 0) \<and> h \<notin> alive s)"

definition stop_inv :: "stop_sys \<Rightarrow> bool" where
  "stop_inv s \<longleftrightarrow> (\<forall>h. stop_inv1 s h) \<and> (\<forall>pc. pc \<noteq> AtEntry \<and> pc \<noteq> Returned \<longrightarrow> (None, pc) \<notin># callers s)"


lemma stop_init_inv: "stop_inv (stop_init dir)"
  by (simp add: stop_inv_def stop_inv1_def stop_init_def NewManager_def)

lemma Spawn_Inr:
  assumes "Spawn ctx_err name binary args start m = (Inr h, m')"
  shows "h = length (processes m)" and "length (processes m') = Suc h"
    and "k < h \<Longrightarrow> processes m' ! k = processes m ! k"
    and "pstate (processes m' ! h) = P_StateRunning" and "\<not> done_closed (processes m' ! h)"
    and "proc_Name (processes m' ! h) = name"
  using assms by (auto simp: Spawn_def split: option.splits sum.splits)

text \<open>A step that only moves callers of one process and sends it signals.\<close>

lemma stop_inv_local:
  assumes "stop_inv s" and "stop_inv1 s h \<Longrightarrow> stop_inv1 t h"
    and "\<And>k. k \<noteq> h \<Longrightarrow> stop_inv1 t k = stop_inv1 s k"
    and "\<And>pc. (None, pc) \<in># callers t \<longleftrightarrow> (None, pc) \<in># callers s"
  shows "stop_inv t"
  using assms unfolding stop_inv_def by metis

lemma stop_inv_pointwise:
  assumes "stop_inv s" and "\<And>k. stop_inv1 s k \<Longrightarrow> stop_inv1 t k"
    and "\<And>pc. pc \<noteq> AtEntry \<and> pc \<noteq> Returned \<Longrightarrow> (None, pc) \<notin># callers s \<Longrightarrow> (None, pc) \<notin># callers t"
  shows "stop_inv t"
  using assms unfolding stop_inv_def by blast

lemma stop_step_inv: "stop_step s t \<Longrightarrow> stop_inv s \<Longrightarrow> stop_inv t"
proof (induction rule: stop_step.induct)
  case (spawn ctx_err name binary args start s h m)
  note new = Spawn_Inr [OF spawn(1)]
  have inv: "stop_inv1 s k" for k using spawn.prems by (simp add: stop_inv_def)
  have "stop_inv1 (s\<lparr>mgr := m, alive := insert h (alive s)\<rparr>) k" for k
    using new inv [of k] by (cases k "length (processes (mgr s))" rule: linorder_cases)
      (auto simp: stop_inv1_def proc_of_def)
  then show ?case using spawn.prems by (simp add: stop_inv_def)
next
  case (exits h s)
  then show ?case
    by (intro stop_inv_pointwise [OF exits.prems]) (auto simp: stop_inv1_def proc_of_def split: if_splits)
next
  case (reaped h s waitErr)
  then show ?case
    by (intro stop_inv_local [OF reaped.prems, of h]) (auto simp: stop_inv1_def proc_of_def reap_def)
next
  case (call p s)
  then show ?case
    by (intro stop_inv_pointwise [OF call.prems]) (auto simp: stop_inv1_def proc_of_def split: if_splits)
next
  case (entry_nil s R)
  then show ?case
    by (intro stop_inv_pointwise [OF entry_nil.prems]) (auto simp: stop_inv1_def proc_of_def split: if_splits)
next
  case (entry_other s h R)
  then show ?case
    by (intro stop_inv_local [OF entry_other.prems, of h]) (auto simp: stop_inv1_def proc_of_def split: if_splits)
next
  case (entry_running s h R)
  then show ?case
    by (intro stop_inv_local [OF entry_running.prems, of h])
       (auto simp: stop_inv1_def proc_of_def mark_stopped_def not_in_iff
          simp del: count_greater_zero_iff split: if_splits)
next
  case (join s h R)
  then show ?case
    by (intro stop_inv_local [OF join.prems, of h]) (auto simp: stop_inv1_def proc_of_def split: if_splits)
next
  case (sigterm s h R)
  then show ?case
    by (intro stop_inv_local [OF sigterm.prems, of h]) (auto simp: stop_inv1_def proc_of_def split: if_splits)
next
  case (select_done s h R)
  then show ?case
    by (intro stop_inv_local [OF select_done.prems, of h]) (auto simp: stop_inv1_def proc_of_def split: if_splits)
next
  case (sigkill s h R)
  then show ?case
    by (intro stop_inv_local [OF sigkill.prems, of h]) (auto simp: stop_inv1_def proc_of_def split: if_splits)
next
  case (final s h R)
  then show ?case
    by (intro stop_inv_local [OF final.prems, of h]) (auto simp: stop_inv1_def proc_of_def split: if_splits)
qed


lemma stop_reach_inv: "stop_reach dir s \<Longrightarrow> stop_inv s"
  by (induction rule: stop_reach.induct) (auto intro: stop_init_inv stop_step_inv)

text \<open>C4. However many goroutines stop a process at the same time and whenever it exits, the
  process is sent at most one SIGTERM and at most one SIGKILL, the latter only after the
  former, is recorded as stopped and not as failed once it has been signalled, and when any of
  the calls has returned it is no longer running and has been reaped.\<close>

theorem stop_safety:
  assumes "stop_reach dir s"
  shows "sent s h SIGKILL \<le> sent s h SIGTERM \<and> sent s h SIGTERM \<le> 1 \<and>
    (0 < sent s h SIGTERM \<longrightarrow> Process_State (mgr s) h = P_StateStopped) \<and>
    (0 < at s h Returned \<longrightarrow> h \<notin> alive s \<and> Process_Wait (mgr s) h \<noteq> None \<and>
       Process_State (mgr s) h \<noteq> P_StateRunning)"
proof -
  have "stop_inv1 s h" using stop_reach_inv [OF assms] by (simp add: stop_inv_def)
  then show ?thesis
    by (auto simp: stop_inv1_def proc_of_def Process_State_def Process_Wait_def Let_def not_in_iff
        simp del: count_greater_zero_iff split: if_splits)
qed

subsection \<open>Every caller of Stop can return\<close>

text \<open>The work left: exits and reapings still to come, and the steps of the callers.\<close>

definition process_work :: "stop_sys \<Rightarrow> nat \<Rightarrow> nat" where
  "process_work s h = (if h \<in> alive s then 1 else 0) + (if done_closed (proc_of s h) then 0 else 1)"

fun pc_work :: "stop_pc \<Rightarrow> nat" where
  "pc_work AtEntry = 4" | "pc_work AtTerm = 3" | "pc_work AtSelect = 2" | "pc_work AtJoin = 1"
| "pc_work AtFinal = 1" | "pc_work Returned = 0"

definition stop_work :: "stop_sys \<Rightarrow> nat" where
  "stop_work s = (\<Sum>h < length (processes (mgr s)). process_work s h) + (\<Sum>(p, pc) \<in># callers s. pc_work pc)"

definition all_returned :: "stop_sys \<Rightarrow> bool" where
  "all_returned s \<longleftrightarrow> (\<forall>(p, pc) \<in># callers s. pc = Returned)"

lemma process_work_less:
  assumes "h < n" and "process_work t h < process_work s h"
    and "\<And>k. k \<noteq> h \<Longrightarrow> process_work t k = process_work s k"
  shows "(\<Sum>h < n. process_work t h) < (\<Sum>h < n. process_work s h)"
proof (rule sum_strict_mono_ex1)
  show "\<forall>k \<in> {..<n}. process_work t k \<le> process_work s k"
    using assms by (metis less_imp_le order_refl)
qed (use assms in auto)

text \<open>While a caller has not returned, some step brings the system closer to the end.\<close>

text \<open>A caller whose process has been reaped can always take a step of its own.\<close>

lemma stop_caller_progress:
  assumes c: "callers s = add_mset (Some h, pc) R" and "pc \<noteq> Returned"
    and "done_closed (proc_of s h)" and "pstate (proc_of s h) \<noteq> P_StateRunning"
  shows "\<exists>t. stop_step s t \<and> stop_work t < stop_work s"
proof -
  have work: "stop_work (s\<lparr>callers := add_mset (p', pc') R\<rparr>) < stop_work s"
    "stop_work (s\<lparr>callers := add_mset (p', pc') R, signals := X\<rparr>) < stop_work s"
    if "pc_work pc' < pc_work pc" for p' pc' X
    using that by (simp_all add: stop_work_def c process_work_def proc_of_def)
  show ?thesis
  proof (cases pc)
    case AtEntry
    then show ?thesis
      using stop_step.entry_other [of s h R] assms work(1) [where pc' = AtJoin and p' = "Some h"] by auto
  next
    case AtJoin
    then show ?thesis
      using stop_step.join [of s h R] assms work(1) [where pc' = Returned and p' = "Some h"] by auto
  next
    case AtTerm
    then show ?thesis
      using stop_step.sigterm [of s h R] assms work(2) [where pc' = AtSelect and p' = "Some h"] by auto
  next
    case AtSelect
    then show ?thesis
      using stop_step.select_done [of s h R] assms work(1) [where pc' = Returned and p' = "Some h"] by auto
  next
    case AtFinal
    then show ?thesis
      using stop_step.final [of s h R] assms work(1) [where pc' = Returned and p' = "Some h"] by auto
  qed (use assms in simp)
qed

text \<open>The environment's steps: a process exits, and an exited one is reaped.\<close>

lemma stop_env_progress:
  assumes "h < length (processes (mgr s))" and "\<not> done_closed (proc_of s h)"
  shows "\<exists>t. stop_step s t \<and> stop_work t < stop_work s"
proof (cases "h \<in> alive s")
  case True
  let ?t = "s\<lparr>alive := alive s - {h}\<rparr>"
  have "stop_work ?t < stop_work s"
    using process_work_less [OF assms(1), of ?t s] True assms(2)
    by (simp add: stop_work_def process_work_def proc_of_def)
  with stop_step.exits [OF True] show ?thesis by blast
next
  case False
  let ?t = "s\<lparr>mgr := on_process h (reap None) (mgr s)\<rparr>"
  have "stop_work ?t < stop_work s"
    using process_work_less [OF assms(1), of ?t s] False assms
    by (simp add: stop_work_def process_work_def proc_of_def)
  with stop_step.reaped [OF assms(1) False assms(2)] show ?thesis by blast
qed

lemma stop_progress:
  assumes inv: "stop_inv s" and "\<not> all_returned s"
  shows "\<exists>t. stop_step s t \<and> stop_work t < stop_work s"
proof -
  obtain p pc R where c: "callers s = add_mset (p, pc) R" and pc: "pc \<noteq> Returned"
    using assms(2) by (auto simp: all_returned_def dest: multi_member_split)
  show ?thesis
  proof (cases p)
    case None
    with inv c pc have "pc = AtEntry" by (auto simp: stop_inv_def)
    with c None have "stop_step s (s\<lparr>callers := add_mset (None, Returned) R\<rparr>)"
      by (simp add: stop_step.entry_nil)
    moreover have "stop_work (s\<lparr>callers := add_mset (None, Returned) R\<rparr>) < stop_work s"
      using c None \<open>pc = AtEntry\<close> by (simp add: stop_work_def process_work_def proc_of_def)
    ultimately show ?thesis by blast
  next
    case (Some h)
    have h1: "stop_inv1 s h" using inv by (simp add: stop_inv_def)
    with c Some have h: "h < length (processes (mgr s))"
      by (auto simp: stop_inv1_def split: if_splits)
    show ?thesis
    proof (cases "done_closed (proc_of s h)")
      case True
      with h1 h have "pstate (proc_of s h) \<noteq> P_StateRunning" by (auto simp: stop_inv1_def)
      with stop_caller_progress c Some pc True show ?thesis by blast
    qed (use stop_env_progress [OF h] in blast)
  qed
qed

text \<open>C24. Callers of \<open>Stop\<close> never block each other for good: from every reachable state,
  whatever the callers have done so far, some sequence of steps lets all of them return.\<close>

theorem stop_can_return:
  assumes "stop_reach dir s"
  shows "\<exists>t. stop_step\<^sup>*\<^sup>* s t \<and> all_returned t"
  using stop_reach_inv [OF assms]
proof (induction "stop_work s" arbitrary: s rule: less_induct)
  case less
  show ?case
  proof (cases "all_returned s")
    case False
    then obtain t where t: "stop_step s t" "stop_work t < stop_work s"
      using stop_progress less.prems by blast
    with less.hyps [of t] stop_step_inv less.prems show ?thesis
      by (meson converse_rtranclp_into_rtranclp)
  qed auto
qed


text \<open>Two callers stop one process; the first has signalled it.\<close>

definition two_stoppers :: stop_sys where
  "two_stoppers =
     \<lparr>mgr = on_process 0 mark_stopped (snd (Spawn None ''tor-0'' ''/usr/bin/tor'' [''-f''] (Inr 4711) (NewManager ''/tmp/splitter''))),
      alive = {0}, callers = {#(Some 0, AtSelect), (Some 0, AtEntry)#}, signals = {#(0, SIGTERM)#}\<rparr>"

lemma two_stoppers_reach: "stop_reach ''/tmp/splitter'' two_stoppers"
proof -
  let ?m = "snd (Spawn None ''tor-0'' ''/usr/bin/tor'' [''-f''] (Inr 4711) (NewManager ''/tmp/splitter''))"
  let ?s1 = "\<lparr>mgr = ?m, alive = {0}, callers = {#}, signals = {#}\<rparr>"
  have "stop_step (stop_init ''/tmp/splitter'') ?s1"
    using stop_step.spawn [of None "''tor-0''" "''/usr/bin/tor''" "[''-f'']" "Inr 4711"
        "stop_init ''/tmp/splitter''" 0 ?m]
    by (simp add: stop_init_def Spawn_def NewManager_def)
  then have r1: "stop_reach ''/tmp/splitter'' ?s1"
    by (rule stop_reach.step [OF stop_reach.init])
  have p: "length (processes ?m) = 1" "pstate (processes ?m ! 0) = P_StateRunning"
    by (simp_all add: Spawn_def NewManager_def add_def)
  have r2: "stop_reach ''/tmp/splitter'' (?s1\<lparr>callers := {#(Some 0, AtEntry)#}\<rparr>)"
    by (rule stop_reach.step [OF r1]) (use p stop_step.call [of "Some 0" ?s1] in simp)
  have r3: "stop_reach ''/tmp/splitter'' (?s1\<lparr>callers := {#(Some 0, AtEntry), (Some 0, AtEntry)#}\<rparr>)"
    by (rule stop_reach.step [OF r2])
       (use p stop_step.call [of "Some 0" "?s1\<lparr>callers := {#(Some 0, AtEntry)#}\<rparr>"] in simp)
  have r4: "stop_reach ''/tmp/splitter'' (?s1\<lparr>mgr := on_process 0 mark_stopped ?m,
      callers := {#(Some 0, AtTerm), (Some 0, AtEntry)#}\<rparr>)"
    by (rule stop_reach.step [OF r3])
       (use p stop_step.entry_running [of "?s1\<lparr>callers := {#(Some 0, AtEntry), (Some 0, AtEntry)#}\<rparr>" 0
          "{#(Some 0, AtEntry)#}"] in \<open>simp add: proc_of_def\<close>)
  show ?thesis
    by (rule stop_reach.step [OF r4], unfold two_stoppers_def)
       (use stop_step.sigterm [of "?s1\<lparr>mgr := on_process 0 mark_stopped ?m,
          callers := {#(Some 0, AtTerm), (Some 0, AtEntry)#}\<rparr>" 0 "{#(Some 0, AtEntry)#}"] in simp)
qed

lemma stop_safety_witness:
  "sent two_stoppers 0 SIGTERM = 1 \<and> Process_State (mgr two_stoppers) 0 = P_StateStopped"
  using stop_safety [OF two_stoppers_reach, of 0] by (simp add: two_stoppers_def)

lemma stop_can_return_witness:
  "\<not> all_returned two_stoppers \<and> (\<exists>t. stop_step\<^sup>*\<^sup>* two_stoppers t \<and> all_returned t)"
  using stop_can_return [OF two_stoppers_reach] by (simp add: two_stoppers_def all_returned_def)

subsection \<open>The sequential specification\<close>

text \<open>
  A caller on its own: no process is started and nobody else calls. The process may exit and
  be reaped at any time.
\<close>

definition solo_step :: "stop_sys \<Rightarrow> stop_sys \<Rightarrow> bool" where
  "solo_step s t \<longleftrightarrow> stop_step s t \<and> size (callers t) = size (callers s) \<and>
     length (processes (mgr t)) = length (processes (mgr s))"

text \<open>What the process record may have become when the caller is at \<open>pc\<close>.\<close>

definition solo_record :: "Process \<Rightarrow> stop_pc \<Rightarrow> Process \<Rightarrow> bool" where
  "solo_record p0 pc q \<longleftrightarrow>
     (let untouched = q = p0 \<or> (\<exists>e. \<not> done_closed p0 \<and> q = reap e p0);
          stopped = pstate p0 = P_StateRunning \<and>
            (q = mark_stopped p0 \<or> (\<exists>e. \<not> done_closed p0 \<and> q = reap e (mark_stopped p0)))
      in case pc of
           AtEntry \<Rightarrow> untouched
         | AtJoin \<Rightarrow> untouched \<and> pstate q \<noteq> P_StateRunning
         | Returned \<Rightarrow> done_closed q \<and> (untouched \<and> pstate q \<noteq> P_StateRunning \<or> stopped)
         | _ \<Rightarrow> stopped)"

lemma solo_record_reap:
  "\<lbrakk>solo_record p0 pc q; \<not> done_closed q\<rbrakk> \<Longrightarrow> solo_record p0 pc (reap e q)"
  by (cases pc) (fastforce simp: solo_record_def Let_def)+

lemma solo_invariant:
  assumes "solo_step\<^sup>*\<^sup>* s t" and "callers s = {#(Some h, AtEntry)#}" and "h < length (processes (mgr s))"
  shows "\<exists>pc. callers t = {#(Some h, pc)#} \<and> length (processes (mgr t)) = length (processes (mgr s)) \<and>
    solo_record (proc_of s h) pc (proc_of t h)"
  using assms(1)
proof (induction rule: rtranclp_induct)
  case base
  with assms show ?case by (simp add: solo_record_def)
next
  case (step t u)
  then obtain pc where c: "callers t = {#(Some h, pc)#}"
    and len: "length (processes (mgr t)) = length (processes (mgr s))"
    and r: "solo_record (proc_of s h) pc (proc_of t h)" by blast
  have h: "h < length (processes (mgr t))" using len assms(3) by simp
  have "stop_step t u" and size: "size (callers u) = size (callers t)"
    and len': "length (processes (mgr u)) = length (processes (mgr t))"
    using step.hyps(2) by (simp_all add: solo_step_def)
  from this(1) show ?case
  proof cases
    case (spawn ctx_err name binary args start k m)
    with len' Spawn_Inr(1,2) [OF spawn(2)] show ?thesis by simp
  next
    case (exits k)
    with c len r show ?thesis by (simp add: proc_of_def)
  next
    case (reaped k waitErr)
    with c len r h show ?thesis
      by (cases "k = h") (auto simp: proc_of_def intro: solo_record_reap)
  next
    case (call p)
    with size show ?thesis by simp
  next
    case (entry_nil R)
    with c show ?thesis by simp
  next
    case (entry_other k R)
    with c len r show ?thesis by (auto simp: proc_of_def solo_record_def Let_def)
  next
    case (entry_running k R)
    with c len r h show ?thesis
      by (auto simp: proc_of_def solo_record_def Let_def)
  next
    case (join k R)
    with c len r show ?thesis by (auto simp: proc_of_def solo_record_def Let_def)
  next
    case (sigterm k R)
    with c len r show ?thesis by (auto simp: proc_of_def solo_record_def Let_def)
  next
    case (select_done k R)
    with c len r show ?thesis by (auto simp: proc_of_def solo_record_def Let_def)
  next
    case (sigkill k R)
    with c len r show ?thesis by (auto simp: proc_of_def solo_record_def Let_def)
  next
    case (final k R)
    with c len r show ?thesis by (auto simp: proc_of_def solo_record_def Let_def)
  qed
qed

text \<open>C23. A call of \<open>Stop\<close> that runs on its own, step by step, does to its process what the
  operation \<open>Stop\<close> does at once; the process may have exited, and been recorded as such, just
  before the call.\<close>

theorem Stop_refined:
  assumes "solo_step\<^sup>*\<^sup>* s t" and "callers s = {#(Some h, AtEntry)#}"
    and "h < length (processes (mgr s))" and "callers t = {#(Some h, Returned)#}"
  shows "\<exists>e m. (m = mgr s \<or> \<not> done_closed (proc_of s h) \<and> m = on_process h (reap e) (mgr s)) \<and>
    proc_of t h = processes (Stop (Some h) e m) ! h"
proof -
  let ?p = "proc_of s h" and ?q = "proc_of t h"
  have "solo_record ?p Returned ?q"
    using solo_invariant [OF assms(1-3)] assms(4) by auto
  then have "done_closed ?q"
    and "(\<exists>e. (?q = ?p \<or> \<not> done_closed ?p \<and> ?q = reap e ?p) \<and> pstate ?q \<noteq> P_StateRunning) \<or>
      pstate ?p = P_StateRunning \<and>
        (\<exists>e. ?q = mark_stopped ?p \<or> \<not> done_closed ?p \<and> ?q = reap e (mark_stopped ?p))"
    by (auto simp: solo_record_def Let_def)
  then consider (same) "?q = ?p" "done_closed ?p" "pstate ?p \<noteq> P_StateRunning"
    | (early) e where "\<not> done_closed ?p" "?q = reap e ?p" "pstate ?q \<noteq> P_StateRunning"
    | (marked) "?q = mark_stopped ?p" "done_closed ?p"
    | (stopped) e where "\<not> done_closed ?p" "?q = reap e (mark_stopped ?p)"
    by auto
  then show ?thesis
  proof cases
    case same
    with assms(3) show ?thesis
      by (intro exI [of _ None] exI [of _ "mgr s"]) (simp add: Stop_def mark_stopped_def proc_of_def)
  next
    case (early e)
    with assms(3) show ?thesis
      by (intro exI [of _ e] exI [of _ "on_process h (reap e) (mgr s)"])
         (simp add: Stop_def mark_stopped_def proc_of_def Let_def)
  next
    case marked
    with assms(3) show ?thesis
      by (intro exI [of _ None] exI [of _ "mgr s"]) (simp add: Stop_def proc_of_def Let_def)
  next
    case (stopped e)
    with assms(3) show ?thesis
      by (intro exI [of _ e] exI [of _ "mgr s"]) (simp add: Stop_def proc_of_def Let_def)
  qed
qed


text \<open>One caller stops a running process that exits with an error after the first signal.\<close>

definition one_process :: Manager where
  "one_process = snd (Spawn None ''haproxy'' ''/usr/sbin/haproxy'' [] (Inr 4712) (NewManager ''/tmp/splitter''))"

definition solo_state :: "Manager \<Rightarrow> nat set \<Rightarrow> stop_pc \<Rightarrow> (nat \<times> signal) multiset \<Rightarrow> stop_sys" where
  "solo_state m a pc sigs = \<lparr>mgr = m, alive = a, callers = {#(Some 0, pc)#}, signals = sigs\<rparr>"

lemma one_process_facts:
  "length (processes one_process) = 1" "pstate (processes one_process ! 0) = P_StateRunning"
  "\<not> done_closed (processes one_process ! 0)"
  by (simp_all add: one_process_def Spawn_def NewManager_def add_def)

lemma solo_demo_run:
  defines "m1 \<equiv> on_process 0 mark_stopped one_process"
  shows "solo_step\<^sup>*\<^sup>* (solo_state one_process {0} AtEntry {#})
    (solo_state (on_process 0 (reap (Some ''exit status 1'')) m1) {} Returned {#(0, SIGTERM)#})"
proof -
  let ?m2 = "on_process 0 (reap (Some ''exit status 1'')) m1"
  have facts: "length (processes m1) = 1" "\<not> done_closed (processes m1 ! 0)"
    by (simp_all add: m1_def one_process_facts)
  have "solo_step (solo_state one_process {0} AtEntry {#}) (solo_state m1 {0} AtTerm {#})"
    using stop_step.entry_running [of "solo_state one_process {0} AtEntry {#}" 0 "{#}"]
    by (simp add: solo_step_def solo_state_def m1_def proc_of_def one_process_facts)
  moreover have "solo_step (solo_state m1 {0} AtTerm {#}) (solo_state m1 {0} AtSelect {#(0, SIGTERM)#})"
    using stop_step.sigterm [of "solo_state m1 {0} AtTerm {#}" 0 "{#}"]
    by (simp add: solo_step_def solo_state_def)
  moreover have "solo_step (solo_state m1 {0} AtSelect {#(0, SIGTERM)#})
      (solo_state m1 {} AtSelect {#(0, SIGTERM)#})"
    using stop_step.exits [of 0 "solo_state m1 {0} AtSelect {#(0, SIGTERM)#}"]
    by (simp add: solo_step_def solo_state_def)
  moreover have "solo_step (solo_state m1 {} AtSelect {#(0, SIGTERM)#})
      (solo_state ?m2 {} AtSelect {#(0, SIGTERM)#})"
    using stop_step.reaped [of 0 "solo_state m1 {} AtSelect {#(0, SIGTERM)#}" "Some ''exit status 1''"]
    by (simp add: solo_step_def solo_state_def proc_of_def facts)
  moreover have "solo_step (solo_state ?m2 {} AtSelect {#(0, SIGTERM)#})
      (solo_state ?m2 {} Returned {#(0, SIGTERM)#})"
    using stop_step.select_done [of "solo_state ?m2 {} AtSelect {#(0, SIGTERM)#}" 0 "{#}"]
    by (simp add: solo_step_def solo_state_def proc_of_def facts)
  ultimately show ?thesis
    by (meson converse_rtranclp_into_rtranclp rtranclp.rtrancl_refl)
qed

lemma Stop_refined_witness:
  "\<exists>t e m. callers t = {#(Some 0, Returned)#} \<and> proc_of t 0 = processes (Stop (Some 0) e m) ! 0"
proof -
  let ?t = "solo_state (on_process 0 (reap (Some ''exit status 1'')) (on_process 0 mark_stopped one_process))
    {} Returned {#(0, SIGTERM)#}"
  have c: "callers ?t = {#(Some 0, Returned)#}"
    by (simp add: solo_state_def)
  have "\<exists>e m. (m = mgr (solo_state one_process {0} AtEntry {#}) \<or>
      \<not> done_closed (proc_of (solo_state one_process {0} AtEntry {#}) 0) \<and>
      m = on_process 0 (reap e) (mgr (solo_state one_process {0} AtEntry {#}))) \<and>
    proc_of ?t 0 = processes (Stop (Some 0) e m) ! 0"
    by (rule Stop_refined [OF solo_demo_run _ _ c]) (simp_all add: solo_state_def one_process_facts)
  with c show ?thesis by blast
qed

end
