(* ===== verification/Tor_Instance.thy ===== *)
theory Tor_Instance
  imports Config_Types Tor_Version Process_Manager
begin

section \<open>One Tor instance (internal/tor/instance.go, internal/tor/bridges.go)\<close>

text \<open>
  An instance writes its \<open>torrc\<close> and its data directory, starts the Tor binary through the
  process manager and remembers the process. All instances hold a pointer to the program's one
  configuration, which a reload may change: it is an argument of the operations here. What the
  operating system, the template engine and the random generator do is the record \<open>tor_sys\<close>
  over a world \<open>'o\<close>, which the operations hand on.
\<close>

datatype State = StateStarting | StateBootstrapping | StateReady | StateFailed

fun State_String :: "State \<Rightarrow> string" where
  "State_String StateStarting = ''starting''"
| "State_String StateBootstrapping = ''bootstrapping''"
| "State_String StateReady = ''ready''"
| "State_String StateFailed = ''failed''"

text \<open>The field \<open>cancelFunc\<close>: nil, set, or set and called since.\<close>

datatype cancel_func = NilCancel | CancelSet | CancelCalled

record Instance =
  inst_ID :: int
  inst_Country :: string
  inst_SocksPort :: int
  inst_ControlPort :: int
  inst_HTTPPort :: int
  inst_state :: State
  inst_cancelFunc :: cancel_func
  inst_proc :: "nat option"
  inst_version :: Version
  torrcPath :: string
  dataDir :: string
  bridgeLines :: "string list"
  bridgeTransport :: string

record InstanceConfig =
  ic_InstanceID :: int
  ic_Country :: string
  ic_SocksPort :: int
  ic_ControlPort :: int
  ic_HTTPTunnelPort :: int
  ic_DataDir :: string
  ic_CircuitBuildTimeout :: int
  ic_CircuitStreamTimeout :: int
  ic_MaxCircuitDirtiness :: int
  ic_NewCircuitPeriod :: int
  ic_LearnCircuitBuildTimeout :: int
  ic_CongestionControlAuto :: bool
  ic_ConfluxEnabled :: bool
  ic_PostQuantumAvailable :: bool
  ic_HappyFamiliesAware :: bool
  ic_TLS13Recommended :: bool
  ic_SandboxEnabled :: bool
  ic_RelayEnforce :: string
  ic_HiddenServiceEnabled :: bool
  ic_HiddenServiceDir :: string
  ic_HiddenServicePort :: int
  ic_ConnectionPadding :: int
  ic_ReducedConnectionPadding :: int
  ic_SafeSocks :: int
  ic_TestSocks :: int
  ic_ClientRejectInternalAddresses :: int
  ic_StrictNodes :: int
  ic_ClientOnly :: int
  ic_GeoIPExcludeUnknown :: int
  ic_FascistFirewall :: int
  ic_FirewallPorts :: "int list"
  ic_LongLivedPorts :: "int list"
  ic_MaxClientCircuitsPending :: int
  ic_SocksTimeout :: int
  ic_TrackHostExitsExpire :: int
  ic_UseEntryGuards :: int
  ic_NumEntryGuards :: int
  ic_AutomapHostsSuffixes :: string
  ic_WarnPlaintextPorts :: string
  ic_RejectPlaintextPorts :: string
  ic_KeepalivePeriod :: int
  ic_ControlAuth :: string
  ic_BridgeLines :: "string list"
  ic_UseBridges :: bool
  ic_ClientTransport :: string
  ic_StreamIsolation :: bool
  ic_ClientUseIPv6 :: bool

definition NewInstance :: "int \<Rightarrow> string \<Rightarrow> Version \<Rightarrow> Instance" where
  "NewInstance n country version =
     \<lparr>inst_ID = n, inst_Country = country, inst_SocksPort = 0, inst_ControlPort = 0, inst_HTTPPort = 0,
      inst_state = StateStarting, inst_cancelFunc = NilCancel, inst_proc = None, inst_version = version,
      torrcPath = [], dataDir = [], bridgeLines = [], bridgeTransport = []\<rparr>"

subsection \<open>Bridges\<close>

record BridgeConfig =
  bridge_Description :: string
  Transport :: string
  Lines :: "string list"

record BridgesConfig =
  Snowflake :: "BridgeConfig option"
  WebTunnel :: "BridgeConfig option"
  Obfs4 :: "BridgeConfig option"

datatype instance_error =
    ParseTemplate string
  | CreateTorrc string os_error
  | ExecuteTemplate string
  | MkdirData string os_error
  | SpawnFailed spawn_error
  | BridgesNil
  | UnknownBridge string
  | ReadBridges os_error
  | UnmarshalBridges string

definition LoadBridges ::
  "(string \<Rightarrow> os_error + string) \<Rightarrow> (string \<Rightarrow> string + BridgesConfig) \<Rightarrow> string
    \<Rightarrow> instance_error + BridgesConfig" where
  "LoadBridges ReadFile Unmarshal path =
     (case ReadFile path of
        Inl err \<Rightarrow> Inl (ReadBridges err)
      | Inr data \<Rightarrow> (case Unmarshal data of Inl err \<Rightarrow> Inl (UnmarshalBridges err) | Inr cfg \<Rightarrow> Inr cfg))"

definition GetBridge :: "BridgesConfig \<Rightarrow> string \<Rightarrow> instance_error + BridgeConfig option" where
  "GetBridge b bridgeType =
     (if bridgeType = ''snowflake'' then Inr (Snowflake b)
      else if bridgeType = ''webtunnel'' then Inr (WebTunnel b)
      else if bridgeType = ''obfs4'' then Inr (Obfs4 b)
      else if bridgeType = ''none'' \<or> bridgeType = [] then Inr None
      else Inl (UnknownBridge bridgeType))"

definition SetBridges :: "string \<Rightarrow> BridgesConfig option \<Rightarrow> Instance \<Rightarrow> instance_error option \<times> Instance" where
  "SetBridges bridgeType bridges inst =
     (if bridgeType = ''none'' \<or> bridgeType = [] then (None, inst)
      else (case bridges of
              None \<Rightarrow> (Some BridgesNil, inst)
            | Some b \<Rightarrow>
                (case GetBridge b bridgeType of
                   Inl err \<Rightarrow> (Some err, inst)
                 | Inr None \<Rightarrow> (None, inst)
                 | Inr (Some bc) \<Rightarrow>
                     (None, inst\<lparr>bridgeLines := Lines bc, bridgeTransport := Transport bc\<rparr>))))"

subsection \<open>The configuration of an instance\<close>

text \<open>What the instance asks of the system around it.\<close>

record 'o tor_sys =
  rand_Intn :: "int \<Rightarrow> 'o \<Rightarrow> int \<times> 'o"
  template_ParseFiles :: "string \<Rightarrow> 'o \<Rightarrow> string option"
  os_Create :: "string \<Rightarrow> 'o \<Rightarrow> os_error option \<times> 'o"
  template_Execute :: "string \<Rightarrow> InstanceConfig \<Rightarrow> 'o \<Rightarrow> string option \<times> 'o"
  os_MkdirAll :: "string \<Rightarrow> 'o \<Rightarrow> os_error option \<times> 'o"
  ctx_Err :: "'o \<Rightarrow> ctx_error option"
  cmd_Start :: "string \<Rightarrow> string list \<Rightarrow> 'o \<Rightarrow> (string + nat) \<times> 'o"
  cmd_Wait :: "nat \<Rightarrow> 'o \<Rightarrow> string option \<times> 'o"

definition processName :: "Instance \<Rightarrow> string" where
  "processName inst = ''tor-'' @ itoa (inst_ID inst)"

definition torrc_path :: "Config \<Rightarrow> Instance \<Rightarrow> string" where
  "torrc_path cfg inst =
     filepath_Join [TempFiles (Paths cfg), ''tor_'' @ itoa (inst_ID inst) @ ''.cfg'']"

definition data_dir :: "Config \<Rightarrow> Instance \<Rightarrow> string" where
  "data_dir cfg inst = filepath_Join [TempFiles (Paths cfg), ''tor_data_'' @ itoa (inst_ID inst)]"

definition randomizeDirtiness :: "'o tor_sys \<Rightarrow> Config \<Rightarrow> 'o \<Rightarrow> int \<times> 'o" where
  "randomizeDirtiness sys cfg w =
     (let max = MaxCircuitDirtiness (Tor cfg)
      in if max \<le> 10 then (max, w)
         else (case rand_Intn sys (sub64 max 10) w of (r, w') \<Rightarrow> (add64 10 r, w')))"

definition buildInstanceConfig :: "'o tor_sys \<Rightarrow> Config \<Rightarrow> Instance \<Rightarrow> 'o \<Rightarrow> InstanceConfig \<times> 'o" where
  "buildInstanceConfig sys cfg inst w =
     (case randomizeDirtiness sys cfg w of (dirtiness, w') \<Rightarrow>
      (let ic =
     \<lparr>ic_InstanceID = inst_ID inst,
       ic_Country = inst_Country inst,
       ic_SocksPort = inst_SocksPort inst,
       ic_ControlPort = inst_ControlPort inst,
       ic_HTTPTunnelPort = inst_HTTPPort inst,
       ic_DataDir = data_dir cfg inst,
       ic_CircuitBuildTimeout = CircuitBuildTimeout (Tor cfg),
       ic_CircuitStreamTimeout = CircuitStreamTimeout (Tor cfg),
       ic_MaxCircuitDirtiness = dirtiness,
       ic_NewCircuitPeriod = NewCircuitPeriod (Tor cfg),
       ic_LearnCircuitBuildTimeout = LearnCircuitBuildTimeout (Tor cfg),
       ic_CongestionControlAuto = SupportsCongestionControl (inst_version inst) \<and> CongestionControlAuto (Tor cfg),
       ic_ConfluxEnabled = SupportsConflux (inst_version inst) \<and> ConfluxEnabled (Tor cfg),
       ic_PostQuantumAvailable = SupportsPostQuantum (inst_version inst),
       ic_HappyFamiliesAware = SupportsHappyFamilies (inst_version inst),
       ic_TLS13Recommended = SupportsTLS13 (inst_version inst),
       ic_SandboxEnabled = SupportsSandbox (inst_version inst) \<and> Sandbox (Tor cfg),
       ic_RelayEnforce = Enforce (Relay cfg),
       ic_HiddenServiceEnabled = HS_Enabled (HiddenService (Tor cfg)),
       ic_HiddenServiceDir = BasePath (HiddenService (Tor cfg)) @ itoa (inst_ID inst),
       ic_HiddenServicePort = add64 (HS_StartPort (HiddenService (Tor cfg))) (inst_ID inst),
       ic_ConnectionPadding = ConnectionPadding (Tor cfg),
       ic_ReducedConnectionPadding = ReducedConnectionPadding (Tor cfg),
       ic_SafeSocks = SafeSocks (Tor cfg),
       ic_TestSocks = TestSocks (Tor cfg),
       ic_ClientRejectInternalAddresses = ClientRejectInternalAddresses (Tor cfg),
       ic_StrictNodes = StrictNodes (Tor cfg),
       ic_ClientOnly = ClientOnly (Tor cfg),
       ic_GeoIPExcludeUnknown = GeoIPExcludeUnknown (Tor cfg),
       ic_FascistFirewall = FascistFirewall (Tor cfg),
       ic_FirewallPorts = FirewallPorts (Tor cfg),
       ic_LongLivedPorts = LongLivedPorts (Tor cfg),
       ic_MaxClientCircuitsPending = MaxClientCircuitsPending (Tor cfg),
       ic_SocksTimeout = SocksTimeout (Tor cfg),
       ic_TrackHostExitsExpire = TrackHostExitsExpire (Tor cfg),
       ic_UseEntryGuards = UseEntryGuards (Tor cfg),
       ic_NumEntryGuards = NumEntryGuards (Tor cfg),
       ic_AutomapHostsSuffixes = AutomapHostsSuffixes (Tor cfg),
       ic_WarnPlaintextPorts = WarnPlaintextPorts (Tor cfg),
       ic_RejectPlaintextPorts = RejectPlaintextPorts (Tor cfg),
       ic_KeepalivePeriod = MinimumTimeout (Tor cfg),
       ic_ControlAuth = ControlAuth (Tor cfg),
       ic_BridgeLines = bridgeLines inst,
       ic_UseBridges = (0 < length (bridgeLines inst)),
       ic_ClientTransport = bridgeTransport inst,
       ic_StreamIsolation = StreamIsolation (Tor cfg),
       ic_ClientUseIPv6 = IPv6 (Tor cfg)\<rparr>
       in (if 0 < inst_HTTPPort inst \<and> SupportsHTTPTunnel (inst_version inst)
           then ic\<lparr>ic_HTTPTunnelPort := inst_HTTPPort inst\<rparr> else ic, w')))"

definition generateTorrc :: "'o tor_sys \<Rightarrow> Config \<Rightarrow> Instance \<Rightarrow> 'o \<Rightarrow> (instance_error + string) \<times> 'o" where
  "generateTorrc sys cfg inst w =
     (case buildInstanceConfig sys cfg inst w of (ic, w1) \<Rightarrow>
        (case template_ParseFiles sys ''templates/torrc.gotmpl'' w1 of
           Some err \<Rightarrow> (Inl (ParseTemplate err), w1)
         | None \<Rightarrow>
             (let path = torrc_path cfg inst
              in case os_Create sys path w1 of
                   (Some err, w2) \<Rightarrow> (Inl (CreateTorrc path err), w2)
                 | (None, w2) \<Rightarrow>
                     (case template_Execute sys path ic w2 of
                        (Some err, w3) \<Rightarrow> (Inl (ExecuteTemplate err), w3)
                      | (None, w3) \<Rightarrow> (Inr path, w3)))))"

definition generateDataDir :: "'o tor_sys \<Rightarrow> Config \<Rightarrow> Instance \<Rightarrow> 'o \<Rightarrow> (instance_error + string) \<times> 'o" where
  "generateDataDir sys cfg inst w =
     (let dir = data_dir cfg inst
      in case os_MkdirAll sys dir w of
           (Some err, w') \<Rightarrow> (Inl (MkdirData dir err), w')
         | (None, w') \<Rightarrow> (Inr dir, w'))"

subsection \<open>Starting and stopping\<close>

definition setState :: "State \<Rightarrow> Instance \<Rightarrow> Instance" where
  "setState st inst = inst\<lparr>inst_state := st\<rparr>"

definition Instance_Start ::
  "'o tor_sys \<Rightarrow> Config \<Rightarrow> Instance \<Rightarrow> Manager \<Rightarrow> 'o \<Rightarrow> instance_error option \<times> Instance \<times> Manager \<times> 'o" where
  "Instance_Start sys cfg inst pm w =
     (case generateTorrc sys cfg inst w of
        (Inl err, w1) \<Rightarrow> (Some err, inst, pm, w1)
      | (Inr path, w1) \<Rightarrow>
          (let inst1 = inst\<lparr>torrcPath := path\<rparr>
           in case generateDataDir sys cfg inst1 w1 of
                (Inl err, w2) \<Rightarrow> (Some err, inst1, pm, w2)
              | (Inr dir, w2) \<Rightarrow>
                  (let inst2 = setState StateBootstrapping (inst1\<lparr>dataDir := dir\<rparr>);
                       binary = Tor_BinaryPath (Tor cfg);
                       args = [''-f'', path]
                   in case (case ctx_Err sys w2 of
                              Some e \<Rightarrow> (Spawn (Some e) (processName inst2) binary args (Inl []) pm, w2)
                            | None \<Rightarrow>
                                (case cmd_Start sys binary args w2 of (start, w3) \<Rightarrow>
                                   (Spawn None (processName inst2) binary args start pm, w3))) of
                        ((Inl err, pm'), w3) \<Rightarrow>
                          (Some (SpawnFailed err), setState StateFailed inst2, pm', w3)
                      | ((Inr h, pm'), w3) \<Rightarrow> (None, inst2\<lparr>inst_proc := Some h\<rparr>, pm', w3))))"

text \<open>\<open>Stop\<close> of the process manager returns nil, so \<open>Stop\<close> of an instance does too.\<close>

definition Instance_Stop ::
  "'o tor_sys \<Rightarrow> Instance \<Rightarrow> Manager \<Rightarrow> 'o \<Rightarrow> instance_error option \<times> Instance \<times> Manager \<times> 'o" where
  "Instance_Stop sys inst pm w =
     (let inst1 = (if inst_cancelFunc inst \<noteq> NilCancel then inst\<lparr>inst_cancelFunc := CancelCalled\<rparr> else inst)
      in case inst_proc inst1 of
           None \<Rightarrow> (None, setState StateStarting inst1, pm, w)
         | Some h \<Rightarrow>
             (case cmd_Wait sys h w of (waitErr, w') \<Rightarrow>
                (None, setState StateStarting inst1, Stop (Some h) waitErr pm, w')))"

text \<open>\<open>Wait\<close> blocks, \<open>None\<close>, while the process runs.\<close>

definition Instance_Wait :: "Instance \<Rightarrow> Manager \<Rightarrow> string option option" where
  "Instance_Wait inst pm = (case inst_proc inst of None \<Rightarrow> Some None | Some h \<Rightarrow> Process_Wait pm h)"

subsection \<open>Lifetime of circuits\<close>

text \<open>What \<open>rand.Intn\<close> documents.\<close>

definition Intn_ok :: "'o tor_sys \<Rightarrow> bool" where
  "Intn_ok sys \<longleftrightarrow> (\<forall>n w. 0 < n \<longrightarrow> 0 \<le> fst (rand_Intn sys n w) \<and> fst (rand_Intn sys n w) < n)"

lemma randomizeDirtiness_bounds:
  assumes "Intn_ok sys" and "in_int64 (MaxCircuitDirtiness (Tor cfg))"
  shows "fst (randomizeDirtiness sys cfg w) \<le> MaxCircuitDirtiness (Tor cfg) \<and>
    (10 < MaxCircuitDirtiness (Tor cfg) \<longrightarrow> 10 \<le> fst (randomizeDirtiness sys cfg w) \<and>
       fst (randomizeDirtiness sys cfg w) < MaxCircuitDirtiness (Tor cfg)) \<and>
    (MaxCircuitDirtiness (Tor cfg) \<le> 10 \<longrightarrow>
       fst (randomizeDirtiness sys cfg w) = MaxCircuitDirtiness (Tor cfg))"
proof (cases "MaxCircuitDirtiness (Tor cfg) \<le> 10")
  case False
  let ?m = "MaxCircuitDirtiness (Tor cfg)"
  have sub: "sub64 ?m 10 = ?m - 10"
    using False assms(2) by (intro sub64_id) (simp add: in_int64_def)
  obtain r w' where r: "rand_Intn sys (?m - 10) w = (r, w')" by fastforce
  have "0 \<le> fst (rand_Intn sys (?m - 10) w) \<and> fst (rand_Intn sys (?m - 10) w) < ?m - 10"
    using assms(1) False by (simp add: Intn_ok_def)
  then have "0 \<le> r" "r < ?m - 10" by (simp_all add: r)
  then have "add64 10 r = 10 + r"
    using assms(2) by (intro add64_id) (simp add: in_int64_def)
  with \<open>0 \<le> r\<close> \<open>r < ?m - 10\<close> False r sub show ?thesis
    by (simp add: randomizeDirtiness_def)
qed (simp add: randomizeDirtiness_def)

text \<open>The circuit lifetime written to an instance's \<open>torrc\<close> is the configured maximum if that
  is at most ten seconds, and otherwise a random value of at least ten seconds and below it.\<close>

theorem torrc_dirtiness_bounds:
  assumes "Intn_ok sys" and "in_int64 (MaxCircuitDirtiness (Tor cfg))"
  shows "ic_MaxCircuitDirtiness (fst (buildInstanceConfig sys cfg inst w)) \<in>
    (if MaxCircuitDirtiness (Tor cfg) \<le> 10 then {MaxCircuitDirtiness (Tor cfg)}
     else {10..<MaxCircuitDirtiness (Tor cfg)})"
proof -
  obtain m w' where m: "randomizeDirtiness sys cfg w = (m, w')" by fastforce
  then have "ic_MaxCircuitDirtiness (fst (buildInstanceConfig sys cfg inst w)) = m"
    by (simp add: buildInstanceConfig_def Let_def)
  with randomizeDirtiness_bounds [OF assms, of w] m show ?thesis by simp
qed

definition demo_tor_sys :: "int tor_sys" where
  "demo_tor_sys =
     \<lparr>rand_Intn = (\<lambda>n w. (w mod n, w + 1)), template_ParseFiles = (\<lambda>f w. None),
      os_Create = (\<lambda>p w. (None, w)), template_Execute = (\<lambda>p ic w. (None, w)),
      os_MkdirAll = (\<lambda>p w. (None, w)), ctx_Err = (\<lambda>w. None),
      cmd_Start = (\<lambda>binary args w. (Inr (nat w), w + 1)), cmd_Wait = (\<lambda>h w. (None, w))\<rparr>"

lemma demo_Intn_ok: "Intn_ok demo_tor_sys"
  by (simp add: Intn_ok_def demo_tor_sys_def)

lemma torrc_dirtiness_bounds_witness:
  "ic_MaxCircuitDirtiness
     (fst (buildInstanceConfig demo_tor_sys Defaults (NewInstance 0 ''{DE}'' (Version 0 4 8 17)) 4))
   \<in> {10..<MaxCircuitDirtiness (Tor Defaults)} \<and> 10 < MaxCircuitDirtiness (Tor Defaults)"
  using torrc_dirtiness_bounds [OF demo_Intn_ok, of Defaults]
  by (simp add: Defaults_def in_int64_def)

subsection \<open>Files of an instance\<close>

lemma plain_name_itoa:
  assumes "CHR ''/'' \<notin> set a" and "CHR ''/'' \<notin> set b" and "2 < length a"
  shows "plain_name (a @ itoa i @ b)"
proof -
  have "CHR ''/'' \<notin> set (itoa i)"
    using itoa_chars [of "CHR ''/''" i] by auto
  moreover have "length (a @ itoa i @ b) \<noteq> length ''.''" "length (a @ itoa i @ b) \<noteq> length ''..''"
    using assms(3) by auto
  ultimately show ?thesis
    using assms unfolding plain_name_def by (metis Un_iff append_is_Nil_conv list.size(3) not_less_zero set_append)
qed

lemma plain_data_name: "plain_name (''tor_data_'' @ itoa i)"
  using plain_name_itoa [of "''tor_data_''" "[]" i] by simp

lemma plain_torrc_name: "plain_name (''tor_'' @ itoa i @ ''.cfg'')"
  by (rule plain_name_itoa) simp_all

lemma data_dir_inject: "data_dir cfg i = data_dir cfg j \<longleftrightarrow> inst_ID i = inst_ID j"
  unfolding data_dir_def
  by (subst filepath_Join_inject [OF plain_data_name plain_data_name]) simp

lemma torrc_path_inject: "torrc_path cfg i = torrc_path cfg j \<longleftrightarrow> inst_ID i = inst_ID j"
  unfolding torrc_path_def
  by (subst filepath_Join_inject [OF plain_torrc_name plain_torrc_name]) simp

lemma torrc_not_data: "torrc_path cfg i \<noteq> data_dir cfg j"
proof -
  have "last (''tor_'' @ itoa (inst_ID i) @ ''.cfg'') \<noteq> last (''tor_data_'' @ itoa (inst_ID j))"
  proof -
    have "last (itoa (inst_ID j)) \<in> set (itoa (inst_ID j))" by simp
    then have "is_digit (last (itoa (inst_ID j))) \<or> last (itoa (inst_ID j)) = CHR ''-''"
      by (rule itoa_chars)
    moreover have "\<not> is_digit (CHR ''g'')" by (simp add: is_digit_def)
    ultimately have "last (itoa (inst_ID j)) \<noteq> CHR ''g''" by auto
    then show ?thesis by simp
  qed
  then have "''tor_'' @ itoa (inst_ID i) @ ''.cfg'' \<noteq> ''tor_data_'' @ itoa (inst_ID j)"
    by metis
  then show ?thesis
    unfolding torrc_path_def data_dir_def
    by (subst filepath_Join_inject [OF plain_torrc_name plain_data_name]) simp
qed

subsection \<open>What starting and stopping change\<close>

text \<open>The part of an instance that only its manager sets.\<close>

definition identity :: "Instance \<Rightarrow> int \<times> string \<times> int \<times> int \<times> int \<times> Version" where
  "identity inst = (inst_ID inst, inst_Country inst, inst_SocksPort inst, inst_ControlPort inst,
     inst_HTTPPort inst, inst_version inst)"

lemma Instance_Start_cases:
  assumes "Instance_Start sys cfg inst pm w = (e, inst', pm', w')"
  obtains (files) "e \<noteq> None" and "inst_state inst' = inst_state inst" and "inst_proc inst' = inst_proc inst"
      and "pm' = pm" and "identity inst' = identity inst"
    | (spawn) "e \<noteq> None" and "inst_state inst' = StateFailed" and "inst_proc inst' = inst_proc inst"
      and "pm' = pm" and "identity inst' = identity inst"
    | (ok) p where "e = None" and "inst_state inst' = StateBootstrapping"
      and "inst_proc inst' = Some (length (processes pm))" and "pm' = add p pm"
      and "proc_Name p = processName inst" and "proc_Path p = Tor_BinaryPath (Tor cfg)"
      and "proc_Args p = [''-f'', torrc_path cfg inst]"
      and "pstate p = P_StateRunning" and "\<not> done_closed p"
      and "torrcPath inst' = torrc_path cfg inst" and "dataDir inst' = data_dir cfg inst"
      and "identity inst' = identity inst"
proof -
  obtain r1 w1 where g: "generateTorrc sys cfg inst w = (r1, w1)" by fastforce
  show thesis
  proof (cases r1)
    case (Inl err)
    with g assms show thesis
      by (intro files) (auto simp: Instance_Start_def)
  next
    case (Inr path)
    have path: "path = torrc_path cfg inst"
      using g Inr by (auto simp: generateTorrc_def Let_def split: prod.splits option.splits)
    let ?i1 = "inst\<lparr>torrcPath := path\<rparr>"
    obtain r2 w2 where d: "generateDataDir sys cfg ?i1 w1 = (r2, w2)" by fastforce
    show thesis
    proof (cases r2)
      case (Inl err)
      with g Inr d assms show thesis
        by (intro files) (auto simp: Instance_Start_def identity_def)
    next
      case dir: (Inr dir)
      have "dir = data_dir cfg inst"
        using d dir by (auto simp: generateDataDir_def data_dir_def Let_def split: prod.splits option.splits)
      note run = assms [unfolded Instance_Start_def g Inr prod.case sum.case Let_def d dir]
      let ?p = "\<lambda>pid. \<lparr>proc_Name = processName inst, proc_Path = Tor_BinaryPath (Tor cfg),
        proc_Args = [''-f'', path], proc_pid = pid, pstate = P_StateRunning, done_closed = False,
        proc_wait = None\<rparr>"
      note facts = identity_def setState_def Spawn_def processName_def
      show thesis
      proof (cases "ctx_Err sys w2")
        case (Some err)
        with run show thesis by (intro spawn) (auto simp: facts)
      next
        case None
        obtain st w3 where st: "cmd_Start sys (Tor_BinaryPath (Tor cfg)) [''-f'', path] w2 = (st, w3)"
          by fastforce
        show thesis
        proof (cases st)
          case (Inl err)
          with run None st show thesis by (intro spawn) (auto simp: facts)
        next
          case (Inr pid)
          with run None st path \<open>dir = data_dir cfg inst\<close> show thesis
            by (intro ok [of "?p pid"]) (auto simp: facts)
        qed
      qed
    qed
  qed
qed

end
