(* ===== verification/Country_Selector.thy ===== *)
theory Country_Selector
  imports Config_Types
begin

section \<open>Choosing countries (internal/country/selector.go)\<close>

text \<open>
  \<open>SelectRandom\<close> filters the accepted countries by the blacklist, shuffles a copy and keeps a
  prefix. The shuffle is a parameter of \<open>selectRandom\<close> in the code too: here it is the list
  of index pairs it swaps. \<open>None\<close> is the run-time panic of an index out of range.
\<close>

datatype country_error =
    NotEnoughCountries int nat
  | NoAlternative string

text \<open>The two loops of \<open>filterBlacklisted\<close>: filling the set, then keeping what is not in it.\<close>

definition blacklist_map :: "string list \<Rightarrow> string \<Rightarrow> bool" where
  "blacklist_map blacklisted = foldl (\<lambda>m c. m(c := True)) (\<lambda>c. False) blacklisted"

definition filterBlacklisted :: "string list \<Rightarrow> string list \<Rightarrow> string list" where
  "filterBlacklisted accepted blacklisted =
     (if length blacklisted = 0 then accepted
      else (let blacklist = blacklist_map blacklisted
            in foldl (\<lambda>filtered c. if \<not> blacklist c then filtered @ [c] else filtered) [] accepted))"

definition selectRandom ::
  "string list \<Rightarrow> string list \<Rightarrow> int \<Rightarrow> (nat \<times> nat) list \<Rightarrow> (country_error + string list) option" where
  "selectRandom accepted blacklisted n shuffle =
     (let filtered = filterBlacklisted accepted blacklisted
      in if int (length filtered) < n then Some (Inl (NotEnoughCountries n (length filtered)))
         else if n \<le> 0 then Some (Inr [])
         else (case apply_swaps filtered shuffle of
                 None \<Rightarrow> None
               | Some result \<Rightarrow> Some (Inr (take (nat n) result))))"

definition SelectRandom ::
  "string list \<Rightarrow> string list \<Rightarrow> int \<Rightarrow> (nat \<times> nat) list \<Rightarrow> (country_error + string list) option" where
  "SelectRandom accepted blacklisted n rand_shuffle = selectRandom accepted blacklisted n rand_shuffle"

lemma foldl_update_True: "foldl (\<lambda>m c. m(c := True)) m cs x \<longleftrightarrow> m x \<or> x \<in> set cs"
  by (induction cs arbitrary: m) auto

lemma blacklist_map_iff [simp]: "blacklist_map cs x \<longleftrightarrow> x \<in> set cs"
  by (simp add: blacklist_map_def foldl_update_True)

lemma foldl_append_filter:
  "foldl (\<lambda>acc c. if P c then acc @ [c] else acc) acc cs = acc @ filter P cs"
  by (induction cs arbitrary: acc) auto

lemma filterBlacklisted_filter:
  "filterBlacklisted accepted blacklisted = filter (\<lambda>c. c \<notin> set blacklisted) accepted"
  by (simp add: filterBlacklisted_def foldl_append_filter)

lemma set_filterBlacklisted [simp]:
  "set (filterBlacklisted accepted blacklisted) = set accepted - set blacklisted"
  by (auto simp: filterBlacklisted_filter)

text \<open>The countries that may be used: accepted ones that are not blacklisted.\<close>

definition allowed :: "string list \<Rightarrow> string list \<Rightarrow> string list" where
  "allowed accepted blacklisted = filter (\<lambda>c. c \<notin> set blacklisted) accepted"

lemma mset_take_subset: "mset (take k xs) \<subseteq># mset xs"
  by (metis append_take_drop_id mset_append mset_subset_eq_add_left)

text \<open>A selection that succeeds, whatever the shuffle.\<close>

lemma selectRandom_Inr:
  assumes "selectRandom accepted blacklisted n shuffle = Some (Inr cs)"
  shows "length cs = nat n \<and> set cs \<subseteq> set accepted - set blacklisted"
proof (cases "n \<le> 0")
  case False
  with assms obtain r where r: "apply_swaps (filterBlacklisted accepted blacklisted) shuffle = Some r"
    and cs: "cs = take (nat n) r" and "n \<le> int (length (filterBlacklisted accepted blacklisted))"
    by (auto simp: selectRandom_def Let_def split: if_splits option.splits)
  then show ?thesis
    using apply_swaps_length [OF r] apply_swaps_set [OF r] set_take_subset [of "nat n" r] by auto
qed (use assms in \<open>auto simp: selectRandom_def Let_def split: if_splits\<close>)

text \<open>C31. A selection fails exactly when fewer allowed countries exist than are asked for;
  otherwise it has the requested number of entries, each taken from an entry of the accepted
  list of its own and none blacklisted, and it never panics on a shuffle of the documented kind.\<close>

theorem selectRandom_correct:
  assumes "swaps_in_range (length (allowed accepted blacklisted)) shuffle"
  shows "case selectRandom accepted blacklisted n shuffle of
           None \<Rightarrow> False
         | Some (Inl e) \<Rightarrow> int (length (allowed accepted blacklisted)) < n
         | Some (Inr cs) \<Rightarrow> n \<le> int (length (allowed accepted blacklisted)) \<and> length cs = nat n \<and>
             mset cs \<subseteq># mset (allowed accepted blacklisted) \<and>
             set cs \<subseteq> set accepted - set blacklisted"
proof -
  let ?f = "filterBlacklisted accepted blacklisted"
  have f: "allowed accepted blacklisted = ?f"
    by (simp add: allowed_def filterBlacklisted_filter)
  obtain r where r: "apply_swaps ?f shuffle = Some r"
    using apply_swaps_total assms f by metis
  have "mset (take (nat n) r) \<subseteq># mset ?f"
    using mset_take_subset [of "nat n" r] apply_swaps_mset [OF r] by simp
  moreover have "set (take (nat n) r) \<subseteq> set accepted - set blacklisted"
    using set_take_subset [of "nat n" r] apply_swaps_set [OF r] by simp
  ultimately show ?thesis
    using apply_swaps_length [OF r] by (simp add: selectRandom_def f r Let_def)
qed

lemma selectRandom_correct_witness:
  "swaps_in_range 3 [(2, 0), (1, 1)] \<and>
   selectRandom [''{DE}'', ''{US}'', ''{FR}'', ''{SE}''] [''{US}''] 2 [(2, 0), (1, 1)] =
     Some (Inr [''{SE}'', ''{FR}'']) \<and>
   set [''{SE}'', ''{FR}''] \<subseteq> set [''{DE}'', ''{US}'', ''{FR}'', ''{SE}''] - set [''{US}'']"
proof -
  have run: "selectRandom [''{DE}'', ''{US}'', ''{FR}'', ''{SE}''] [''{US}''] 2 [(2, 0), (1, 1)] =
     Some (Inr [''{SE}'', ''{FR}''])"
    by (simp add: selectRandom_def filterBlacklisted_def blacklist_map_def Let_def numeral_2_eq_2)
  have range: "swaps_in_range 3 [(2, 0), (1, 1)]"
    by (simp add: swaps_in_range_def)
  have three: "length (allowed [''{DE}'', ''{US}'', ''{FR}'', ''{SE}''] [''{US}'']) = 3"
    by (simp add: allowed_def)
  from selectRandom_correct [of "[''{DE}'', ''{US}'', ''{FR}'', ''{SE}'']" "[''{US}'']"
      "[(2, 0), (1, 1)]" 2, unfolded three, OF range] range run
  show ?thesis by simp
qed

end
