(* ===== verification/Country_Daemon.thy ===== *)
theory Country_Daemon
  imports Country_Selector
begin

section \<open>The country rotation daemon (internal/country/daemon.go)\<close>

text \<open>
  The daemon rotates instances through an interface, \<open>InstanceRotator\<close>: a query and an
  operation on a world \<open>'w\<close> it does not know. \<open>rotateOnce\<close> is one cycle: it takes a random
  choice of instances and moves each to another allowed country. The locale
  \<open>instance_rotator\<close> states what the daemon relies on, and the lemmas on a whole cycle are
  proved inside it. \<open>None\<close> is a run-time panic; the random draws are parameters.
\<close>

record InstanceInfo =
  info_ID :: int
  info_Country :: string

text \<open>\<open>InstanceRotator\<close>: the world is handed on, an error is a value.\<close>

record ('w, 'e) InstanceRotator =
  GetInstances :: "'w \<Rightarrow> InstanceInfo list"
  RotateInstance :: "int \<Rightarrow> string \<Rightarrow> 'w \<Rightarrow> 'e option \<times> 'w"

text \<open>
  Durations are counts of nanoseconds in 64 bits.
\<close>

definition second :: int where
  "second = 1000000000"

definition maxJitter :: int where
  "maxJitter = 30 * second"

text \<open>The channel \<open>done\<close> of the daemon.\<close>

datatype done_chan = NilChan | OpenChan | ClosedChan

record Daemon =
  daemon_cfg :: Config
  baseInterval :: int
  cancel_set :: bool
  cancelled :: bool
  daemon_done :: done_chan
  started :: bool
  run_alive :: bool

definition rotation_interval :: "Config \<Rightarrow> int" where
  "rotation_interval cfg = mul64 (Rotation_Interval (Rotation (Country cfg))) second"

definition NewDaemon :: "Config \<Rightarrow> Daemon" where
  "NewDaemon cfg =
     \<lparr>daemon_cfg = cfg, baseInterval = rotation_interval cfg, cancel_set = False, cancelled = False,
      daemon_done = NilChan, started = False, run_alive = False\<rparr>"

definition UpdateConfig :: "Config \<Rightarrow> Daemon \<Rightarrow> Daemon" where
  "UpdateConfig cfg d = d\<lparr>daemon_cfg := cfg, baseInterval := rotation_interval cfg\<rparr>"

text \<open>\<open>nextInterval\<close>; \<open>r\<close> is what \<open>rand.Int64N (maxJitter)\<close> returns.\<close>

definition nextInterval :: "Daemon \<Rightarrow> int \<Rightarrow> int" where
  "nextInterval d r = add64 (baseInterval d) r"

text \<open>
  \<open>pickDifferentCountry\<close>; \<open>draw n\<close> is what \<open>rand.IntN (n)\<close> returns.
\<close>

definition pickDifferentCountry ::
  "string \<Rightarrow> string list \<Rightarrow> string list \<Rightarrow> (nat \<Rightarrow> nat) \<Rightarrow> (country_error + string) option" where
  "pickDifferentCountry current accepted blacklisted draw =
     (let filtered = filterBlacklisted accepted blacklisted;
          candidates = foldl (\<lambda>cs c. if c \<noteq> current then cs @ [c] else cs) [] filtered
      in if length candidates = 0 then Some (Inl (NoAlternative current))
         else if draw (length candidates) < length candidates
         then Some (Inr (candidates ! draw (length candidates))) else None)"

text \<open>The loop of \<open>rotateOnce\<close> over the chosen indices; \<open>draws k\<close> serves its turn \<open>k\<close>.\<close>

fun rotate_loop ::
  "('w, 'e) InstanceRotator \<Rightarrow> InstanceInfo list \<Rightarrow> string list \<Rightarrow> string list
    \<Rightarrow> nat list \<Rightarrow> (nat \<Rightarrow> nat \<Rightarrow> nat) \<Rightarrow> nat \<Rightarrow> 'w \<Rightarrow> 'w option" where
  "rotate_loop rot insts accepted blacklisted [] draws k w = Some w"
| "rotate_loop rot insts accepted blacklisted (idx # idxs) draws k w =
     (if length insts \<le> idx then None
      else (let inst = insts ! idx
            in case pickDifferentCountry (info_Country inst) accepted blacklisted (draws k) of
                 None \<Rightarrow> None
               | Some (Inl e) \<Rightarrow> rotate_loop rot insts accepted blacklisted idxs draws (Suc k) w
               | Some (Inr newCountry) \<Rightarrow>
                   (case RotateInstance rot (info_ID inst) newCountry w of
                      (err, w') \<Rightarrow> rotate_loop rot insts accepted blacklisted idxs draws (Suc k) w')))"

definition rotateOnce ::
  "('w, 'e) InstanceRotator \<Rightarrow> Config \<Rightarrow> (nat \<times> nat) list \<Rightarrow> (nat \<Rightarrow> nat \<Rightarrow> nat) \<Rightarrow> 'w \<Rightarrow> 'w option" where
  "rotateOnce rot cfg shuffle draws w =
     (let instances = GetInstances rot w;
          totalToChange = TotalToChange (Rotation (Country cfg));
          accepted = Accepted (Country cfg);
          blacklisted = Blacklisted (Country cfg)
      in if length instances = 0 then Some w
         else if totalToChange \<le> 0 then Some w
         else (let total = (if int (length instances) < totalToChange
                              then int (length instances) else totalToChange)
               in case apply_swaps [0..<length instances] shuffle of
                    None \<Rightarrow> None
                  | Some indices \<Rightarrow>
                      rotate_loop rot instances accepted blacklisted (take (nat total) indices)
                        draws 0 w))"

text \<open>What every rotation keeps, a cycle keeps.\<close>

lemma rotate_loop_keeps:
  assumes "\<And>n c w. I w \<Longrightarrow> I (snd (RotateInstance rot n c w))" and "I w"
    and "rotate_loop rot insts accepted blacklisted idxs draws k w = Some w'"
  shows "I w'"
  using assms(2,3)
proof (induction idxs arbitrary: w k)
  case (Cons i idxs)
  have keep: "RotateInstance rot n c u = (e, v) \<Longrightarrow> I u \<Longrightarrow> I v" for n c u e v
    using assms(1) by (metis snd_conv)
  with Cons show ?case
    by (auto simp: Let_def dest: keep split: if_splits option.splits sum.splits prod.splits)
qed simp

lemma rotateOnce_keeps:
  assumes "\<And>n c w. I w \<Longrightarrow> I (snd (RotateInstance rot n c w))" and "I w"
    and "rotateOnce rot cfg shuffle draws w = Some w'"
  shows "I w'"
  using assms(2,3) rotate_loop_keeps [where I = I, OF assms(1,2)]
  by (auto simp: rotateOnce_def Let_def split: if_splits option.splits)

subsection \<open>Picking a country\<close>

text \<open>What \<open>rand.IntN\<close> documents.\<close>

definition draws_in_range :: "(nat \<Rightarrow> nat \<Rightarrow> nat) \<Rightarrow> bool" where
  "draws_in_range draws \<longleftrightarrow> (\<forall>k n. 0 < n \<longrightarrow> draws k n < n)"

lemma pickDifferentCountry_candidates:
  "foldl (\<lambda>cs c. if c \<noteq> current then cs @ [c] else cs) [] (filterBlacklisted accepted blacklisted)
     = filter (\<lambda>c. c \<noteq> current) (allowed accepted blacklisted)"
  by (simp add: foldl_append_filter [where acc = "[]", simplified] filterBlacklisted_filter allowed_def)

lemma pickDifferentCountry_cases:
  assumes "\<forall>n. 0 < n \<longrightarrow> draw n < n"
  obtains (none) e where "pickDifferentCountry cur accepted blacklisted draw = Some (Inl e)"
      and "set (allowed accepted blacklisted) \<subseteq> {cur}"
    | (some) c where "pickDifferentCountry cur accepted blacklisted draw = Some (Inr c)"
      and "c \<in> set accepted - set blacklisted" and "c \<noteq> cur"
proof -
  let ?cs = "filter (\<lambda>c. c \<noteq> cur) (allowed accepted blacklisted)"
  show thesis
  proof (cases "?cs = []")
    case True
    then show thesis
      by (intro none [of "NoAlternative cur"])
         (auto simp: pickDifferentCountry_def pickDifferentCountry_candidates filter_empty_conv)
  next
    case False
    then have d: "draw (length ?cs) < length ?cs" using assms by simp
    then have "?cs ! draw (length ?cs) \<in> set ?cs" by (rule nth_mem)
    then have "?cs ! draw (length ?cs) \<in> set accepted - set blacklisted"
      and "?cs ! draw (length ?cs) \<noteq> cur"
      by (simp_all add: allowed_def)
    then show thesis
      using False d
      by (intro some [of "?cs ! draw (length ?cs)"])
         (simp_all add: pickDifferentCountry_def pickDifferentCountry_candidates Let_def)
  qed
qed

subsection \<open>What a cycle does, given what a rotator promises\<close>

text \<open>
  The effect of a cycle: the instances keep their identities and positions, at most
  \<open>limit\<close> of them are in another country, and each of those is now in an accepted,
  not blacklisted country other than its old one.
\<close>

definition changed :: "InstanceInfo list \<Rightarrow> InstanceInfo list \<Rightarrow> nat set" where
  "changed before after = {i. i < length before \<and> after ! i \<noteq> before ! i}"

definition cycle_effect :: "Config \<Rightarrow> InstanceInfo list \<Rightarrow> InstanceInfo list \<Rightarrow> bool" where
  "cycle_effect cfg before after \<longleftrightarrow>
     map info_ID after = map info_ID before \<and>
     int (card (changed before after)) \<le> max 0 (TotalToChange (Rotation (Country cfg))) \<and>
     (\<forall>i \<in> changed before after.
        info_Country (after ! i) \<in> set (Accepted (Country cfg)) - set (Blacklisted (Country cfg)) \<and>
        info_Country (after ! i) \<noteq> info_Country (before ! i))"

locale instance_rotator =
  fixes rot :: "('w, 'e) InstanceRotator"
  assumes keeps_ids: "RotateInstance rot n c w = (e, w') \<Longrightarrow>
      map info_ID (GetInstances rot w') = map info_ID (GetInstances rot w)"
    and keeps_others: "\<lbrakk>RotateInstance rot n c w = (e, w'); i < length (GetInstances rot w);
      info_ID (GetInstances rot w ! i) \<noteq> n\<rbrakk> \<Longrightarrow> GetInstances rot w' ! i = GetInstances rot w ! i"
    and moves: "\<lbrakk>RotateInstance rot n c w = (e, w'); i < length (GetInstances rot w);
      info_ID (GetInstances rot w ! i) = n; distinct (map info_ID (GetInstances rot w))\<rbrakk>
      \<Longrightarrow> info_Country (GetInstances rot w' ! i) = c \<or>
          e \<noteq> None \<and> GetInstances rot w' ! i = GetInstances rot w ! i"
begin

text \<open>The state of a cycle that has still the instances at \<open>idxs\<close> to visit.\<close>

definition pending :: "InstanceInfo list \<Rightarrow> nat list \<Rightarrow> 'w \<Rightarrow> bool" where
  "pending before idxs w \<longleftrightarrow>
     map info_ID (GetInstances rot w) = map info_ID before \<and>
     (\<forall>i \<in> set idxs. GetInstances rot w ! i = before ! i)"

lemma rotated_one:
  assumes r: "RotateInstance rot (info_ID (before ! i)) c w = (e, v)" and "distinct (map info_ID before)"
    and p: "pending before (i # idxs) w" and "distinct (i # idxs)"
  shows "i < length before \<Longrightarrow> j < length before \<Longrightarrow> j \<noteq> i \<Longrightarrow> GetInstances rot v ! j = GetInstances rot w ! j"
    and "\<forall>j \<in> set (i # idxs). j < length before \<Longrightarrow>
      GetInstances rot v ! i = before ! i \<or> info_Country (GetInstances rot v ! i) = c"
    and "\<forall>j \<in> set (i # idxs). j < length before \<Longrightarrow> pending before idxs v"
proof -
  have ids: "map info_ID (GetInstances rot w) = map info_ID before"
    and here: "GetInstances rot w ! i = before ! i" using p by (simp_all add: pending_def)
  then have len: "length (GetInstances rot w) = length before"
    by (metis length_map)
  have other: "GetInstances rot v ! j = GetInstances rot w ! j"
    if "i < length before" "j < length before" "j \<noteq> i" for j
  proof -
    have "map info_ID before ! j \<noteq> map info_ID before ! i"
      using assms(2) that by (metis length_map nth_eq_iff_index_eq)
    then have "info_ID (GetInstances rot w ! j) \<noteq> info_ID (before ! i)"
      using ids that len by (metis nth_map)
    with keeps_others [OF r] that len show ?thesis by simp
  qed
  then show "i < length before \<Longrightarrow> j < length before \<Longrightarrow> j \<noteq> i \<Longrightarrow> GetInstances rot v ! j = GetInstances rot w ! j"
    by blast
  assume all: "\<forall>j \<in> set (i # idxs). j < length before"
  then show "GetInstances rot v ! i = before ! i \<or> info_Country (GetInstances rot v ! i) = c"
    using moves [OF r, of i] len ids assms(2) here by auto
  have "GetInstances rot v ! j = before ! j" if "j \<in> set idxs" for j
    using that all assms(4) other [of j] p by (auto simp: pending_def)
  then show "pending before idxs v"
    using keeps_ids [OF r] ids by (simp add: pending_def)
qed

lemma rotate_loop_effect:
  assumes "draws_in_range draws" and "distinct (map info_ID before)"
    and "distinct idxs" and "\<forall>i \<in> set idxs. i < length before" and "pending before idxs w"
  shows "\<exists>w'. rotate_loop rot before accepted blacklisted idxs draws k w = Some w' \<and>
     map info_ID (GetInstances rot w') = map info_ID before \<and>
     (\<forall>i < length before. i \<notin> set idxs \<longrightarrow> GetInstances rot w' ! i = GetInstances rot w ! i) \<and>
     (\<forall>i \<in> set idxs. GetInstances rot w' ! i = before ! i \<or>
        info_Country (GetInstances rot w' ! i) \<in> set accepted - set blacklisted - {info_Country (before ! i)})"
  using assms(3-)
proof (induction idxs arbitrary: w k)
  case Nil
  then show ?case by (simp add: pending_def)
next
  case (Cons i idxs)
  have i: "i < length before" and ids: "map info_ID (GetInstances rot w) = map info_ID before"
    and here: "GetInstances rot w ! i = before ! i"
    using Cons.prems by (simp_all add: pending_def)
  have draw: "\<forall>n. 0 < n \<longrightarrow> draws k n < n"
    using assms(1) by (simp add: draws_in_range_def)
  show ?case
  proof (cases rule: pickDifferentCountry_cases
      [OF draw, of "info_Country (before ! i)" accepted blacklisted, case_names none some])
    case (none e)
    then show ?thesis
      using Cons.IH [of w "Suc k"] Cons.prems i here by (auto simp: pending_def)
  next
    case (some c)
    obtain e v where r: "RotateInstance rot (info_ID (before ! i)) c w = (e, v)" by fastforce
    note here_rot = rotated_one [OF r assms(2) Cons.prems(3) Cons.prems(1)]
    have other: "GetInstances rot v ! j = GetInstances rot w ! j" if "j < length before" "j \<noteq> i" for j
      using here_rot(1) that i by blast
    have now: "GetInstances rot v ! i = before ! i \<or> info_Country (GetInstances rot v ! i) = c"
      and "pending before idxs v"
      using here_rot(2,3) Cons.prems(2) by simp_all
    with Cons.IH [of v "Suc k"] Cons.prems obtain w' where
      run: "rotate_loop rot before accepted blacklisted idxs draws (Suc k) v = Some w'"
      and w'_ids: "map info_ID (GetInstances rot w') = map info_ID before"
      and frame: "\<forall>j < length before. j \<notin> set idxs \<longrightarrow> GetInstances rot w' ! j = GetInstances rot v ! j"
      and eff: "\<forall>j \<in> set idxs. GetInstances rot w' ! j = before ! j \<or>
        info_Country (GetInstances rot w' ! j) \<in> set accepted - set blacklisted - {info_Country (before ! j)}"
      by auto
    have "GetInstances rot w' ! i = GetInstances rot v ! i"
      using frame i Cons.prems by simp
    with now some have "GetInstances rot w' ! i = before ! i \<or>
        info_Country (GetInstances rot w' ! i) \<in> set accepted - set blacklisted - {info_Country (before ! i)}"
      by auto
    moreover have "rotate_loop rot before accepted blacklisted (i # idxs) draws k w = Some w'"
      using i some r run by simp
    ultimately show ?thesis
      using w'_ids frame eff other by auto
  qed
qed

lemma rotateOnce_effect:
  assumes "draws_in_range draws" and "swaps_in_range (length (GetInstances rot w)) shuffle"
    and "distinct (map info_ID (GetInstances rot w))"
  shows "\<exists>w'. rotateOnce rot cfg shuffle draws w = Some w' \<and>
     cycle_effect cfg (GetInstances rot w) (GetInstances rot w')"
proof -
  let ?before = "GetInstances rot w" and ?t = "TotalToChange (Rotation (Country cfg))"
  consider (idle) "?before = [] \<or> ?t \<le> 0" | (busy) "?before \<noteq> []" "0 < ?t" by linarith
  then show ?thesis
  proof cases
    case idle
    then show ?thesis
      by (auto simp: rotateOnce_def cycle_effect_def changed_def Let_def)
  next
    case busy
    let ?total = "if int (length ?before) < ?t then int (length ?before) else ?t"
    obtain indices where perm: "apply_swaps [0..<length ?before] shuffle = Some indices"
      using apply_swaps_total [of "[0..<length ?before]"] assms(2) by auto
    let ?idxs = "take (nat ?total) indices"
    have "distinct indices" and "set indices = {0..<length ?before}"
      using apply_swaps_facts(3,4) [OF perm] by simp_all
    then have d: "distinct ?idxs"
      by simp
    from \<open>set indices = _\<close> have inside: "\<forall>i \<in> set ?idxs. i < length ?before"
      by (metis atLeastLessThan_iff in_set_takeD)
    have "pending ?before ?idxs w" by (simp add: pending_def)
    from rotate_loop_effect [OF assms(1,3) d inside this, of "Accepted (Country cfg)"
        "Blacklisted (Country cfg)" 0] obtain w' where
      run: "rotate_loop rot ?before (Accepted (Country cfg)) (Blacklisted (Country cfg)) ?idxs draws 0 w = Some w'"
      and ids: "map info_ID (GetInstances rot w') = map info_ID ?before"
      and frame: "\<forall>i < length ?before. i \<notin> set ?idxs \<longrightarrow> GetInstances rot w' ! i = ?before ! i"
      and eff: "\<forall>i \<in> set ?idxs. GetInstances rot w' ! i = ?before ! i \<or>
        info_Country (GetInstances rot w' ! i) \<in> set (Accepted (Country cfg)) - set (Blacklisted (Country cfg)) - {info_Country (?before ! i)}"
      by blast
    have sub: "changed ?before (GetInstances rot w') \<subseteq> set ?idxs"
      using frame by (auto simp: changed_def)
    have "card (changed ?before (GetInstances rot w')) \<le> length ?idxs"
      by (meson sub card_length card_mono List.finite_set le_trans)
    also have "\<dots> \<le> nat ?t" using busy by auto
    finally have "int (card (changed ?before (GetInstances rot w'))) \<le> max 0 ?t" by linarith
    moreover have "info_Country (GetInstances rot w' ! i) \<in> set (Accepted (Country cfg)) - set (Blacklisted (Country cfg)) \<and>
        info_Country (GetInstances rot w' ! i) \<noteq> info_Country (?before ! i)"
      if "i \<in> changed ?before (GetInstances rot w')" for i
      using that sub eff by (auto simp: changed_def)
    ultimately have "cycle_effect cfg ?before (GetInstances rot w')"
      using ids by (simp add: cycle_effect_def)
    moreover have "rotateOnce rot cfg shuffle draws w = Some w'"
      using busy perm run by (simp add: rotateOnce_def Let_def)
    ultimately show ?thesis by blast
  qed
qed

end

subsection \<open>The interval between cycles\<close>

text \<open>For an interval that is at most a century, the daemon waits at least the configured
  interval before a cycle and less than thirty seconds longer, also after a change of the
  configuration.\<close>

theorem nextInterval_bounds:
  assumes "0 \<le> Rotation_Interval (Rotation (Country cfg))"
    and "Rotation_Interval (Rotation (Country cfg)) \<le> 100 * 366 * 86400"
    and "0 \<le> r" and "r < maxJitter"
  shows "Rotation_Interval (Rotation (Country cfg)) * second \<le> nextInterval (UpdateConfig cfg d) r \<and>
    nextInterval (UpdateConfig cfg d) r < Rotation_Interval (Rotation (Country cfg)) * second + 30 * second \<and>
    nextInterval (NewDaemon cfg) r = nextInterval (UpdateConfig cfg d) r"
proof -
  have "nextInterval (UpdateConfig cfg d) r = Rotation_Interval (Rotation (Country cfg)) * second + r"
    using assms by (simp add: nextInterval_def UpdateConfig_def rotation_interval_def second_def
        maxJitter_def go_int in_int64_def)
  moreover have "nextInterval (NewDaemon cfg) r = nextInterval (UpdateConfig cfg d) r"
    by (simp add: nextInterval_def UpdateConfig_def NewDaemon_def)
  ultimately show ?thesis
    using assms by (simp add: maxJitter_def)
qed

lemma nextInterval_bounds_witness:
  "Rotation_Interval (Rotation (Country Defaults)) = 120 \<and>
   120 * second \<le> nextInterval (UpdateConfig Defaults (NewDaemon Defaults)) 7"
  using nextInterval_bounds [of Defaults 7 "NewDaemon Defaults"]
  by (simp add: Defaults_def second_def maxJitter_def)

subsection \<open>Starting and stopping the daemon\<close>

text \<open>
  \<open>Start\<close>, the goroutine \<open>run\<close> and \<open>Stop\<close> share the daemon's channel \<open>done\<close> and its
  context, which is done as soon as its parent is or \<open>cancelFunc\<close> has been called. Closing a channel that is nil or closed is a panic, \<open>None\<close>. \<open>Stop\<close> is its request
  followed by a wait, over when \<open>Stop_returns\<close> holds.
\<close>

fun close_chan :: "done_chan \<Rightarrow> done_chan option" where
  "close_chan OpenChan = Some ClosedChan"
| "close_chan _ = None"

definition Start :: "Daemon \<Rightarrow> Daemon option" where
  "Start d =
     (let d1 = d\<lparr>daemon_done := OpenChan, started := True\<rparr>
      in if \<not> Rotation_Enabled (Rotation (Country (daemon_cfg d1)))
         then (case close_chan (daemon_done d1) of
                 None \<Rightarrow> None | Some c \<Rightarrow> Some (d1\<lparr>daemon_done := c\<rparr>))
         else Some (d1\<lparr>cancel_set := True, run_alive := True\<rparr>))"

definition Stop_request :: "Daemon \<Rightarrow> Daemon" where
  "Stop_request d =
     (if \<not> started d then d else if cancel_set d then d\<lparr>cancelled := True\<rparr> else d)"

definition Stop_returns :: "Daemon \<Rightarrow> bool" where
  "Stop_returns d \<longleftrightarrow> \<not> started d \<or> daemon_done d = ClosedChan"

text \<open>\<open>run\<close> leaves its loop and runs its deferred \<open>close\<close>.\<close>

definition run_exit :: "Daemon \<Rightarrow> Daemon option" where
  "run_exit d = (case close_chan (daemon_done d) of
     None \<Rightarrow> None | Some c \<Rightarrow> Some (d\<lparr>daemon_done := c, run_alive := False\<rparr>))"

datatype daemon_event = EvStart | EvStop | EvParentDone | EvUpdate Config | EvCycle | EvExit

text \<open>The select of \<open>run\<close> may take the timer although the context is done: a cycle needs only
  a live goroutine. The program calls \<open>Start\<close> once.\<close>

inductive daemon_step :: "Daemon \<Rightarrow> daemon_event \<Rightarrow> Daemon \<Rightarrow> bool" where
  start: "\<lbrakk>\<not> started d; Start d = Some d'\<rbrakk> \<Longrightarrow> daemon_step d EvStart d'"
| stop: "daemon_step d EvStop (Stop_request d)"
| parent: "daemon_step d EvParentDone (d\<lparr>cancelled := True\<rparr>)"
| update: "daemon_step d (EvUpdate cfg) (UpdateConfig cfg d)"
| cycle: "run_alive d \<Longrightarrow> daemon_step d EvCycle d"
| exit: "\<lbrakk>run_alive d; cancelled d; run_exit d = Some d'\<rbrakk> \<Longrightarrow> daemon_step d EvExit d'"

inductive daemon_reach :: "Config \<Rightarrow> Daemon \<Rightarrow> bool" for cfg where
  new: "daemon_reach cfg (NewDaemon cfg)"
| step: "\<lbrakk>daemon_reach cfg d; daemon_step d ev d'\<rbrakk> \<Longrightarrow> daemon_reach cfg d'"

definition daemon_inv :: "Daemon \<Rightarrow> bool" where
  "daemon_inv d \<longleftrightarrow>
     (if started d then daemon_done d = (if run_alive d then OpenChan else ClosedChan)
      else daemon_done d = NilChan \<and> \<not> run_alive d \<and> \<not> cancel_set d) \<and>
     (run_alive d \<longrightarrow> cancel_set d)"

lemma daemon_step_inv: "daemon_step d ev d' \<Longrightarrow> daemon_inv d \<Longrightarrow> daemon_inv d'"
proof (induction rule: daemon_step.induct)
  case (start d d')
  then show ?case
    by (auto simp: Start_def daemon_inv_def Let_def split: if_splits)
next
  case (exit d d')
  then show ?case
    by (auto simp: run_exit_def daemon_inv_def split: if_splits)
qed (auto simp: daemon_inv_def Stop_request_def UpdateConfig_def split: if_splits)

lemma daemon_reach_inv: "daemon_reach cfg d \<Longrightarrow> daemon_inv d"
proof (induction rule: daemon_reach.induct)
  case new
  show ?case by (simp add: daemon_inv_def NewDaemon_def)
qed (rule daemon_step_inv)

text \<open>C27. In every state the daemon can reach, starting it and leaving its loop never close a
  channel twice, once \<open>Stop\<close> has returned no cycle can run, and after the request of \<open>Stop\<close> it
  returns at once or as soon as the goroutine takes the exit that is then open to it.\<close>

theorem daemon_stop_clean:
  assumes "daemon_reach cfg d"
  shows "(run_alive d \<longrightarrow> run_exit d \<noteq> None) \<and> Start d \<noteq> None \<and>
    (Stop_returns d \<longrightarrow> \<not> (\<exists>d'. daemon_step d EvCycle d')) \<and>
    (Stop_returns (Stop_request d) \<or>
     (\<exists>d'. daemon_step (Stop_request d) EvExit d' \<and> Stop_returns d'))"
proof -
  have inv: "daemon_inv d" using assms by (rule daemon_reach_inv)
  then have "run_alive d \<longrightarrow> run_exit d \<noteq> None"
    by (auto simp: run_exit_def daemon_inv_def split: if_splits)
  moreover have "Start d \<noteq> None"
    by (simp add: Start_def Let_def)
  moreover have "Stop_returns d \<longrightarrow> \<not> (\<exists>d'. daemon_step d EvCycle d')"
    using inv by (auto simp: Stop_returns_def daemon_inv_def elim: daemon_step.cases split: if_splits)
  moreover have "Stop_returns (Stop_request d) \<or>
     (\<exists>d'. daemon_step (Stop_request d) EvExit d' \<and> Stop_returns d')"
  proof (cases "run_alive d")
    case True
    let ?d = "d\<lparr>cancelled := True\<rparr>"
    from True inv have "Stop_request d = ?d" and "started d"
      and "run_exit ?d = Some (?d\<lparr>daemon_done := ClosedChan, run_alive := False\<rparr>)"
      by (auto simp: Stop_request_def daemon_inv_def run_exit_def split: if_splits)
    with True show ?thesis
      using daemon_step.exit [of ?d] by (auto simp: Stop_returns_def)
  next
    case False
    with inv show ?thesis
      by (auto simp: Stop_returns_def Stop_request_def daemon_inv_def split: if_splits)
  qed
  ultimately show ?thesis by blast
qed

lemma daemon_stop_clean_witness:
  "\<exists>d. daemon_reach Defaults d \<and> run_alive d \<and>
     (\<exists>d'. daemon_step (Stop_request d) EvExit d' \<and> Stop_returns d')"
proof -
  obtain d where d: "Start (NewDaemon Defaults) = Some d" and "run_alive d" and "daemon_done d = OpenChan"
    and "started d"
    by (simp add: Start_def NewDaemon_def Defaults_def Let_def)
  have "daemon_reach Defaults d"
    by (rule daemon_reach.step [OF daemon_reach.new daemon_step.start [OF _ d]]) (simp add: NewDaemon_def)
  with daemon_stop_clean [OF this] \<open>run_alive d\<close> \<open>daemon_done d = OpenChan\<close> \<open>started d\<close>
  show ?thesis by (auto simp: Stop_returns_def Stop_request_def split: if_splits)
qed

end
