(* ===== verification/Tor_Manager.thy ===== *)
theory Tor_Manager
  imports Tor_Instance Country_Daemon Config_Validate
begin

section \<open>The Tor manager (internal/tor/manager.go, torRotator of cmd/run.go)\<close>

text \<open>
  The manager creates the instances, numbered from 0, country by country, with ports counted
  up from the configured ones, and starts, stops and rotates them. The world of its
  operations is the manager, the process manager it shares with the rest of the program and
  whatever lies outside. Operations that run one goroutine per instance are given the order in
  which these take effect. \<open>torRotator\<close> is the manager as the country daemon sees it, and is
  shown to keep the daemon's contract.
\<close>

record TorManager =
  instances :: "Instance list"
  version :: "Version option"

record 'o tor_world =
  torMgr :: TorManager
  procMgr :: Manager
  outside :: 'o

datatype manager_error =
    DetectFailed version_error
  | InstanceNotFound int
  | RotateStop int instance_error
  | RotateStart int instance_error
  | StartFailed nat instance_error
  | StopFailed nat instance_error
  | BridgesFailed int instance_error

definition NewTorManager :: TorManager where
  "NewTorManager = \<lparr>instances = [], version = None\<rparr>"

subsection \<open>Creating the instances\<close>

definition create_instance :: "Config \<Rightarrow> Version \<Rightarrow> string \<Rightarrow> int \<Rightarrow> Instance" where
  "create_instance cfg v country instanceID =
     (let inst = (NewInstance instanceID country v)
            \<lparr>inst_SocksPort := add64 (StartSocksPort (Tor cfg)) instanceID,
             inst_ControlPort := add64 (StartControlPort (Tor cfg)) instanceID\<rparr>
      in if SupportsHTTPTunnel v
         then inst\<lparr>inst_HTTPPort := add64 (StartHTTPPort (Tor cfg)) instanceID\<rparr> else inst)"

text \<open>The inner loop, with the number of turns left, and the outer loop over the countries.
  \<open>instanceID\<close> counts the instances in memory and does not overflow.\<close>

fun create_per_country ::
  "Config \<Rightarrow> Version \<Rightarrow> string \<Rightarrow> nat \<Rightarrow> Instance list \<times> int \<Rightarrow> Instance list \<times> int" where
  "create_per_country cfg v country 0 st = st"
| "create_per_country cfg v country (Suc n) (insts, instanceID) =
     create_per_country cfg v country n
       (insts @ [create_instance cfg v country instanceID], instanceID + 1)"

fun create_loop :: "Config \<Rightarrow> Version \<Rightarrow> string list \<Rightarrow> Instance list \<times> int \<Rightarrow> Instance list \<times> int" where
  "create_loop cfg v [] st = st"
| "create_loop cfg v (country # countries) st =
     create_loop cfg v countries
       (create_per_country cfg v country (nat (PerCountry (Instances cfg))) st)"

definition CreateFromVersion :: "Config \<Rightarrow> Version \<Rightarrow> string list \<Rightarrow> TorManager \<Rightarrow> TorManager" where
  "CreateFromVersion cfg v countries m =
     m\<lparr>version := Some v, instances := fst (create_loop cfg v countries (instances m, 0))\<rparr>"

definition DetectAndCreate ::
  "Config \<Rightarrow> version_error + Version \<Rightarrow> string list \<Rightarrow> TorManager \<Rightarrow> manager_error option \<times> TorManager" where
  "DetectAndCreate cfg detected countries m =
     (case detected of
        Inl err \<Rightarrow> (Some (DetectFailed err), m)
      | Inr v \<Rightarrow>
          (None, m\<lparr>version := Some v, instances := fst (create_loop cfg v countries (instances m, 0))\<rparr>))"

definition GetVersion :: "TorManager \<Rightarrow> Version option" where
  "GetVersion m = version m"

fun find_instance :: "int \<Rightarrow> Instance list \<Rightarrow> nat option" where
  "find_instance n [] = None"
| "find_instance n (inst # insts) =
     (if inst_ID inst = n then Some 0 else map_option Suc (find_instance n insts))"

definition GetInstance :: "TorManager \<Rightarrow> int \<Rightarrow> manager_error + Instance" where
  "GetInstance m n =
     (case find_instance n (instances m) of
        None \<Rightarrow> Inl (InstanceNotFound n) | Some k \<Rightarrow> Inr (instances m ! k))"

definition GetInstanceInfos :: "TorManager \<Rightarrow> InstanceInfo list" where
  "GetInstanceInfos m =
     map (\<lambda>inst. \<lparr>info_ID = inst_ID inst, info_Country = inst_Country inst\<rparr>) (instances m)"

subsection \<open>Operations on the instances\<close>

definition set_instance :: "nat \<Rightarrow> Instance \<Rightarrow> 'o tor_world \<Rightarrow> 'o tor_world" where
  "set_instance k inst w = w\<lparr>torMgr := (torMgr w)\<lparr>instances := (instances (torMgr w))[k := inst]\<rparr>\<rparr>"

text \<open>The instance at index \<open>k\<close> is started, or stopped, in place.\<close>

definition start_at :: "'o tor_sys \<Rightarrow> Config \<Rightarrow> nat \<Rightarrow> 'o tor_world \<Rightarrow> instance_error option \<times> 'o tor_world" where
  "start_at sys cfg k w =
     (case Instance_Start sys cfg (instances (torMgr w) ! k) (procMgr w) (outside w) of
        (e, inst, pm, v) \<Rightarrow> (e, set_instance k inst (w\<lparr>procMgr := pm, outside := v\<rparr>)))"

definition stop_at :: "'o tor_sys \<Rightarrow> nat \<Rightarrow> 'o tor_world \<Rightarrow> instance_error option \<times> 'o tor_world" where
  "stop_at sys k w =
     (case Instance_Stop sys (instances (torMgr w) ! k) (procMgr w) (outside w) of
        (e, inst, pm, v) \<Rightarrow> (e, set_instance k inst (w\<lparr>procMgr := pm, outside := v\<rparr>)))"

definition set_country :: "nat \<Rightarrow> string \<Rightarrow> 'o tor_world \<Rightarrow> 'o tor_world" where
  "set_country k country w = set_instance k ((instances (torMgr w) ! k)\<lparr>inst_Country := country\<rparr>) w"

definition Tor_RotateInstance ::
  "'o tor_sys \<Rightarrow> Config \<Rightarrow> int \<Rightarrow> string \<Rightarrow> 'o tor_world \<Rightarrow> manager_error option \<times> 'o tor_world" where
  "Tor_RotateInstance sys cfg n newCountry w =
     (case find_instance n (instances (torMgr w)) of
        None \<Rightarrow> (Some (InstanceNotFound n), w)
      | Some k \<Rightarrow>
          (case stop_at sys k w of
             (Some err, w1) \<Rightarrow> (Some (RotateStop n err), w1)
           | (None, w1) \<Rightarrow>
               (case start_at sys cfg k (set_country k newCountry w1) of
                  (Some err, w2) \<Rightarrow> (Some (RotateStart n err), w2)
                | (None, w2) \<Rightarrow> (None, w2))))"

definition torRotator :: "'o tor_sys \<Rightarrow> Config \<Rightarrow> ('o tor_world, manager_error) InstanceRotator" where
  "torRotator sys cfg =
     \<lparr>GetInstances = (\<lambda>w. map (\<lambda>info. \<lparr>info_ID = info_ID info, info_Country = info_Country info\<rparr>)
        (GetInstanceInfos (torMgr w))),
      RotateInstance = Tor_RotateInstance sys cfg\<rparr>"

text \<open>The goroutines of \<open>StartAll\<close> and \<open>StopAll\<close>, in the order \<open>order\<close>, with the errors they send.\<close>

fun start_each :: "'o tor_sys \<Rightarrow> Config \<Rightarrow> nat list \<Rightarrow> 'o tor_world \<Rightarrow> manager_error list \<times> 'o tor_world" where
  "start_each sys cfg [] w = ([], w)"
| "start_each sys cfg (k # ks) w =
     (case start_at sys cfg k w of
        (e, w1) \<Rightarrow> (case start_each sys cfg ks w1 of
           (es, w2) \<Rightarrow> ((case e of None \<Rightarrow> es | Some err \<Rightarrow> StartFailed k err # es), w2)))"

fun stop_each :: "'o tor_sys \<Rightarrow> nat list \<Rightarrow> 'o tor_world \<Rightarrow> manager_error list \<times> 'o tor_world" where
  "stop_each sys [] w = ([], w)"
| "stop_each sys (k # ks) w =
     (case stop_at sys k w of
        (e, w1) \<Rightarrow> (case stop_each sys ks w1 of
           (es, w2) \<Rightarrow> ((case e of None \<Rightarrow> es | Some err \<Rightarrow> StopFailed k err # es), w2)))"

definition Tor_StartAll ::
  "'o tor_sys \<Rightarrow> Config \<Rightarrow> nat list \<Rightarrow> 'o tor_world \<Rightarrow> manager_error option \<times> 'o tor_world" where
  "Tor_StartAll sys cfg order w =
     (case start_each sys cfg order w of (errs, w') \<Rightarrow> (if errs \<noteq> [] then Some (hd errs) else None, w'))"

definition Tor_StopAll :: "'o tor_sys \<Rightarrow> nat list \<Rightarrow> 'o tor_world \<Rightarrow> manager_error option \<times> 'o tor_world" where
  "Tor_StopAll sys order w =
     (case stop_each sys order w of (errs, w') \<Rightarrow> (if errs \<noteq> [] then Some (hd errs) else None, w'))"

text \<open>\<open>SetBridgesForAll\<close> stops at the first instance that fails and leaves the rest as it is.\<close>

fun set_bridges_loop ::
  "string \<Rightarrow> BridgesConfig option \<Rightarrow> Instance list \<Rightarrow> manager_error option \<times> Instance list" where
  "set_bridges_loop bridgeType bridges [] = (None, [])"
| "set_bridges_loop bridgeType bridges (inst # insts) =
     (case SetBridges bridgeType bridges inst of
        (Some err, inst') \<Rightarrow> (Some (BridgesFailed (inst_ID inst) err), inst' # insts)
      | (None, inst') \<Rightarrow>
          (case set_bridges_loop bridgeType bridges insts of (e, insts') \<Rightarrow> (e, inst' # insts')))"

definition SetBridgesForAll ::
  "string \<Rightarrow> BridgesConfig option \<Rightarrow> TorManager \<Rightarrow> manager_error option \<times> TorManager" where
  "SetBridgesForAll bridgeType bridges m =
     (case set_bridges_loop bridgeType bridges (instances m) of
        (e, insts) \<Rightarrow> (e, m\<lparr>instances := insts\<rparr>))"

subsection \<open>The layout of the instances\<close>

lemma create_per_country_closed:
  "create_per_country cfg v c n (acc, i) =
     (acc @ map (\<lambda>j. create_instance cfg v c (i + int j)) [0..<n], i + int n)"
proof (induction n arbitrary: acc i)
  case (Suc n)
  have "map (\<lambda>j. create_instance cfg v c (i + int j)) [0..<Suc n] =
      create_instance cfg v c i # map (\<lambda>j. create_instance cfg v c (i + 1 + int j)) [0..<n]"
    by (simp add: map_upt_Suc algebra_simps del: upt_Suc)
  with Suc show ?case by (simp add: algebra_simps del: upt_Suc)
qed simp

lemma create_loop_closed:
  assumes "0 < per" and "per = nat (PerCountry (Instances cfg))"
  shows "create_loop cfg v cs (acc, i) =
     (acc @ map (\<lambda>k. create_instance cfg v (cs ! (k div per)) (i + int k)) [0..<length cs * per],
      i + int (length cs * per))"
proof (induction cs arbitrary: acc i)
  case (Cons c cs)
  have split: "[0..<length (c # cs) * per] = [0..<per] @ map (\<lambda>k. k + per) [0..<length cs * per]"
  proof -
    have "map (\<lambda>k. k + per) [0..<length cs * per] = [per..<per + length cs * per]"
      by (simp add: map_add_upt add.commute)
    then show ?thesis
      by (simp add: upt_add_eq_append [of 0 per "length cs * per", simplified])
  qed
  have "map (\<lambda>k. create_instance cfg v ((c # cs) ! (k div per)) (i + int k)) [0..<length (c # cs) * per] =
      map (\<lambda>j. create_instance cfg v c (i + int j)) [0..<per] @
      map (\<lambda>k. create_instance cfg v (cs ! (k div per)) (i + int per + int k)) [0..<length cs * per]"
    unfolding split map_append map_map
    using assms(1) by (auto simp: algebra_simps div_add_self2 cong: map_cong)
  with Cons assms show ?case
    by (simp add: create_per_country_closed algebra_simps)
qed simp

text \<open>The instances that a fresh manager creates for the given countries.\<close>

definition created :: "Config \<Rightarrow> Version \<Rightarrow> string list \<Rightarrow> Instance list" where
  "created cfg v countries = instances (snd (DetectAndCreate cfg (Inr v) countries NewTorManager))"

lemma created_closed:
  assumes "0 < PerCountry (Instances cfg)"
  shows "created cfg v cs = map (\<lambda>k. create_instance cfg v (cs ! (k div nat (PerCountry (Instances cfg)))) (int k))
    [0..<length cs * nat (PerCountry (Instances cfg))]"
  using create_loop_closed [OF _ refl, of cfg v cs "[]" 0] assms
  by (simp add: created_def DetectAndCreate_def NewTorManager_def)

lemma create_instance_simps [simp]:
  "inst_ID (create_instance cfg v c i) = i"
  "inst_Country (create_instance cfg v c i) = c"
  "inst_SocksPort (create_instance cfg v c i) = add64 (StartSocksPort (Tor cfg)) i"
  "inst_ControlPort (create_instance cfg v c i) = add64 (StartControlPort (Tor cfg)) i"
  "inst_HTTPPort (create_instance cfg v c i) =
     (if SupportsHTTPTunnel v then add64 (StartHTTPPort (Tor cfg)) i else 0)"
  "inst_version (create_instance cfg v c i) = v"
  "inst_state (create_instance cfg v c i) = StateStarting"
  "inst_proc (create_instance cfg v c i) = None"
  by (simp_all add: create_instance_def NewInstance_def Let_def)

lemma created_ids:
  "0 < PerCountry (Instances cfg) \<Longrightarrow> map inst_ID (created cfg v cs) = map int [0..<length cs * nat (PerCountry (Instances cfg))]"
  by (simp add: created_closed comp_def)

text \<open>
  A valid configuration, whose port arithmetic does not wrap, and as many countries as it
  asks for.
\<close>

definition ready_to_create :: "Config \<Rightarrow> string list \<Rightarrow> bool" where
  "ready_to_create cfg countries \<longleftrightarrow> Validate cfg = None \<and> socks_range_fits cfg \<and>
     int (length countries) = Countries (Instances cfg)"

lemma ready_to_create_facts:
  assumes "ready_to_create cfg cs"
  shows "0 < PerCountry (Instances cfg)"
    and "0 \<le> StartSocksPort (Tor cfg)"
    and "StartSocksPort (Tor cfg) + int (length cs * nat (PerCountry (Instances cfg))) \<le> 65535"
    and "0 \<le> StartControlPort (Tor cfg)" and "StartControlPort (Tor cfg) \<le> 65535"
    and "0 \<le> StartHTTPPort (Tor cfg)" and "StartHTTPPort (Tor cfg) \<le> 65535"
proof -
  have v: "0 < PerCountry (Instances cfg)" "0 < Countries (Instances cfg)" "validatePorts cfg = None"
    "\<not> 65535 < add64 (StartSocksPort (Tor cfg)) (mul64 (PerCountry (Instances cfg)) (Countries (Instances cfg)))"
    using assms by (simp_all add: ready_to_create_def Validate_None_iff)
  then show "0 < PerCountry (Instances cfg)" by simp
  have "snd ` set (port_fields cfg) \<subseteq> {0..65535}"
    using v(3) ports_in_range_iff by blast
  then show "0 \<le> StartSocksPort (Tor cfg)" and "0 \<le> StartControlPort (Tor cfg)"
    and "StartControlPort (Tor cfg) \<le> 65535" and "0 \<le> StartHTTPPort (Tor cfg)"
    and "StartHTTPPort (Tor cfg) \<le> 65535"
    by (simp_all add: port_fields_def)
  have "StartSocksPort (Tor cfg) + PerCountry (Instances cfg) * Countries (Instances cfg) \<le> 65535"
    using v Validate_port_checks [of cfg] assms by (auto simp: ready_to_create_def)
  moreover have "int (length cs * nat (PerCountry (Instances cfg))) =
      PerCountry (Instances cfg) * Countries (Instances cfg)"
    using assms v(1) by (simp add: ready_to_create_def)
  ultimately show "StartSocksPort (Tor cfg) + int (length cs * nat (PerCountry (Instances cfg))) \<le> 65535"
    by simp
qed

text \<open>C17. For a valid configuration and the number of countries it asks for, the manager creates
  the configured number of instances per country, in the order of the countries, numbered
  from 0; instance \<open>k\<close> has the ports \<open>k\<close> above the configured ones, an HTTP port exactly when
  the Tor version has the HTTP tunnel, and the SOCKS ports are pairwise distinct, at least 0 and
  below 65535.\<close>

theorem created_layout:
  assumes "ready_to_create cfg countries" and "insts = created cfg v countries"
  shows "length insts = length countries * nat (PerCountry (Instances cfg)) \<and>
    (\<forall>k < length insts.
       inst_ID (insts ! k) = int k \<and>
       inst_Country (insts ! k) = countries ! (k div nat (PerCountry (Instances cfg))) \<and>
       inst_SocksPort (insts ! k) = StartSocksPort (Tor cfg) + int k \<and>
       inst_ControlPort (insts ! k) = StartControlPort (Tor cfg) + int k \<and>
       inst_HTTPPort (insts ! k) = (if SupportsHTTPTunnel v then StartHTTPPort (Tor cfg) + int k else 0) \<and>
       inst_state (insts ! k) = StateStarting \<and> inst_proc (insts ! k) = None) \<and>
    distinct (map inst_SocksPort insts) \<and> set (map inst_SocksPort insts) \<subseteq> {0..<65535}"
proof -
  note facts = ready_to_create_facts [OF assms(1)]
  let ?n = "length countries * nat (PerCountry (Instances cfg))"
  have insts: "insts = map (\<lambda>k. create_instance cfg v (countries ! (k div nat (PerCountry (Instances cfg)))) (int k)) [0..<?n]"
    using assms(2) created_closed [OF facts(1)] by simp
  have small: "int ?n \<le> 65535" using facts(2,3) by linarith
  have add: "add64 s (int k) = s + int k" if "0 \<le> s" "s \<le> 65535" "k < ?n" for s k
    using that small by (intro add64_id in_int64_small) linarith+
  have socks: "StartSocksPort (Tor cfg) \<le> 65535" using facts(3) by linarith
  have ports: "map inst_SocksPort insts = map (\<lambda>k. StartSocksPort (Tor cfg) + int k) [0..<?n]"
    by (simp add: insts add facts(2) socks)
  moreover have "distinct (map (\<lambda>k. StartSocksPort (Tor cfg) + int k) [0..<?n])"
    by (simp add: distinct_map inj_on_def)
  moreover have "StartSocksPort (Tor cfg) + int k \<in> {0..<65535}" if "k < ?n" for k
  proof -
    have "int k < int ?n" using that by (simp only: of_nat_less_iff)
    with facts(2,3) show ?thesis unfolding atLeastLessThan_iff by linarith
  qed
  then have "set (map (\<lambda>k. StartSocksPort (Tor cfg) + int k) [0..<?n]) \<subseteq> {0..<65535}"
    by auto
  ultimately have "distinct (map inst_SocksPort insts) \<and> set (map inst_SocksPort insts) \<subseteq> {0..<65535}"
    by (simp only: simp_thms)
  moreover have "\<forall>k < length insts.
       inst_ID (insts ! k) = int k \<and>
       inst_Country (insts ! k) = countries ! (k div nat (PerCountry (Instances cfg))) \<and>
       inst_SocksPort (insts ! k) = StartSocksPort (Tor cfg) + int k \<and>
       inst_ControlPort (insts ! k) = StartControlPort (Tor cfg) + int k \<and>
       inst_HTTPPort (insts ! k) = (if SupportsHTTPTunnel v then StartHTTPPort (Tor cfg) + int k else 0) \<and>
       inst_state (insts ! k) = StateStarting \<and> inst_proc (insts ! k) = None"
    using facts by (simp add: insts add socks)
  moreover have "length insts = ?n"
    by (simp add: insts)
  ultimately show ?thesis by blast
qed


subsection \<open>The manager as a rotator\<close>

lemma find_instance_Some:
  "find_instance n insts = Some k \<Longrightarrow> k < length insts \<and> inst_ID (insts ! k) = n"
  by (induction insts arbitrary: k) (auto split: if_splits)

lemma find_instance_None: "find_instance n insts = None \<longleftrightarrow> n \<notin> inst_ID ` set insts"
  by (induction insts) auto

text \<open>What no rotation changes: numbers, ports, version.\<close>

definition fixed_part :: "Instance \<Rightarrow> int \<times> int \<times> int \<times> int \<times> Version" where
  "fixed_part inst = (inst_ID inst, inst_SocksPort inst, inst_ControlPort inst, inst_HTTPPort inst,
     inst_version inst)"

lemma stop_at_effect:
  assumes "stop_at sys k w = (e, w')" and "k < length (instances (torMgr w))"
  shows "e = None" and "length (instances (torMgr w')) = length (instances (torMgr w))"
    and "i \<noteq> k \<Longrightarrow> instances (torMgr w') ! i = instances (torMgr w) ! i"
    and "identity (instances (torMgr w') ! k) = identity (instances (torMgr w) ! k)"
  using assms by (auto simp: stop_at_def Instance_Stop_def set_instance_def setState_def identity_def Let_def
      split: option.splits prod.splits if_splits)

lemma start_at_effect:
  assumes "start_at sys cfg k w = (e, w')" and "k < length (instances (torMgr w))"
  shows "length (instances (torMgr w')) = length (instances (torMgr w))"
    and "i \<noteq> k \<Longrightarrow> instances (torMgr w') ! i = instances (torMgr w) ! i"
    and "identity (instances (torMgr w') ! k) = identity (instances (torMgr w) ! k)"
proof -
  obtain e' inst pm v where s: "Instance_Start sys cfg (instances (torMgr w) ! k) (procMgr w) (outside w)
      = (e', inst, pm, v)" by (metis prod_cases4)
  then have "identity inst = identity (instances (torMgr w) ! k)"
    by (cases rule: Instance_Start_cases)
  with s assms show "length (instances (torMgr w')) = length (instances (torMgr w))"
    and "i \<noteq> k \<Longrightarrow> instances (torMgr w') ! i = instances (torMgr w) ! i"
    and "identity (instances (torMgr w') ! k) = identity (instances (torMgr w) ! k)"
    by (auto simp: start_at_def set_instance_def)
qed

lemma rotate_effect:
  assumes "Tor_RotateInstance sys cfg n c w = (e, w')" and "find_instance n (instances (torMgr w)) = Some k"
  shows "length (instances (torMgr w')) = length (instances (torMgr w))"
    and "i \<noteq> k \<Longrightarrow> instances (torMgr w') ! i = instances (torMgr w) ! i"
    and "identity (instances (torMgr w') ! k) = identity ((instances (torMgr w) ! k)\<lparr>inst_Country := c\<rparr>)"
proof -
  have k: "k < length (instances (torMgr w))" using find_instance_Some assms(2) by blast
  obtain e1 w1 where st: "stop_at sys k w = (e1, w1)" by fastforce
  note stop = stop_at_effect [OF st k]
  have k1: "k < length (instances (torMgr w1))" using stop k by simp
  let ?w2 = "set_country k c w1"
  have mid: "length (instances (torMgr ?w2)) = length (instances (torMgr w1))"
    "i \<noteq> k \<Longrightarrow> instances (torMgr ?w2) ! i = instances (torMgr w1) ! i"
    "identity (instances (torMgr ?w2) ! k) = identity ((instances (torMgr w) ! k)\<lparr>inst_Country := c\<rparr>)" for i
    using k1 stop(4) by (auto simp: set_country_def set_instance_def identity_def)
  obtain e2 w2 where sa: "start_at sys cfg k ?w2 = (e2, w2)" by fastforce
  have "w' = w2"
    using assms st stop(1) sa by (auto simp: Tor_RotateInstance_def split: option.splits)
  with start_at_effect [OF sa] mid stop k1
  show "length (instances (torMgr w')) = length (instances (torMgr w))"
    and "i \<noteq> k \<Longrightarrow> instances (torMgr w') ! i = instances (torMgr w) ! i"
    and "identity (instances (torMgr w') ! k) = identity ((instances (torMgr w) ! k)\<lparr>inst_Country := c\<rparr>)"
    by simp_all
qed

lemma rotate_missing:
  "find_instance n (instances (torMgr w)) = None \<Longrightarrow>
     Tor_RotateInstance sys cfg n c w = (Some (InstanceNotFound n), w)"
  by (simp add: Tor_RotateInstance_def)

lemma rotate_fixed_part:
  "map fixed_part (instances (torMgr (snd (Tor_RotateInstance sys cfg n c w)))) =
     map fixed_part (instances (torMgr w))"
proof (cases "find_instance n (instances (torMgr w))")
  case None
  then show ?thesis by (simp add: rotate_missing)
next
  case (Some k)
  obtain e w' where r: "Tor_RotateInstance sys cfg n c w = (e, w')" by fastforce
  note eff = rotate_effect [OF r Some]
  have "fixed_part (instances (torMgr w') ! i) = fixed_part (instances (torMgr w) ! i)" for i
    using eff(2,3) by (cases "i = k") (auto simp: fixed_part_def identity_def)
  with eff(1) r show ?thesis by (simp add: list_eq_iff_nth_eq)
qed

definition infos :: "'o tor_world \<Rightarrow> InstanceInfo list" where
  "infos w = GetInstanceInfos (torMgr w)"

lemma torRotator_simps [simp]:
  "GetInstances (torRotator sys cfg) w = infos w"
  "RotateInstance (torRotator sys cfg) = Tor_RotateInstance sys cfg"
  by (simp_all add: torRotator_def infos_def GetInstanceInfos_def comp_def)

lemma infos_simps [simp]:
  "length (infos w) = length (instances (torMgr w))"
  "i < length (instances (torMgr w)) \<Longrightarrow> info_ID (infos w ! i) = inst_ID (instances (torMgr w) ! i)"
  "i < length (instances (torMgr w)) \<Longrightarrow> info_Country (infos w ! i) = inst_Country (instances (torMgr w) ! i)"
  "map info_ID (infos w) = map inst_ID (instances (torMgr w))"
  by (simp_all add: infos_def GetInstanceInfos_def)

interpretation tor: instance_rotator "torRotator sys cfg" for sys :: "'o tor_sys" and cfg
proof
  fix n c and w w' :: "'o tor_world" and e
  assume "RotateInstance (torRotator sys cfg) n c w = (e, w')"
  then have r: "Tor_RotateInstance sys cfg n c w = (e, w')" by simp
  show "map info_ID (GetInstances (torRotator sys cfg) w') = map info_ID (GetInstances (torRotator sys cfg) w)"
    using arg_cong [OF rotate_fixed_part [of sys cfg n c w], of "map fst"] r
    by (simp add: fixed_part_def comp_def)
  fix i assume i: "i < length (GetInstances (torRotator sys cfg) w)"
  {
    assume other: "info_ID (GetInstances (torRotator sys cfg) w ! i) \<noteq> n"
    show "GetInstances (torRotator sys cfg) w' ! i = GetInstances (torRotator sys cfg) w ! i"
    proof (cases "find_instance n (instances (torMgr w))")
      case None
      with r show ?thesis by (simp add: rotate_missing)
    next
      case (Some k)
      with other i have "i \<noteq> k" using find_instance_Some by fastforce
      with rotate_effect(1,2) [OF r Some] i show ?thesis
        by (simp add: infos_def GetInstanceInfos_def)
    qed
  next
    assume this_one: "info_ID (GetInstances (torRotator sys cfg) w ! i) = n"
      and dist: "distinct (map info_ID (GetInstances (torRotator sys cfg) w))"
    then obtain k where k: "find_instance n (instances (torMgr w)) = Some k"
      using i find_instance_None [of n "instances (torMgr w)"] by (cases "find_instance n (instances (torMgr w))") auto
    have "k < length (instances (torMgr w))" and "inst_ID (instances (torMgr w) ! k) = n"
      using find_instance_Some [OF k] by simp_all
    with this_one dist i have "i = k"
      by (metis infos_simps(1,4) length_map nth_eq_iff_index_eq nth_map torRotator_simps(1))
    with rotate_effect(1,3) [OF r k] i
    show "info_Country (GetInstances (torRotator sys cfg) w' ! i) = c \<or>
        e \<noteq> None \<and> GetInstances (torRotator sys cfg) w' ! i = GetInstances (torRotator sys cfg) w ! i"
      by (simp add: identity_def)
  }
qed

text \<open>C7. One cycle of the country daemon on the Tor instances never panics and leaves every
  instance's number, ports and version as they are; at most the configured number of instances
  change country, and each of those is afterwards in an accepted, not blacklisted country that
  differs from its old one, whatever goes wrong while it is stopped and started.\<close>

theorem rotation_cycle:
  assumes "draws_in_range draws" and "swaps_in_range (length (instances (torMgr w))) shuffle"
    and "distinct (map inst_ID (instances (torMgr w)))"
  shows "\<exists>w'. rotateOnce (torRotator sys cfg) dcfg shuffle draws w = Some w' \<and>
    cycle_effect dcfg (infos w) (infos w') \<and>
    map fixed_part (instances (torMgr w')) = map fixed_part (instances (torMgr w))"
proof -
  from tor.rotateOnce_effect [OF assms(1), of sys cfg w shuffle dcfg] assms(2,3)
  obtain w' where run: "rotateOnce (torRotator sys cfg) dcfg shuffle draws w = Some w'"
    and eff: "cycle_effect dcfg (infos w) (infos w')" by auto
  have "map fixed_part (instances (torMgr w')) = map fixed_part (instances (torMgr w))"
    by (rule rotateOnce_keeps [where I = "\<lambda>v. map fixed_part (instances (torMgr v)) =
        map fixed_part (instances (torMgr w))", OF _ refl run]) (simp add: rotate_fixed_part)
  with run eff show ?thesis by blast
qed


text \<open>Two instances, the first of which has been running.\<close>

definition demo_world :: "int tor_world" where
  "demo_world =
     \<lparr>torMgr = \<lparr>instances = created (Defaults\<lparr>Instances := (Instances Defaults)\<lparr>PerCountry := 1\<rparr>\<rparr>)
        (Version 0 4 8 17) [''{DE}'', ''{SE}''], version = Some (Version 0 4 8 17)\<rparr>,
      procMgr = NewManager ''/tmp/splitter'', outside = 7\<rparr>"

lemma demo_world_instances:
  "map inst_ID (instances (torMgr demo_world)) = [0, 1]"
  "length (instances (torMgr demo_world)) = 2"
  by (simp_all add: demo_world_def created_closed upt_conv_Cons)

lemma rotation_cycle_witness:
  "\<exists>w'. rotateOnce (torRotator demo_tor_sys Defaults) Defaults [(1, 0)] (\<lambda>k n. 0) demo_world = Some w' \<and>
    cycle_effect Defaults (infos demo_world) (infos w')"
  using rotation_cycle [of "\<lambda>k n. 0" demo_world "[(1, 0)]" demo_tor_sys Defaults Defaults]
  by (auto simp: draws_in_range_def swaps_in_range_def demo_world_instances)

lemma created_layout_witness:
  "ready_to_create Defaults (replicate 6 ''{DE}'') \<and>
   map inst_SocksPort (created Defaults (Version 0 4 8 17) (replicate 6 ''{DE}'')) =
     map (\<lambda>k. 4999 + int k) [0..<12]"
proof
  show ready: "ready_to_create Defaults (replicate 6 ''{DE}'')"
    using Validate_config_ok [OF Defaults_fits Defaults_ok] Defaults_fits
    by (simp add: ready_to_create_def) (simp add: Defaults_def)
  have per: "nat (PerCountry (Instances Defaults)) = 2" and start: "StartSocksPort (Tor Defaults) = 4999"
    by (simp_all add: Defaults_def)
  show "map inst_SocksPort (created Defaults (Version 0 4 8 17) (replicate 6 ''{DE}'')) =
     map (\<lambda>k. 4999 + int k) [0..<12]"
    using created_layout [OF ready refl, of "Version 0 4 8 17"]
    by (intro nth_equalityI) (simp_all add: per start)
qed

subsection \<open>Looking up an instance\<close>

text \<open>After the manager has created its instances, a lookup by number finds exactly the
  numbers from 0 up to their count, each the instance at that position.\<close>

theorem GetInstance_created:
  assumes "0 < PerCountry (Instances cfg)"
    and "m = snd (DetectAndCreate cfg (Inr v) countries NewTorManager)"
  shows "GetInstance m n =
    (if 0 \<le> n \<and> n < int (length (instances m)) then Inr (instances m ! nat n)
     else Inl (InstanceNotFound n))"
proof -
  have m: "instances m = created cfg v countries"
    using assms(2) by (simp add: created_def)
  then have ids: "map inst_ID (instances m) = map int [0..<length (instances m)]"
    using created_ids [OF assms(1), of v countries] by (metis length_map length_upt minus_nat.diff_0)
  have id_at: "k < length (instances m) \<Longrightarrow> inst_ID (instances m ! k) = int k" for k
    using arg_cong [OF ids, of "\<lambda>xs. xs ! k"] by simp
  show ?thesis
  proof (cases "find_instance n (instances m)")
    case None
    have "\<not> (0 \<le> n \<and> n < int (length (instances m)))"
    proof
      assume n: "0 \<le> n \<and> n < int (length (instances m))"
      then have "nat n < length (instances m)" by linarith
      with id_at [of "nat n"] n have "n \<in> inst_ID ` set (instances m)"
        by (metis imageI int_nat_eq nth_mem)
      with None find_instance_None show False by blast
    qed
    with None show ?thesis by (auto simp: GetInstance_def)
  next
    case (Some k)
    with find_instance_Some [OF Some] id_at [of k] show ?thesis
      by (auto simp: GetInstance_def)
  qed
qed

lemma GetInstance_created_witness:
  "GetInstance (snd (DetectAndCreate Defaults (Inr (Version 0 4 8 17)) [''{DE}''] NewTorManager)) 2 =
     Inl (InstanceNotFound 2)"
proof -
  have per: "0 < PerCountry (Instances Defaults)" by (simp add: Defaults_def)
  have "length (created Defaults (Version 0 4 8 17) [''{DE}'']) = 2"
    by (simp add: created_closed Defaults_def)
  then show ?thesis
    using GetInstance_created [OF per refl, of "Version 0 4 8 17" "[''{DE}'']" 2]
    by (simp add: created_def)
qed

subsection \<open>What validation does not rule out\<close>

text \<open>The default configuration with 201 instances in one country.\<close>

definition many_instances :: Config where
  "many_instances = Defaults\<lparr>Instances := (Instances Defaults)\<lparr>PerCountry := 201, Countries := 1\<rparr>\<rparr>"

text \<open>Validation looks at the SOCKS port range alone: the default ports with 201 instances
  are accepted, yet the SOCKS port of the last instance is the HTTP tunnel port of the first,
  so the two cannot both be opened.\<close>

theorem valid_config_ports_collide:
  "Validate many_instances = None \<and>
   (let insts = created many_instances (Version 0 4 8 17) [''{DE}'']
    in length insts = 201 \<and> inst_SocksPort (insts ! 200) = inst_HTTPPort (insts ! 0))"
proof
  have "validatePorts many_instances = validatePorts Defaults"
    by (simp add: validatePorts_def port_fields_def many_instances_def)
  moreover have "Validate Defaults = None"
    by (rule Validate_config_ok [OF Defaults_fits Defaults_ok])
  ultimately show "Validate many_instances = None"
    unfolding Validate_None_iff
    by (simp add: many_instances_def Defaults_def add64_def mul64_def wrap64_def)
  have "0 < PerCountry (Instances many_instances)" and "nat (PerCountry (Instances many_instances)) = 201"
    and "StartSocksPort (Tor many_instances) = 4999" and "StartHTTPPort (Tor many_instances) = 5199"
    by (simp_all add: many_instances_def Defaults_def)
  then show "let insts = created many_instances (Version 0 4 8 17) [''{DE}'']
    in length insts = 201 \<and> inst_SocksPort (insts ! 200) = inst_HTTPPort (insts ! 0)"
    by (simp add: created_closed supports_defs atLeast.simps go_int in_int64_def Let_def)
qed

end
