(* ===== verification/Tor_Restart.thy ===== *)
theory Tor_Restart
  imports Tor_Manager
begin

section \<open>Supervised instances (internal/tor/restart.go, StartAllWithRestart of manager.go)\<close>

text \<open>
  Every instance has a goroutine that starts Tor, waits for it to exit and starts it again
  after a pause. The program starts these goroutines together, waits until each has reported
  its instance ready, and only then lets the country daemon rotate instances. The model is a
  step relation on one supervisor and one on the fleet of all supervisors with the channel
  they report on; the time that passes, the exits of processes and the daemon's rotations are
  steps that may come at any moment.
\<close>

subsection \<open>The pause before a restart\<close>

definition maxBackoff :: int where
  "maxBackoff = 30 * second"

definition initialBackoff :: int where
  "initialBackoff = 1 * second"

text \<open>The loop of \<open>backoffDuration\<close>, with the number of turns left.\<close>

fun backoff_loop :: "nat \<Rightarrow> int \<Rightarrow> int" where
  "backoff_loop 0 d = (if maxBackoff < d then maxBackoff else d)"
| "backoff_loop (Suc n) d =
     (let d' = mul64 d 2 in if maxBackoff \<le> d' then maxBackoff else backoff_loop n d')"

definition backoffDuration :: "int \<Rightarrow> int" where
  "backoffDuration failures =
     (if failures \<le> 0 then initialBackoff else backoff_loop (nat (failures - 1)) initialBackoff)"

lemma backoff_loop_closed:
  "\<lbrakk>0 < d; d \<le> maxBackoff\<rbrakk> \<Longrightarrow> backoff_loop n d = min maxBackoff (2 ^ n * d)"
proof (induction n arbitrary: d)
  case (Suc n)
  have mul: "mul64 d 2 = 2 * d"
    using Suc.prems by (simp add: mul64_id in_int64_def maxBackoff_def second_def)
  show ?case
  proof (cases "maxBackoff \<le> 2 * d")
    case True
    have "2 * d \<le> 2 ^ Suc n * d"
      using Suc.prems by (simp add: mult.assoc)
    with True mul show ?thesis by (simp add: min_def)
  next
    case False
    with Suc.IH [of "2 * d"] Suc.prems mul show ?thesis
      by (simp add: ac_simps)
  qed
qed (simp add: min_def)

text \<open>The pause after \<open>n\<close> failures in a row is one second doubled \<open>n - 1\<close> times, cut off at
  thirty seconds; it never overflows, however many failures there are.\<close>

theorem backoffDuration_closed:
  "backoffDuration n = (if n \<le> 0 then second else min (30 * second) (2 ^ nat (n - 1) * second))"
  using backoff_loop_closed [of initialBackoff "nat (n - 1)"]
  by (simp add: backoffDuration_def initialBackoff_def maxBackoff_def second_def)

subsection \<open>One supervisor\<close>

text \<open>The head of the loop of \<open>RunWithRestart\<close> on the instance at index \<open>k\<close>, with the outcome of \<open>Start\<close>.\<close>

definition launch_at :: "'o tor_sys \<Rightarrow> Config \<Rightarrow> nat \<Rightarrow> 'o tor_world \<Rightarrow> instance_error option \<times> 'o tor_world" where
  "launch_at sys cfg k w =
     (let inst = (instances (torMgr w) ! k)\<lparr>inst_cancelFunc := CancelSet\<rparr>
      in start_at sys cfg k (set_instance k (setState StateBootstrapping inst) w))"

lemma launch_at_effect:
  assumes "launch_at sys cfg k w = (e, w')" and "k < length (instances (torMgr w))"
  shows "length (instances (torMgr w')) = length (instances (torMgr w))"
    and "i \<noteq> k \<Longrightarrow> instances (torMgr w') ! i = instances (torMgr w) ! i"
    and "identity (instances (torMgr w') ! k) = identity (instances (torMgr w) ! k)"
  using assms(2) start_at_effect [OF assms(1) [unfolded launch_at_def Let_def]]
  by (simp_all add: set_instance_def setState_def identity_def)

text \<open>
  Where \<open>RunWithRestart\<close> is: at the top of its loop; in a pause; in the inner select; gone. The
  supervisor's part of the state is \<open>failures\<close>, the timer, \<open>onceReady\<close> and the process its
  waiter goroutine waits for, if that has already looked at \<open>inst.proc\<close>. The instance's part
  is its state, its current process and whether a rotation has stopped it and not yet started
  it again. \<open>used\<close> are the handles of all processes ever started for the instance, and
  \<open>rotated\<close> records that the instance has ever been rotated.
\<close>

datatype sup_pc = AtLoop | InBackoff | InSelect | Gone

record sup =
  sup_pc :: sup_pc
  sup_state :: State
  failures :: int
  timer_armed :: bool
  ready_sent :: bool
  waiter :: "nat option"
  current :: "nat option"
  running :: "nat set"
  used :: "nat set"
  exit_err :: "nat \<Rightarrow> string option"
  rotating :: bool
  rotated :: bool

definition sup_init :: sup where
  "sup_init = \<lparr>sup_pc = AtLoop, sup_state = StateStarting, failures = 0, timer_armed = False,
     ready_sent = False, waiter = None, current = None, running = {}, used = {},
     exit_err = (\<lambda>h. None), rotating = False, rotated = False\<rparr>"

definition new_process :: "nat \<Rightarrow> sup \<Rightarrow> sup" where
  "new_process h s = s\<lparr>sup_state := StateBootstrapping, current := Some h,
     running := insert h (running s), used := insert h (used s)\<rparr>"

definition ends :: "nat \<Rightarrow> string option \<Rightarrow> sup \<Rightarrow> sup" where
  "ends h err s = s\<lparr>running := running s - {h}, exit_err := (exit_err s)(h := err)\<rparr>"

datatype sup_event = Quiet | SignalReady | Rotates

text \<open>The first argument says whether the program's context is done. \<open>Start\<close> can fail at any
  time and cannot succeed once the context is done. A rotation whose \<open>Start\<close> fails before it
  has a process to start leaves the state as it is.\<close>

inductive sup_step :: "bool \<Rightarrow> sup \<Rightarrow> sup_event \<Rightarrow> sup \<Rightarrow> bool" for ctx_done where
  start_ok: "\<lbrakk>sup_pc s = AtLoop; \<not> ctx_done; h \<notin> used s\<rbrakk> \<Longrightarrow>
     sup_step ctx_done s Quiet
       ((new_process h s)\<lparr>sup_pc := InSelect, timer_armed := True, waiter := None\<rparr>)"
| start_fails: "sup_pc s = AtLoop \<Longrightarrow>
     sup_step ctx_done s Quiet
       (s\<lparr>sup_pc := InBackoff, sup_state := StateFailed, failures := failures s + 1\<rparr>)"
| backoff_ctx: "\<lbrakk>sup_pc s = InBackoff; ctx_done\<rbrakk> \<Longrightarrow> sup_step ctx_done s Quiet (s\<lparr>sup_pc := Gone\<rparr>)"
| backoff_over: "sup_pc s = InBackoff \<Longrightarrow> sup_step ctx_done s Quiet (s\<lparr>sup_pc := AtLoop\<rparr>)"
| select_ctx: "\<lbrakk>sup_pc s = InSelect; ctx_done\<rbrakk> \<Longrightarrow> sup_step ctx_done s Quiet (s\<lparr>sup_pc := Gone\<rparr>)"
| waits: "\<lbrakk>sup_pc s = InSelect; waiter s = None\<rbrakk> \<Longrightarrow>
     sup_step ctx_done s Quiet (s\<lparr>waiter := current s\<rparr>)"
| timer_first: "\<lbrakk>sup_pc s = InSelect; timer_armed s; sup_state s = StateBootstrapping; \<not> ready_sent s\<rbrakk> \<Longrightarrow>
     sup_step ctx_done s SignalReady
       (s\<lparr>timer_armed := False, sup_state := StateReady, failures := 0, ready_sent := True\<rparr>)"
| timer_again: "\<lbrakk>sup_pc s = InSelect; timer_armed s; sup_state s = StateBootstrapping; ready_sent s\<rbrakk> \<Longrightarrow>
     sup_step ctx_done s Quiet (s\<lparr>timer_armed := False, sup_state := StateReady, failures := 0\<rparr>)"
| timer_late: "\<lbrakk>sup_pc s = InSelect; timer_armed s; sup_state s \<noteq> StateBootstrapping\<rbrakk> \<Longrightarrow>
     sup_step ctx_done s Quiet (s\<lparr>timer_armed := False\<rparr>)"
| exit_failed: "\<lbrakk>sup_pc s = InSelect; waiter s = Some h; h \<notin> running s; exit_err s h \<noteq> None;
       sup_state s \<noteq> StateFailed\<rbrakk> \<Longrightarrow>
     sup_step ctx_done s Quiet
       (s\<lparr>sup_pc := InBackoff, sup_state := StateFailed, failures := failures s + 1\<rparr>)"
| exit_clean: "\<lbrakk>sup_pc s = InSelect; waiter s = Some h; h \<notin> running s;
       exit_err s h = None \<or> sup_state s = StateFailed\<rbrakk> \<Longrightarrow>
     sup_step ctx_done s Quiet (s\<lparr>sup_pc := Gone\<rparr>)"
| process_exits: "h \<in> running s \<Longrightarrow> sup_step ctx_done s Quiet (ends h err s)"
| rotate_stop: "\<lbrakk>\<not> rotating s; current s = Some h\<rbrakk> \<Longrightarrow>
     sup_step ctx_done s Rotates
       ((if h \<in> running s then ends h err s else s)
          \<lparr>sup_state := StateStarting, rotating := True, rotated := True\<rparr>)"
| rotate_stop_nil: "\<lbrakk>\<not> rotating s; current s = None\<rbrakk> \<Longrightarrow>
     sup_step ctx_done s Rotates (s\<lparr>sup_state := StateStarting, rotating := True, rotated := True\<rparr>)"
| rotate_start: "\<lbrakk>rotating s; \<not> ctx_done; h \<notin> used s\<rbrakk> \<Longrightarrow>
     sup_step ctx_done s Rotates ((new_process h s)\<lparr>rotating := False\<rparr>)"
| rotate_fails: "\<lbrakk>rotating s; st = StateFailed \<or> st = sup_state s\<rbrakk> \<Longrightarrow>
     sup_step ctx_done s Rotates (s\<lparr>sup_state := st, rotating := False\<rparr>)"

inductive_cases sup_ready_stepE: "sup_step ctx_done s SignalReady s'"

subsection \<open>All supervisors and the channel\<close>

text \<open>
  \<open>StartAllWithRestart\<close> makes a channel with room for one message per instance, starts the
  supervisors and receives until it has counted as many. A supervisor whose message finds the
  channel full drops it. The country daemon is started after \<open>StartAllWithRestart\<close> has
  returned, so rotations come only then.
\<close>

record fleet =
  sups :: "sup list"
  chan_len :: nat
  received :: nat
  dropped :: nat
  ctx_cancelled :: bool

definition fleet_init :: "nat \<Rightarrow> fleet" where
  "fleet_init n = \<lparr>sups = replicate n sup_init, chan_len = 0, received = 0, dropped = 0,
     ctx_cancelled = False\<rparr>"

definition all_started :: "fleet \<Rightarrow> bool" where
  "all_started f \<longleftrightarrow> received f = length (sups f)"

inductive fleet_step :: "fleet \<Rightarrow> fleet \<Rightarrow> bool" where
  quiet: "\<lbrakk>k < length (sups f); sup_step (ctx_cancelled f) (sups f ! k) Quiet s\<rbrakk> \<Longrightarrow>
     fleet_step f (f\<lparr>sups := (sups f)[k := s]\<rparr>)"
| send: "\<lbrakk>k < length (sups f); sup_step (ctx_cancelled f) (sups f ! k) SignalReady s;
       chan_len f < length (sups f)\<rbrakk> \<Longrightarrow>
     fleet_step f (f\<lparr>sups := (sups f)[k := s], chan_len := Suc (chan_len f)\<rparr>)"
| drop: "\<lbrakk>k < length (sups f); sup_step (ctx_cancelled f) (sups f ! k) SignalReady s;
       \<not> chan_len f < length (sups f)\<rbrakk> \<Longrightarrow>
     fleet_step f (f\<lparr>sups := (sups f)[k := s], dropped := Suc (dropped f)\<rparr>)"
| receive: "\<lbrakk>0 < chan_len f; \<not> all_started f\<rbrakk> \<Longrightarrow>
     fleet_step f (f\<lparr>chan_len := chan_len f - 1, received := Suc (received f)\<rparr>)"
| rotate: "\<lbrakk>k < length (sups f); all_started f; sup_step (ctx_cancelled f) (sups f ! k) Rotates s\<rbrakk> \<Longrightarrow>
     fleet_step f (f\<lparr>sups := (sups f)[k := s]\<rparr>)"
| cancel: "fleet_step f (f\<lparr>ctx_cancelled := True\<rparr>)"

inductive fleet_reach :: "nat \<Rightarrow> fleet \<Rightarrow> bool" for n where
  init: "fleet_reach n (fleet_init n)"
| step: "\<lbrakk>fleet_reach n f; fleet_step f f'\<rbrakk> \<Longrightarrow> fleet_reach n f'"


subsection \<open>Every message finds room, and starting means ready\<close>

definition ready_count :: "fleet \<Rightarrow> nat" where
  "ready_count f = sum_list (map (\<lambda>s. of_bool (ready_sent s)) (sups f))"

lemma ready_count_update:
  "k < length (sups f) \<Longrightarrow> ready_count (f\<lparr>sups := (sups f)[k := s]\<rparr>) + of_bool (ready_sent (sups f ! k)) =
     ready_count f + of_bool (ready_sent s)"
proof -
  assume k: "k < length (sups f)"
  have le: "of_bool (ready_sent (sups f ! k)) \<le> ready_count f"
    unfolding ready_count_def using k by (intro member_le_sum_list) (auto intro!: image_eqI [OF _ nth_mem])
  have "ready_count (f\<lparr>sups := (sups f)[k := s]\<rparr>) =
      ready_count f + of_bool (ready_sent s) - of_bool (ready_sent (sups f ! k))"
    using k by (simp add: ready_count_def map_update sum_list_update)
  with le show ?thesis by linarith
qed

lemma ready_count_le: "ready_count f \<le> length (sups f)"
proof -
  have "sum_list (map (\<lambda>s. of_bool (ready_sent s)) xs) \<le> length xs" for xs
    by (induction xs) auto
  then show ?thesis by (simp add: ready_count_def)
qed

lemma sum_bool_full: "sum_list (map (\<lambda>s. of_bool (P s)) xs) = length xs \<Longrightarrow> \<forall>s \<in> set xs. P s"
proof (induction xs)
  case (Cons x xs)
  have "sum_list (map (\<lambda>s. of_bool (P s)) xs) \<le> length xs" by (induction xs) auto
  with Cons show ?case by (cases "P x") auto
qed simp

lemma sup_step_ready_sent:
  "sup_step ctx s ev s' \<Longrightarrow> ready_sent s' = (ready_sent s \<or> ev = SignalReady) \<and>
     (ev = SignalReady \<longrightarrow> \<not> ready_sent s)"
  by (induction rule: sup_step.induct) (auto simp: new_process_def ends_def)

definition fleet_inv :: "nat \<Rightarrow> fleet \<Rightarrow> bool" where
  "fleet_inv n f \<longleftrightarrow> length (sups f) = n \<and> dropped f = 0 \<and>
     chan_len f + received f = ready_count f"

lemma ready_count_same:
  "\<lbrakk>k < length (sups f); ready_sent s = ready_sent (sups f ! k)\<rbrakk> \<Longrightarrow>
     ready_count (f\<lparr>sups := (sups f)[k := s]\<rparr>) = ready_count f"
  using ready_count_update [of k f s] by simp

lemma fleet_step_inv: "fleet_step f f' \<Longrightarrow> fleet_inv n f \<Longrightarrow> fleet_inv n f'"
proof (induction rule: fleet_step.induct)
  case (quiet k f s)
  with sup_step_ready_sent [OF quiet(2)] ready_count_same [OF quiet(1)] show ?case
    by (simp add: fleet_inv_def)
next
  case (send k f s)
  with sup_step_ready_sent [OF send(2)] ready_count_update [OF send(1), of s] show ?case
    by (simp add: fleet_inv_def ready_count_def)
next
  case (drop k f s)
  with sup_step_ready_sent [OF drop(2)] ready_count_update [OF drop(1), of s]
    ready_count_le [of "f\<lparr>sups := (sups f)[k := s]\<rparr>"] show ?case
    by (simp add: fleet_inv_def)
next
  case (receive f)
  then show ?case by (simp add: fleet_inv_def ready_count_def)
next
  case (rotate k f s)
  with sup_step_ready_sent [OF rotate(3)] ready_count_same [OF rotate(1)] show ?case
    by (simp add: fleet_inv_def)
next
  case (cancel f)
  then show ?case by (simp add: fleet_inv_def ready_count_def)
qed

lemma fleet_reach_inv: "fleet_reach n f \<Longrightarrow> fleet_inv n f"
proof (induction rule: fleet_reach.induct)
  case init
  show ?case by (simp add: fleet_inv_def fleet_init_def ready_count_def sup_init_def)
qed (rule fleet_step_inv)

lemma fleet_ready: "fleet_reach n f \<Longrightarrow> all_started f \<Longrightarrow> \<forall>s \<in> set (sups f). ready_sent s"
  using fleet_reach_inv [of n f] ready_count_le [of f] sum_bool_full [of ready_sent "sups f"]
  by (simp add: fleet_inv_def all_started_def ready_count_def)

text \<open>C21. No message of a supervisor is ever dropped, each instance reports itself at most once,
  and when \<open>StartAllWithRestart\<close> has received the last message every instance has been
  ready.\<close>

theorem ready_messages_counted:
  assumes "fleet_reach n f"
  shows "dropped f = 0 \<and> chan_len f + received f = ready_count f \<and> received f \<le> n \<and>
    (all_started f \<longrightarrow> (\<forall>s \<in> set (sups f). ready_sent s))"
  using fleet_reach_inv [OF assms] fleet_ready [OF assms] ready_count_le [of f] by (auto simp: fleet_inv_def)

subsection \<open>One process per instance\<close>

definition sup_inv :: "sup \<Rightarrow> bool" where
  "sup_inv s \<longleftrightarrow> rotated s \<or>
     running s \<subseteq> set_option (current s) \<and> (waiter s = None \<or> waiter s = current s) \<and> \<not> rotating s \<and>
     (sup_pc s = AtLoop \<or> sup_pc s = InBackoff \<longrightarrow> running s = {})"

lemma sup_step_inv: "sup_step ctx s ev s' \<Longrightarrow> sup_inv s \<Longrightarrow> sup_inv s'"
  by (induction rule: sup_step.induct) (auto simp: sup_inv_def new_process_def ends_def)

lemma sup_step_rotated: "sup_step ctx s ev s' \<Longrightarrow> ev \<noteq> Rotates \<Longrightarrow> rotated s' = rotated s"
  by (induction rule: sup_step.induct) (auto simp: new_process_def ends_def)

definition fleet_inv2 :: "fleet \<Rightarrow> bool" where
  "fleet_inv2 f \<longleftrightarrow> (\<forall>s \<in> set (sups f). sup_inv s \<and> (\<not> all_started f \<longrightarrow> \<not> rotated s)) \<and>
     received f \<le> length (sups f)"

lemma fleet_inv2_update:
  assumes "fleet_inv2 f" and "k < length (sups f)" and "sup_step (ctx_cancelled f) (sups f ! k) ev s"
    and "ev = Rotates \<longrightarrow> all_started f"
  shows "fleet_inv2 (f\<lparr>sups := (sups f)[k := s]\<rparr>)"
proof -
  have "sup_inv s" using sup_step_inv [OF assms(3)] assms(1,2) by (simp add: fleet_inv2_def)
  moreover have "\<not> all_started f \<longrightarrow> \<not> rotated s"
    using sup_step_rotated [OF assms(3)] assms(1,2,4) by (auto simp: fleet_inv2_def)
  ultimately show ?thesis
    using assms(1) set_update_subset_insert [of "sups f" k s]
    by (auto simp: fleet_inv2_def all_started_def)
qed

lemma fleet_step_inv2: "fleet_step f f' \<Longrightarrow> fleet_inv2 f \<Longrightarrow> fleet_inv2 f'"
proof (induction rule: fleet_step.induct)
  case (quiet k f s)
  then show ?case by (intro fleet_inv2_update) auto
next
  case (send k f s)
  then have "fleet_inv2 (f\<lparr>sups := (sups f)[k := s]\<rparr>)" by (intro fleet_inv2_update) auto
  then show ?case by (simp add: fleet_inv2_def all_started_def)
next
  case (drop k f s)
  then have "fleet_inv2 (f\<lparr>sups := (sups f)[k := s]\<rparr>)" by (intro fleet_inv2_update) auto
  then show ?case by (simp add: fleet_inv2_def all_started_def)
next
  case (rotate k f s)
  then show ?case by (intro fleet_inv2_update) auto
qed (auto simp: fleet_inv2_def all_started_def)

lemma fleet_reach_inv2: "fleet_reach n f \<Longrightarrow> fleet_inv2 f"
proof (induction rule: fleet_reach.induct)
  case init
  show ?case by (simp add: fleet_inv2_def fleet_init_def sup_inv_def sup_init_def)
qed (rule fleet_step_inv2)

text \<open>An instance that has not been rotated never has two processes at a time, in particular
  none has while the program starts; a restart comes only when the process before it is
  gone.\<close>

theorem one_process_each:
  assumes "fleet_reach n f" and "s \<in> set (sups f)" and "\<not> all_started f \<or> \<not> rotated s"
  shows "card (running s) \<le> 1 \<and>
    (sup_pc s = AtLoop \<or> sup_pc s = InBackoff \<longrightarrow> running s = {})"
proof -
  have "sup_inv s" and "\<not> rotated s"
    using fleet_reach_inv2 [OF assms(1)] assms(2,3) by (auto simp: fleet_inv2_def)
  then have sub: "running s \<subseteq> set_option (current s)"
    and idle: "sup_pc s = AtLoop \<or> sup_pc s = InBackoff \<longrightarrow> running s = {}"
    by (auto simp: sup_inv_def)
  have "card (running s) \<le> card (set_option (current s))"
    using sub by (intro card_mono) simp_all
  also have "\<dots> \<le> 1" by (cases "current s") auto
  finally show ?thesis using idle by simp
qed


subsection \<open>Runs\<close>

text \<open>A fleet of one instance, and its steps.\<close>

definition one :: "sup \<Rightarrow> nat \<Rightarrow> nat \<Rightarrow> fleet" where
  "one s chan recv = \<lparr>sups = [s], chan_len = chan, received = recv, dropped = 0, ctx_cancelled = False\<rparr>"

lemma one_steps:
  "sup_step False s Quiet s' \<Longrightarrow> fleet_step (one s c r) (one s' c r)"
  "sup_step False s SignalReady s' \<Longrightarrow> fleet_step (one s 0 r) (one s' 1 r)"
  "fleet_step (one s 1 0) (one s 0 1)"
  "sup_step False s Rotates s' \<Longrightarrow> fleet_step (one s c 1) (one s' c 1)"
  using fleet_step.quiet [of 0 "one s c r" s'] fleet_step.send [of 0 "one s 0 r" s']
    fleet_step.receive [of "one s 1 0"] fleet_step.rotate [of 0 "one s c 1" s']
  by (simp_all add: one_def all_started_def)

text \<open>The instance has started its first process and reported itself ready.\<close>

definition first_run :: sup where
  "first_run = (new_process 0 sup_init)\<lparr>sup_pc := InSelect, timer_armed := True, waiter := Some 0\<rparr>"

definition up :: sup where
  "up = first_run\<lparr>timer_armed := False, sup_state := StateReady, failures := 0, ready_sent := True\<rparr>"

lemmas run_defs = first_run_def up_def new_process_def ends_def sup_init_def

lemma first_run_reach: "fleet_reach 1 (one first_run 0 0)"
proof -
  have "fleet_reach 1 (one sup_init 0 0)"
    using fleet_reach.init [of 1] by (simp add: fleet_init_def one_def)
  then have "fleet_reach 1 (one ((new_process 0 sup_init)\<lparr>sup_pc := InSelect, timer_armed := True, waiter := None\<rparr>) 0 0)"
    by (rule fleet_reach.step [OF _ one_steps(1) [OF sup_step.start_ok]]) (simp_all add: sup_init_def)
  then show ?thesis
    by (rule fleet_reach.step [OF _ one_steps(1)])
       (use sup_step.waits [of "(new_process 0 sup_init)\<lparr>sup_pc := InSelect, timer_armed := True, waiter := None\<rparr>" False]
        in \<open>simp add: run_defs\<close>)
qed

lemma up_reach: "fleet_reach 1 (one up 0 1)"
proof -
  have "sup_step False first_run SignalReady up"
    using sup_step.timer_first [of first_run False] by (simp add: run_defs)
  then have "fleet_reach 1 (one up 1 0)"
    by (rule fleet_reach.step [OF first_run_reach one_steps(2)])
  then show ?thesis by (rule fleet_reach.step [OF _ one_steps(3)])
qed

lemma ready_messages_counted_witness:
  "all_started (one up 0 1) \<and> sups (one up 0 1) = [up] \<and> ready_sent up"
  using ready_messages_counted [OF up_reach] by (simp add: one_def all_started_def)

lemma one_process_each_witness:
  "up \<in> set (sups (one up 0 1)) \<and> \<not> rotated up \<and> card (running up) \<le> 1"
  using one_process_each [OF up_reach, of up] by (simp add: one_def run_defs)

text \<open>A property of all states from a given one on.\<close>

definition always :: "(fleet \<Rightarrow> bool) \<Rightarrow> fleet \<Rightarrow> bool" where
  "always P f \<longleftrightarrow> (\<forall>f'. fleet_step\<^sup>*\<^sup>* f f' \<longrightarrow> P f')"

subsection \<open>What a rotation does to the supervision\<close>

text \<open>A rotation that stops the process, with \<open>err\<close> the outcome, and the state after it.\<close>

definition stopped_with :: "string option \<Rightarrow> sup" where
  "stopped_with err = (ends 0 err up)\<lparr>sup_state := StateStarting, rotating := True, rotated := True\<rparr>"

lemma stopped_reach: "fleet_reach 1 (one (stopped_with err) 0 1)"
  by (rule fleet_reach.step [OF up_reach one_steps(4)])
     (use sup_step.rotate_stop [of up 0 False err] in \<open>simp add: stopped_with_def run_defs\<close>)

lemma gone_step:
  "sup_step ctx s ev s' \<Longrightarrow> sup_pc s = Gone \<Longrightarrow>
     sup_pc s' = Gone \<and> (sup_state s' = StateReady \<longrightarrow> sup_state s = StateReady) \<and>
     ready_sent s' = ready_sent s"
  by (induction rule: sup_step.induct) (auto simp: new_process_def ends_def)

text \<open>The one instance of a fleet, unsupervised for good.\<close>

definition abandoned :: "fleet \<Rightarrow> bool" where
  "abandoned f \<longleftrightarrow> length (sups f) = 1 \<and> sup_pc (sups f ! 0) = Gone \<and> sup_state (sups f ! 0) \<noteq> StateReady"

lemma abandoned_step: "fleet_step f f' \<Longrightarrow> abandoned f \<Longrightarrow> abandoned f'"
  by (induction rule: fleet_step.induct) (auto simp: abandoned_def dest: gone_step)

lemma abandoned_run: "fleet_step\<^sup>*\<^sup>* f f' \<Longrightarrow> abandoned f \<Longrightarrow> abandoned f'"
  by (induction rule: rtranclp_induct) (auto intro: abandoned_step)


text \<open>When the stopped process ends with an error, as it does when it has to be killed, the
  supervisor starts the instance again after its pause although the rotation has already done
  so: two processes then run with the ports and the data directory of one instance.\<close>

theorem rotation_starts_twice:
  "\<exists>f. fleet_reach 1 f \<and> \<not> ctx_cancelled f \<and> card (running (sups f ! 0)) = 2"
proof -
  let ?s0 = "stopped_with (Some ''signal: killed'')"
  let ?s1 = "?s0\<lparr>sup_pc := InBackoff, sup_state := StateFailed, failures := failures ?s0 + 1\<rparr>"
  let ?s2 = "(new_process 1 ?s1)\<lparr>rotating := False\<rparr>"
  let ?s3 = "?s2\<lparr>sup_pc := AtLoop\<rparr>"
  let ?s4 = "(new_process 2 ?s3)\<lparr>sup_pc := InSelect, timer_armed := True, waiter := None\<rparr>"
  have "fleet_reach 1 (one ?s1 0 1)"
    by (rule fleet_reach.step [OF stopped_reach one_steps(1) [OF sup_step.exit_failed [where h = 0]]])
       (simp_all add: stopped_with_def run_defs)
  then have "fleet_reach 1 (one ?s2 0 1)"
    by (rule fleet_reach.step [OF _ one_steps(4) [OF sup_step.rotate_start]])
       (simp_all add: stopped_with_def run_defs)
  then have "fleet_reach 1 (one ?s3 0 1)"
    by (rule fleet_reach.step [OF _ one_steps(1) [OF sup_step.backoff_over]])
       (simp add: stopped_with_def run_defs)
  then have "fleet_reach 1 (one ?s4 0 1)"
    by (rule fleet_reach.step [OF _ one_steps(1) [OF sup_step.start_ok]])
       (simp_all add: stopped_with_def run_defs)
  moreover have "running ?s4 = {1, 2}"
    by (auto simp: stopped_with_def run_defs)
  ultimately show ?thesis
    by (intro exI [of _ "one ?s4 0 1"]) (simp add: one_def)
qed

text \<open>The one instance of a fleet is gone before it has reported itself.\<close>

definition never_up :: "fleet \<Rightarrow> bool" where
  "never_up f \<longleftrightarrow> length (sups f) = 1 \<and> sup_pc (sups f ! 0) = Gone \<and> \<not> ready_sent (sups f ! 0)"

lemma never_up_step: "fleet_step f f' \<Longrightarrow> never_up f \<Longrightarrow> never_up f'"
  by (induction rule: fleet_step.induct) (auto simp: never_up_def dest: gone_step)

lemma never_up_run:
  "fleet_step\<^sup>*\<^sup>* f f' \<Longrightarrow> fleet_reach n f \<Longrightarrow> never_up f \<Longrightarrow> fleet_reach n f' \<and> never_up f'"
  by (induction rule: rtranclp_induct) (auto intro: fleet_reach.step never_up_step)

lemma never_up_not_started: "fleet_reach 1 f \<Longrightarrow> never_up f \<Longrightarrow> \<not> all_started f"
  using fleet_reach_inv [of 1 f]
  by (cases "sups f") (auto simp: never_up_def fleet_inv_def all_started_def ready_count_def)


end
