(* ===== verification/Haproxy.thy ===== *)
theory Haproxy
  imports Tor_Manager
begin

section \<open>The load balancer (internal/haproxy)\<close>

text \<open>
  HAProxy runs as one child process in front of the Tor instances. \<open>BuildConfigData\<close> turns the
  configuration and the instances into the data of its configuration file; the manager writes
  the file, starts the process, replaces it on a reload and stops it. File system, template
  engine and random source are the record \<open>hap_sys\<close> over a world \<open>'o\<close>; \<open>None\<close> is the panic of
  an index out of range in a shuffle. The configuration is the one all components share.
\<close>

record Backend =
  backend_Name :: string
  backend_Address :: string
  backend_Port :: int
  backend_CheckInterval :: int
  backend_MaxFail :: int
  backend_MinSuccess :: int

record ConfigData =
  data_Listen :: string
  data_SOCKSPort :: int
  data_HTTPPort :: int
  data_StatsListen :: string
  data_StatsPort :: int
  data_StatsURI :: string
  data_StatsPassword :: string
  data_ClientTimeout :: int
  data_ServerTimeout :: int
  data_Retries :: int
  data_BalanceAlgorithm :: string
  data_CheckInterval :: int
  data_MaxFail :: int
  data_MinSuccess :: int
  HTTPBackends :: "Backend list"
  SOCKSBackends :: "Backend list"

subsection \<open>The data of the configuration file\<close>

definition backend :: "Config \<Rightarrow> string \<Rightarrow> int \<Rightarrow> Backend" where
  "backend cfg name port =
     \<lparr>backend_Name = name, backend_Address = ''127.0.0.1'', backend_Port = port,
      backend_CheckInterval = HC_Interval (HealthCheck cfg), backend_MaxFail = MaxFail (HealthCheck cfg),
      backend_MinSuccess = MinimumSuccess (HealthCheck cfg)\<rparr>"

text \<open>The loop over the instances, with the two lists built so far.\<close>

fun backends_loop :: "Config \<Rightarrow> Instance list \<Rightarrow> Backend list \<Rightarrow> Backend list \<Rightarrow> Backend list \<times> Backend list" where
  "backends_loop cfg [] http socks = (http, socks)"
| "backends_loop cfg (inst # insts) http socks =
     (let socks' = socks @ [backend cfg (''tor_socks_'' @ itoa (inst_ID inst)) (inst_SocksPort inst)];
          http' =
            (if ProxyMode cfg = ''native'' then
               (if 0 < inst_HTTPPort inst
                then http @ [backend cfg (''tor_http_'' @ itoa (inst_ID inst)) (inst_HTTPPort inst)]
                else http)
             else http @ [backend cfg (''privoxy_'' @ itoa (inst_ID inst))
                            (add64 (Privoxy_StartPort (Privoxy cfg)) (inst_ID inst))])
      in backends_loop cfg insts http' socks')"

definition BuildConfigData ::
  "Config \<Rightarrow> Instance list \<Rightarrow> string \<Rightarrow> (nat \<times> nat) list \<Rightarrow> (nat \<times> nat) list \<Rightarrow> ConfigData option" where
  "BuildConfigData cfg insts password shuffle1 shuffle2 =
     (case backends_loop cfg insts [] [] of (http, socks) \<Rightarrow>
        Option.bind (apply_swaps http shuffle1) (\<lambda>http'.
        Option.bind (apply_swaps socks shuffle2) (\<lambda>socks'.
        Some
         \<lparr>data_Listen = Master_Listen (Master (Proxy cfg)),
          data_SOCKSPort = SocksPort (Master (Proxy cfg)),
          data_HTTPPort = HTTPPort (Master (Proxy cfg)),
          data_StatsListen = Stats_Listen (Stats (Proxy cfg)),
          data_StatsPort = Stats_Port (Stats (Proxy cfg)),
          data_StatsURI = Stats_URI (Stats (Proxy cfg)),
          data_StatsPassword = password,
          data_ClientTimeout = ClientTimeout (Master (Proxy cfg)),
          data_ServerTimeout = ServerTimeout (Master (Proxy cfg)),
          data_Retries = Retries (Instances cfg),
          data_BalanceAlgorithm = LoadBalanceAlgorithm (Proxy cfg),
          data_CheckInterval = HC_Interval (HealthCheck cfg),
          data_MaxFail = MaxFail (HealthCheck cfg),
          data_MinSuccess = MinimumSuccess (HealthCheck cfg),
          HTTPBackends = http', SOCKSBackends = socks'\<rparr>)))"

text \<open>
  \<open>generateStatsPassword\<close>; \<open>draw i\<close> is what the cryptographic source gives for position \<open>i\<close>,
  \<open>None\<close> for an error.
\<close>

definition charset :: string where
  "charset = ''abcdefghijklmnopqrstuvwxyzABCDEFGHIJKLMNOPQRSTUVWXYZ0123456789''"

definition generateStatsPassword :: "(nat \<Rightarrow> nat option) \<Rightarrow> string" where
  "generateStatsPassword draw =
     map (\<lambda>i. case draw i of None \<Rightarrow> charset ! (i mod length charset) | Some n \<Rightarrow> charset ! n) [0..<16]"

subsection \<open>The manager\<close>

record HAProxyManager =
  statsPassword :: string
  configFile :: string
  hap_proc :: "nat option"

record 'o hap_sys =
  hap_MkdirAll :: "string \<Rightarrow> 'o \<Rightarrow> os_error option \<times> 'o"
  hap_shuffles :: "nat \<Rightarrow> nat \<Rightarrow> 'o \<Rightarrow> ((nat \<times> nat) list \<times> (nat \<times> nat) list) \<times> 'o"
  hap_ParseFiles :: "string \<Rightarrow> 'o \<Rightarrow> string option"
  hap_Create :: "string \<Rightarrow> 'o \<Rightarrow> os_error option \<times> 'o"
  hap_Execute :: "string \<Rightarrow> ConfigData \<Rightarrow> 'o \<Rightarrow> string option \<times> 'o"
  hap_ctx_Err :: "'o \<Rightarrow> ctx_error option"
  hap_cmd_Start :: "string \<Rightarrow> string list \<Rightarrow> 'o \<Rightarrow> (string + nat) \<times> 'o"
  hap_cmd_Wait :: "nat \<Rightarrow> 'o \<Rightarrow> string option \<times> 'o"

datatype hap_error =
    HapMkdir os_error
  | HapParse string
  | HapCreate os_error
  | HapExecute string
  | HapSpawn spawn_error
  | NotRunning
  | NoPid

definition NewHAProxyManager :: "Config \<Rightarrow> (nat \<Rightarrow> nat option) \<Rightarrow> HAProxyManager" where
  "NewHAProxyManager cfg draw =
     \<lparr>statsPassword = generateStatsPassword draw, configFile = ConfigFile (HAProxy cfg), hap_proc = None\<rparr>"

text \<open>\<open>filepath.Dir\<close>: what is before the last slash, cleaned.\<close>

definition filepath_Dir :: "string \<Rightarrow> string" where
  "filepath_Dir p = path_clean (rev (dropWhile (\<lambda>c. c \<noteq> CHR ''/'') (rev p)))"

definition GenerateConfig ::
  "'o hap_sys \<Rightarrow> Config \<Rightarrow> Instance list \<Rightarrow> HAProxyManager \<Rightarrow> 'o \<Rightarrow> (hap_error option \<times> 'o) option" where
  "GenerateConfig sys cfg insts m w =
     (case hap_MkdirAll sys (filepath_Dir (configFile m)) w of
        (Some err, w1) \<Rightarrow> Some (Some (HapMkdir err), w1)
      | (None, w1) \<Rightarrow>
          (case backends_loop cfg insts [] [] of (http, socks) \<Rightarrow>
          (case hap_shuffles sys (length http) (length socks) w1 of ((s1, s2), w2) \<Rightarrow>
             (case BuildConfigData cfg insts (statsPassword m) s1 s2 of
                None \<Rightarrow> None
              | Some data \<Rightarrow>
                  (case hap_ParseFiles sys ''templates/haproxy.cfg.gotmpl'' w2 of
                     Some err \<Rightarrow> Some (Some (HapParse err), w2)
                   | None \<Rightarrow>
                       (case hap_Create sys (configFile m) w2 of
                          (Some err, w3) \<Rightarrow> Some (Some (HapCreate err), w3)
                        | (None, w3) \<Rightarrow>
                            (case hap_Execute sys (configFile m) data w3 of
                               (Some err, w4) \<Rightarrow> Some (Some (HapExecute err), w4)
                             | (None, w4) \<Rightarrow> Some (None, w4))))))))"

text \<open>A call of \<open>Spawn\<close>: the context is looked at first, then the command is started.\<close>

definition hap_spawn ::
  "'o hap_sys \<Rightarrow> string \<Rightarrow> string \<Rightarrow> string list \<Rightarrow> Manager \<Rightarrow> 'o \<Rightarrow> (spawn_error + nat) \<times> Manager \<times> 'o" where
  "hap_spawn sys name binary args pm w =
     (case hap_ctx_Err sys w of
        Some e \<Rightarrow> (case Spawn (Some e) name binary args (Inl []) pm of (r, pm') \<Rightarrow> (r, pm', w))
      | None \<Rightarrow>
          (case hap_cmd_Start sys binary args w of (start, w') \<Rightarrow>
             (case Spawn None name binary args start pm of (r, pm') \<Rightarrow> (r, pm', w'))))"

definition Hap_Start ::
  "'o hap_sys \<Rightarrow> Config \<Rightarrow> HAProxyManager \<Rightarrow> Manager \<Rightarrow> 'o \<Rightarrow> hap_error option \<times> HAProxyManager \<times> Manager \<times> 'o" where
  "Hap_Start sys cfg m pm w =
     (case hap_spawn sys ''haproxy'' (HAProxy_BinaryPath (HAProxy cfg)) [''-f'', configFile m] pm w of
        (Inl err, pm', w') \<Rightarrow> (Some (HapSpawn err), m, pm', w')
      | (Inr h, pm', w') \<Rightarrow> (None, m\<lparr>hap_proc := Some h\<rparr>, pm', w'))"

definition Hap_Stop ::
  "'o hap_sys \<Rightarrow> HAProxyManager \<Rightarrow> Manager \<Rightarrow> 'o \<Rightarrow> hap_error option \<times> HAProxyManager \<times> Manager \<times> 'o" where
  "Hap_Stop sys m pm w =
     (case hap_proc m of
        None \<Rightarrow> (None, m, pm, w)
      | Some h \<Rightarrow>
          (case hap_cmd_Wait sys h w of (waitErr, w') \<Rightarrow>
             (None, m\<lparr>hap_proc := None\<rparr>, Stop (Some h) waitErr pm, w')))"

definition Hap_Reload ::
  "'o hap_sys \<Rightarrow> Config \<Rightarrow> HAProxyManager \<Rightarrow> Manager \<Rightarrow> 'o \<Rightarrow> hap_error option \<times> HAProxyManager \<times> Manager \<times> 'o" where
  "Hap_Reload sys cfg m pm w =
     (case hap_proc m of
        None \<Rightarrow> (Some NotRunning, m, pm, w)
      | Some old \<Rightarrow>
          (let pid = Pid pm old
           in if pid = 0 then (Some NoPid, m, pm, w)
              else (case hap_spawn sys ''haproxy-reload'' (HAProxy_BinaryPath (HAProxy cfg))
                        [''-f'', configFile m, ''-sf'', itoa (int pid)] pm w of
                      (Inl err, pm', w') \<Rightarrow> (Some (HapSpawn err), m, pm', w')
                    | (Inr h, pm', w') \<Rightarrow> (None, m\<lparr>hap_proc := Some h\<rparr>, pm', w'))))"

subsection \<open>Every instance is a backend\<close>

definition socks_backend :: "Config \<Rightarrow> Instance \<Rightarrow> Backend" where
  "socks_backend cfg inst = backend cfg (''tor_socks_'' @ itoa (inst_ID inst)) (inst_SocksPort inst)"

definition http_backend :: "Config \<Rightarrow> Instance \<Rightarrow> Backend" where
  "http_backend cfg inst =
     (if ProxyMode cfg = ''native'' then backend cfg (''tor_http_'' @ itoa (inst_ID inst)) (inst_HTTPPort inst)
      else backend cfg (''privoxy_'' @ itoa (inst_ID inst))
             (add64 (Privoxy_StartPort (Privoxy cfg)) (inst_ID inst)))"

definition has_http :: "Config \<Rightarrow> Instance \<Rightarrow> bool" where
  "has_http cfg inst \<longleftrightarrow> ProxyMode cfg = ''native'' \<longrightarrow> 0 < inst_HTTPPort inst"

lemma backends_loop_closed:
  "backends_loop cfg insts http socks =
     (http @ map (http_backend cfg) (filter (has_http cfg) insts), socks @ map (socks_backend cfg) insts)"
  by (induction insts arbitrary: http socks)
     (auto simp: http_backend_def socks_backend_def has_http_def Let_def)

lemma backend_names:
  "backend_Name (socks_backend cfg i) = ''tor_socks_'' @ itoa (inst_ID i)"
  "backend_Port (socks_backend cfg i) = inst_SocksPort i"
  "backend_Name (http_backend cfg i) =
     (if ProxyMode cfg = ''native'' then ''tor_http_'' else ''privoxy_'') @ itoa (inst_ID i)"
  by (simp_all add: socks_backend_def http_backend_def backend_def)

lemma distinct_names:
  assumes "distinct (map inst_ID insts)"
  shows "distinct (map (\<lambda>i. p @ itoa (inst_ID i)) insts)"
  using assms by (simp add: distinct_map inj_on_def)

text \<open>The configuration file balances over exactly the Tor instances: in some order, one SOCKS
  backend for each with its SOCKS port, and for HTTP, one Privoxy backend for each in legacy
  mode and one for each instance that has an HTTP tunnel port in native mode. Instances with
  distinct numbers give backends with distinct names, and the shuffling never panics.\<close>

theorem BuildConfigData_backends:
  assumes "swaps_in_range (length (filter (has_http cfg) insts)) s1"
    and "swaps_in_range (length insts) s2" and "distinct (map inst_ID insts)"
  shows "\<exists>d. BuildConfigData cfg insts pw s1 s2 = Some d \<and>
    mset (SOCKSBackends d) = mset (map (socks_backend cfg) insts) \<and>
    mset (HTTPBackends d) = mset (map (http_backend cfg) (filter (has_http cfg) insts)) \<and>
    distinct (map backend_Name (SOCKSBackends d)) \<and> distinct (map backend_Name (HTTPBackends d)) \<and>
    data_StatsPassword d = pw"
proof -
  let ?http = "map (http_backend cfg) (filter (has_http cfg) insts)"
  let ?socks = "map (socks_backend cfg) insts"
  obtain http' where h: "apply_swaps ?http s1 = Some http'"
    using apply_swaps_total [of ?http s1] assms(1) by auto
  obtain socks' where s: "apply_swaps ?socks s2 = Some socks'"
    using apply_swaps_total [of ?socks s2] assms(2) by auto
  have mh: "mset http' = mset ?http" and ms: "mset socks' = mset ?socks"
    using apply_swaps_mset h s by metis+
  have "distinct (map backend_Name ?http)"
    using distinct_names [of "filter (has_http cfg) insts" "''tor_http_''"]
      distinct_names [of "filter (has_http cfg) insts" "''privoxy_''"] assms(3)
    by (simp add: comp_def backend_names distinct_map_filter)
  moreover have "distinct (map backend_Name ?socks)"
    using distinct_names [OF assms(3), of "''tor_socks_''"] by (simp add: comp_def backend_names)
  ultimately have "distinct (map backend_Name http')" and "distinct (map backend_Name socks')"
    using mh ms by (metis mset_eq_imp_distinct_iff mset_map)+
  with h s mh ms show ?thesis
    by (simp add: BuildConfigData_def backends_loop_closed)
qed

subsection \<open>The password\<close>

text \<open>The statistics password has sixteen characters, all letters and digits, also where the
  random source fails.\<close>

theorem stats_password_alphanumeric:
  assumes "\<forall>i n. draw i = Some n \<longrightarrow> n < 62"
  shows "length (generateStatsPassword draw) = 16 \<and> set (generateStatsPassword draw) \<subseteq> set charset"
proof -
  have len: "length charset = 62" by (simp add: charset_def)
  have "(case draw i of None \<Rightarrow> charset ! (i mod length charset) | Some n \<Rightarrow> charset ! n) \<in> set charset" for i
    using assms len by (cases "draw i") (auto intro!: nth_mem)
  then show ?thesis by (auto simp: generateStatsPassword_def)
qed

lemma stats_password_alphanumeric_witness:
  "length (generateStatsPassword (\<lambda>i. if i = 3 then None else Some (61 - i))) = 16 \<and>
   generateStatsPassword (\<lambda>i. if i = 3 then None else Some (61 - i)) ! 3 = CHR ''d''"
proof -
  have "\<forall>i n. (if i = 3 then None else Some (61 - i)) = Some n \<longrightarrow> n < (62 :: nat)"
    by (auto split: if_splits)
  from stats_password_alphanumeric [OF this] show ?thesis
    by (simp add: generateStatsPassword_def charset_def)
qed


definition demo_instances :: "Instance list" where
  "demo_instances = created Defaults (Version 0 4 8 17) [''{DE}'']"

lemma demo_instances_facts:
  "map inst_ID demo_instances = [0, 1]" "length demo_instances = 2"
  "filter (has_http cfg) demo_instances = demo_instances"
  by (simp_all add: demo_instances_def created_closed Defaults_def upt_conv_Cons numeral_2_eq_2
      has_http_def supports_defs atLeast.simps add64_def wrap64_def)

lemma BuildConfigData_backends_witness:
  "\<exists>d. BuildConfigData Defaults demo_instances ''secret'' [(0, 1)] [] = Some d \<and>
    mset (map backend_Name (SOCKSBackends d)) = {#''tor_socks_0'', ''tor_socks_1''#}"
proof -
  have "swaps_in_range (length (filter (has_http Defaults) demo_instances)) [(0, 1)]"
    and "swaps_in_range (length demo_instances) []" and "distinct (map inst_ID demo_instances)"
    by (simp_all add: demo_instances_facts swaps_in_range_def)
  from BuildConfigData_backends [OF this, of "''secret''"] obtain d where
    "BuildConfigData Defaults demo_instances ''secret'' [(0, 1)] [] = Some d"
    and m: "mset (SOCKSBackends d) = mset (map (socks_backend Defaults) demo_instances)" by blast
  moreover have "mset (map backend_Name (SOCKSBackends d)) =
      mset (map (\<lambda>i. ''tor_socks_'' @ itoa i) (map inst_ID demo_instances))"
    using arg_cong [OF m, of "image_mset backend_Name"] by (simp add: multiset.map_comp comp_def backend_names)
  ultimately show ?thesis
    by (auto simp: demo_instances_facts itoa_def decimal.simps digit_char_def go_eval)
qed

subsection \<open>Replacing the running process\<close>

lemma hap_spawn_cases:
  assumes "hap_spawn sys name binary args pm w = (r, pm', w')"
  obtains (failed) err where "r = Inl err" and "pm' = pm"
    | (ok) p where "r = Inr (length (processes pm))" and "pm' = add p pm" and "proc_Name p = name"
      and "proc_Path p = binary" and "proc_Args p = args" and "pstate p = P_StateRunning"
      and "\<not> done_closed p"
proof (cases r)
  case (Inl err)
  with assms show thesis
    by (intro failed [of err]) (auto simp: hap_spawn_def Spawn_def split: option.splits sum.splits prod.splits)
next
  case (Inr h)
  with assms obtain start v pid where
    "hap_ctx_Err sys w = None" and "hap_cmd_Start sys binary args w = (start, v)" and "start = Inr pid"
    by (auto simp: hap_spawn_def Spawn_def split: option.splits sum.splits prod.splits)
  with assms Inr show thesis
    by (intro ok [of "\<lparr>proc_Name = name, proc_Path = binary, proc_Args = args, proc_pid = pid,
      pstate = P_StateRunning, done_closed = False, proc_wait = None\<rparr>"])
       (auto simp: hap_spawn_def Spawn_def)
qed

lemma Hap_Stop_ends:
  assumes "hap_proc m = Some h" and "old \<noteq> h" and "h < length (processes pm)"
    and "Hap_Stop sys m pm w = (e2, m2, pm2, w2)"
  shows "e2 = None \<and> hap_proc m2 = None \<and> processes pm2 ! old = processes pm ! old \<and>
    Process_State pm2 h \<noteq> P_StateRunning"
proof -
  from assms obtain waitErr where "e2 = None" "hap_proc m2 = None" "pm2 = Stop (Some h) waitErr pm"
    by (auto simp: Hap_Stop_def split: prod.splits)
  then show ?thesis
    using Stop_done [OF assms(3), of waitErr] assms(2) by (simp add: Process_State_def)
qed

text \<open>C18. A reload starts a second process that is told to take over from the process running so
  far, by its process id, and leaves that one's record alone; from then on the manager holds the
  new process, which is the one a later stop ends. A reload that fails changes neither the
  manager nor the processes.\<close>

theorem Reload_hands_over:
  assumes "hap_proc m = Some old" and "old < length (processes pm)"
    and "Hap_Reload sys cfg m pm w = (e, m', pm', w')"
  shows "(e \<noteq> None \<longrightarrow> m' = m \<and> pm' = pm) \<and>
    (e = None \<longrightarrow>
       (\<exists>new. hap_proc m' = Some new \<and> new = length (processes pm) \<and>
          length (processes pm') = Suc new \<and> processes pm' ! old = processes pm ! old \<and>
          proc_Args (processes pm' ! new) =
            [''-f'', configFile m, ''-sf'', itoa (int (Pid pm old))] \<and>
          Process_State pm' new = P_StateRunning \<and>
          (\<forall>e2 m2 pm2 w2. Hap_Stop sys m' pm' w' = (e2, m2, pm2, w2) \<longrightarrow>
             e2 = None \<and> hap_proc m2 = None \<and> processes pm2 ! old = processes pm ! old \<and>
             Process_State pm2 new \<noteq> P_StateRunning)))"
proof (cases "Pid pm old = 0")
  case True
  with assms show ?thesis by (auto simp: Hap_Reload_def)
next
  case False
  obtain r pm1 w1 where sp: "hap_spawn sys ''haproxy-reload'' (HAProxy_BinaryPath (HAProxy cfg))
      [''-f'', configFile m, ''-sf'', itoa (int (Pid pm old))] pm w = (r, pm1, w1)"
    by (metis prod_cases3)
  from sp show ?thesis
  proof (cases rule: hap_spawn_cases)
    case (failed err)
    with assms False sp show ?thesis by (auto simp: Hap_Reload_def)
  next
    case (ok p)
    let ?new = "length (processes pm)"
    have res: "e = None" "m' = m\<lparr>hap_proc := Some ?new\<rparr>" "pm' = add p pm" "w' = w1"
      using assms False sp ok by (auto simp: Hap_Reload_def)
    have "old \<noteq> ?new" using assms(2) by simp
    note stop = Hap_Stop_ends [OF _ \<open>old \<noteq> ?new\<close>]
    have new: "hap_proc m' = Some ?new" "length (processes pm') = Suc ?new"
      "processes pm' ! old = processes pm ! old" "Process_State pm' ?new = P_StateRunning"
      "proc_Args (processes pm' ! ?new) = [''-f'', configFile m, ''-sf'', itoa (int (Pid pm old))]"
      using ok assms(2) by (simp_all add: res Process_State_def)
    then show ?thesis using res(1) stop [of m' pm' sys w'] by auto
  qed
qed

definition demo_hap_sys :: "nat hap_sys" where
  "demo_hap_sys =
     \<lparr>hap_MkdirAll = (\<lambda>p w. (None, w)), hap_shuffles = (\<lambda>a b w. (([], []), w)),
      hap_ParseFiles = (\<lambda>p w. None), hap_Create = (\<lambda>p w. (None, w)),
      hap_Execute = (\<lambda>p d w. (None, w)), hap_ctx_Err = (\<lambda>w. None),
      hap_cmd_Start = (\<lambda>b args w. (Inr w, w + 1)), hap_cmd_Wait = (\<lambda>h w. (None, w))\<rparr>"

definition running_haproxy :: HAProxyManager where
  "running_haproxy = \<lparr>statsPassword = ''secret'', configFile = ''/tmp/splitter/haproxy.cfg'', hap_proc = Some 0\<rparr>"

lemma Reload_hands_over_witness:
  "\<exists>m' pm' w'. Hap_Reload demo_hap_sys Defaults running_haproxy one_process 9 = (None, m', pm', w') \<and>
     hap_proc m' = Some 1 \<and> proc_Args (processes pm' ! 1) = [''-f'', ''/tmp/splitter/haproxy.cfg'', ''-sf'', ''4712'']"
proof -
  obtain e m' pm' w' where r: "Hap_Reload demo_hap_sys Defaults running_haproxy one_process 9 = (e, m', pm', w')"
    by (metis prod_cases4)
  then have "e = None"
    by (auto simp: Hap_Reload_def running_haproxy_def demo_hap_sys_def hap_spawn_def Spawn_def
        one_process_def NewManager_def add_def Pid_def)
  have "hap_proc running_haproxy = Some 0" "0 < length (processes one_process)"
    by (simp_all add: running_haproxy_def one_process_facts)
  note t = Reload_hands_over [OF this r]
  have "itoa (int (Pid one_process 0)) = ''4712''"
    by (simp add: Pid_def one_process_def Spawn_def NewManager_def add_def itoa_def decimal.simps
        digit_char_def go_eval)
  with t r \<open>e = None\<close> show ?thesis
    by (auto simp: one_process_facts running_haproxy_def)
qed

end
