(* ===== verification/Cmd_Reload.thy ===== *)
theory Cmd_Reload
  imports Config_Load Haproxy
begin

section \<open>Reloading the configuration (cmd/reload.go and handleReload of cmd/run.go)\<close>

text \<open>
  On SIGHUP the program loads its configuration again, compares it with the one it runs on, and
  hands changes to the rotation daemon and to HAProxy. The configuration is one object that
  all managers share, so an assignment to it is seen by HAProxy's manager. A nil and an empty
  slice are both the empty list here. \<open>None\<close> is the panic of a shuffle.
\<close>

record configDiff =
  CountryListChanged :: bool
  RotationChanged :: bool
  HAProxyChanged :: bool
  TorChanged :: bool

definition diffConfig :: "Config \<Rightarrow> Config \<Rightarrow> configDiff" where
  "diffConfig old newCfg =
     \<lparr>CountryListChanged =
        (Accepted (Country old) \<noteq> Accepted (Country newCfg)
         \<or> Blacklisted (Country old) \<noteq> Blacklisted (Country newCfg)),
      RotationChanged =
        (Rotation_Interval (Rotation (Country old)) \<noteq> Rotation_Interval (Rotation (Country newCfg))
         \<or> Rotation_Enabled (Rotation (Country old)) \<noteq> Rotation_Enabled (Rotation (Country newCfg))
         \<or> TotalToChange (Rotation (Country old)) \<noteq> TotalToChange (Rotation (Country newCfg))),
      HAProxyChanged =
        (Proxy old \<noteq> Proxy newCfg \<or> HealthCheck old \<noteq> HealthCheck newCfg
         \<or> Retries (Instances old) \<noteq> Retries (Instances newCfg)
         \<or> ProxyMode old \<noteq> ProxyMode newCfg \<or> Privoxy old \<noteq> Privoxy newCfg),
      TorChanged =
        (Tor old \<noteq> Tor newCfg \<or> Enforce (Relay old) \<noteq> Enforce (Relay newCfg))\<rparr>"

definition Summary :: "configDiff \<Rightarrow> string" where
  "Summary d =
     (let parts = (if CountryListChanged d then [''country list''] else []) @
                  (if RotationChanged d then [''rotation interval''] else []) @
                  (if HAProxyChanged d then [''haproxy config''] else []) @
                  (if TorChanged d then [''tor config (restart needed)''] else [])
      in if length parts = 0 then ''no changes detected'' else join_with '', '' parts)"

subsection \<open>The handler\<close>

record 'o run_state =
  appCfg :: Config
  run_instances :: "Instance list"
  run_daemon :: Daemon
  run_haproxy :: HAProxyManager
  run_procs :: Manager
  run_outside :: 'o

text \<open>What the handler prints before it returns.\<close>

datatype reload_result =
    LoadFailed load_error
  | GenerateFailed hap_error
  | HapReloadFailed hap_error
  | Reloaded string

definition reload_options :: LoadOptions where
  "reload_options = \<lparr>ConfigPath = ''configs/default.yaml'', ProfilesPath = [], UserAgentsPath = [],
     EnvPrefix = ''SPLITTER_'', Flags = None\<rparr>"

text \<open>The first branch: the daemon gets the new configuration, the shared one its country section.\<close>

definition reload_country :: "configDiff \<Rightarrow> Config \<Rightarrow> 'o run_state \<Rightarrow> 'o run_state" where
  "reload_country changes newCfg s =
     (if CountryListChanged changes \<or> RotationChanged changes
      then s\<lparr>run_daemon := UpdateConfig newCfg (run_daemon s), appCfg := (appCfg s)\<lparr>Country := Country newCfg\<rparr>\<rparr>
      else s)"

definition adopt_haproxy :: "Config \<Rightarrow> Config \<Rightarrow> Config" where
  "adopt_haproxy newCfg cfg =
     cfg\<lparr>Proxy := Proxy newCfg, HealthCheck := HealthCheck newCfg,
         Instances := (Instances cfg)\<lparr>Retries := Retries (Instances newCfg)\<rparr>,
         ProxyMode := ProxyMode newCfg, Privoxy := Privoxy newCfg\<rparr>"

text \<open>The second branch; a result ends the handler.\<close>

definition reload_haproxy ::
  "'o hap_sys \<Rightarrow> configDiff \<Rightarrow> Config \<Rightarrow> 'o run_state \<Rightarrow> (reload_result option \<times> 'o run_state) option" where
  "reload_haproxy sys changes newCfg s =
     (if \<not> HAProxyChanged changes then Some (None, s)
      else
        (let s1 = s\<lparr>appCfg := adopt_haproxy newCfg (appCfg s)\<rparr>
         in case GenerateConfig sys (appCfg s1) (run_instances s1) (run_haproxy s1) (run_outside s1) of
              None \<Rightarrow> None
            | Some (Some err, w) \<Rightarrow> Some (Some (GenerateFailed err), s1\<lparr>run_outside := w\<rparr>)
            | Some (None, w) \<Rightarrow>
                (case Hap_Reload sys (appCfg s1) (run_haproxy s1) (run_procs s1) w of
                   (e, m, pm, w') \<Rightarrow>
                     Some (map_option HapReloadFailed e,
                           s1\<lparr>run_haproxy := m, run_procs := pm, run_outside := w'\<rparr>))))"

definition handleReload ::
  "load_env \<Rightarrow> 'o hap_sys \<Rightarrow> 'o run_state \<Rightarrow> (reload_result \<times> 'o run_state) option" where
  "handleReload env sys s =
     (case Load env reload_options of
        Inl err \<Rightarrow> Some (LoadFailed err, s)
      | Inr newCfg \<Rightarrow>
          (let changes = diffConfig (appCfg s) newCfg
           in case reload_haproxy sys changes newCfg (reload_country changes newCfg s) of
                None \<Rightarrow> None
              | Some (Some failure, s') \<Rightarrow> Some (failure, s')
              | Some (None, s') \<Rightarrow> Some (Reloaded (Summary changes), s')))"

subsection \<open>What a reload leaves behind\<close>

lemma diffConfig_sections:
  "\<not> HAProxyChanged (diffConfig old c) \<longleftrightarrow>
     Proxy old = Proxy c \<and> HealthCheck old = HealthCheck c \<and> Retries (Instances old) = Retries (Instances c)
     \<and> ProxyMode old = ProxyMode c \<and> Privoxy old = Privoxy c"
  by (auto simp: diffConfig_def)

lemma adopt_settles: "\<not> HAProxyChanged (diffConfig (adopt_haproxy c cfg) c)"
  by (simp add: diffConfig_def adopt_haproxy_def)

lemma country_settles:
  "\<not> CountryListChanged (diffConfig (cfg\<lparr>Country := Country c\<rparr>) c)"
  "\<not> RotationChanged (diffConfig (cfg\<lparr>Country := Country c\<rparr>) c)"
  by (simp_all add: diffConfig_def)

lemma reload_country_frame [simp]:
  "run_instances (reload_country d c s) = run_instances s"
  "run_haproxy (reload_country d c s) = run_haproxy s"
  "run_procs (reload_country d c s) = run_procs s"
  "run_outside (reload_country d c s) = run_outside s"
  by (simp_all add: reload_country_def)

lemma appCfg_reload_country:
  "appCfg (reload_country d c s) =
     (if CountryListChanged d \<or> RotationChanged d then (appCfg s)\<lparr>Country := Country c\<rparr> else appCfg s)"
  by (simp add: reload_country_def)

lemma appCfg_reload_haproxy:
  "reload_haproxy sys d c s = Some (r, s') \<Longrightarrow>
   appCfg s' = (if HAProxyChanged d then adopt_haproxy c (appCfg s) else appCfg s) \<and>
   run_daemon s' = run_daemon s \<and> run_instances s' = run_instances s"
  by (auto simp: reload_haproxy_def Let_def split: if_splits option.splits prod.splits)

text \<open>The configuration after a reload that found \<open>c\<close>, whether or not the handler got to its end.\<close>

definition adopted :: "Config \<Rightarrow> Config \<Rightarrow> Config" where
  "adopted c cfg =
     (let d = diffConfig cfg c;
          cfg1 = (if CountryListChanged d \<or> RotationChanged d then cfg\<lparr>Country := Country c\<rparr> else cfg)
      in if HAProxyChanged d then adopt_haproxy c cfg1 else cfg1)"

lemma handleReload_adopts:
  assumes "Load env reload_options = Inr c" and "handleReload env sys s = Some (r, s')"
  shows "appCfg s' = adopted c (appCfg s) \<and> run_instances s' = run_instances s"
proof -
  let ?d = "diffConfig (appCfg s) c"
  obtain r1 where "reload_haproxy sys ?d c (reload_country ?d c s) = Some (r1, s')"
    using assms by (auto simp: handleReload_def Let_def split: option.splits)
  from appCfg_reload_haproxy [OF this] show ?thesis
    by (simp add: adopted_def appCfg_reload_country Let_def)
qed

lemma diff_after_adopted:
  "diffConfig (adopted c cfg) c =
     \<lparr>CountryListChanged = False, RotationChanged = False, HAProxyChanged = False,
      TorChanged = TorChanged (diffConfig cfg c)\<rparr>"
  by (auto simp: adopted_def diffConfig_def adopt_haproxy_def Let_def)

lemma Summary_settled:
  "Summary \<lparr>CountryListChanged = False, RotationChanged = False, HAProxyChanged = False, TorChanged = t\<rparr> =
     (if t then ''tor config (restart needed)'' else ''no changes detected'')"
  by (simp add: Summary_def)

lemma handleReload_again:
  assumes "Load env reload_options = Inr c" and "handleReload env sys s = Some (r, s')"
  shows "handleReload env sys s' =
     Some (Reloaded (if TorChanged (diffConfig (appCfg s) c) then ''tor config (restart needed)''
                     else ''no changes detected''), s')"
proof -
  have "diffConfig (appCfg s') c =
      \<lparr>CountryListChanged = False, RotationChanged = False, HAProxyChanged = False,
       TorChanged = TorChanged (diffConfig (appCfg s) c)\<rparr>"
    using handleReload_adopts [OF assms] diff_after_adopted by simp
  with assms(1) show ?thesis
    by (simp add: handleReload_def reload_country_def reload_haproxy_def Summary_settled Let_def)
qed


text \<open>C37. A reload that fails while writing HAProxy's configuration or replacing its process has
  recorded the new settings all the same: sending the signal again reports success, writes no
  configuration, starts no process and changes nothing, so HAProxy keeps running on the old one.\<close>

theorem failed_reload_not_retried:
  assumes "Load env reload_options = Inr c"
    and "handleReload env sys s = Some (GenerateFailed e, s') \<or> handleReload env sys s = Some (HapReloadFailed e, s')"
  shows "handleReload env sys s' = Some (Reloaded (if TorChanged (diffConfig (appCfg s) c)
      then ''tor config (restart needed)'' else ''no changes detected''), s')"
  using assms handleReload_again by blast

subsection \<open>Reloads on the default configuration\<close>

text \<open>No file and no variable is there: every load starts from the built-in defaults.\<close>

definition bare_env :: load_env where
  "bare_env = \<lparr>ReadFile = (\<lambda>p. Inl ErrNotExist), UnmarshalConfig = (\<lambda>d c. Inr c),
     UnmarshalProfiles = (\<lambda>d. Inl []), UnmarshalUserAgents = (\<lambda>d. Inr ([], [])), Environ = []\<rparr>"

lemma Profile_Defaults: "Profile Defaults = []"
  by (simp add: Defaults_def)

lemma bare_env_loads:
  "Load bare_env opts =
     (let cfg = (case Flags opts of None \<Rightarrow> Defaults | Some fl \<Rightarrow> applyFlags Defaults fl)
      in case Validate (normalise_log cfg) of None \<Rightarrow> Inr (normalise_log cfg) | Some e \<Rightarrow> Inl (Invalid e))"
  if "\<forall>fl. Flags opts = Some fl \<longrightarrow> \<not> Changed fl ''profile''"
  using that
  by (auto simp: Load_def bare_env_def loadYAML_def loadUserAgents_def applyProfile_def applyEnvOverrides_def
      flag_value_def Profile_Defaults Let_def split: option.splits)

lemma normalise_Defaults: "normalise_log Defaults = Defaults"
  by (simp add: normalise_log_def Defaults_def)

lemma Validate_Defaults: "Validate Defaults = None"
  by (rule Validate_config_ok [OF Defaults_fits Defaults_ok])

lemma reload_bare: "Load bare_env reload_options = Inr Defaults"
  by (simp add: bare_env_loads reload_options_def normalise_Defaults Validate_Defaults)

text \<open>The program started with \<open>--proxy-mode legacy\<close>, its HAProxy running.\<close>

definition legacy_flags :: flag_reader where
  "legacy_flags = \<lparr>Changed = (\<lambda>n. n = ''proxy-mode''), GetInt = (\<lambda>n. Inl []),
     GetString = (\<lambda>n. Inr ''legacy''), GetBool = (\<lambda>n. Inl [])\<rparr>"

definition legacy_config :: Config where
  "legacy_config = Defaults\<lparr>ProxyMode := ''legacy''\<rparr>"

definition legacy_state :: "nat run_state" where
  "legacy_state = \<lparr>appCfg = legacy_config, run_instances = demo_instances, run_daemon = NewDaemon legacy_config,
     run_haproxy = running_haproxy, run_procs = one_process, run_outside = 9\<rparr>"

lemma legacy_loads: "Load bare_env (reload_options\<lparr>Flags := Some legacy_flags\<rparr>) = Inr legacy_config"
proof -
  have "applyFlags Defaults legacy_flags = legacy_config"
    by (simp add: applyFlags_def legacy_flags_def flag_value_def on_flag_def legacy_config_def Let_def)
  moreover have "normalise_log legacy_config = legacy_config"
    by (simp add: normalise_log_def legacy_config_def Defaults_def)
  moreover have "Validate legacy_config = None"
  proof (rule Validate_config_ok)
    show "socks_range_fits legacy_config"
      using Defaults_fits by (simp add: socks_range_fits_def legacy_config_def)
    show "config_ok legacy_config"
      using Defaults_ok by (simp add: config_ok_def legacy_config_def port_fields_def)
  qed
  ultimately show ?thesis
    by (simp add: bare_env_loads legacy_flags_def)
qed

lemma legacy_diff:
  "diffConfig legacy_config Defaults =
     \<lparr>CountryListChanged = False, RotationChanged = False, HAProxyChanged = True, TorChanged = False\<rparr>"
  by (simp add: diffConfig_def legacy_config_def) (simp add: Defaults_def)

text \<open>Command-line flags do not survive a reload: a program started with
  \<open>--proxy-mode legacy\<close> and nothing else configured runs in native mode after a SIGHUP,
  whatever becomes of HAProxy, although neither file nor environment has changed.\<close>

theorem reload_forgets_flags:
  assumes "appCfg s = legacy_config" and "handleReload bare_env sys s = Some (r, s')"
  shows "Load bare_env (reload_options\<lparr>Flags := Some legacy_flags\<rparr>) = Inr (appCfg s) \<and>
    ProxyMode (appCfg s) = ''legacy'' \<and> ProxyMode (appCfg s') = ''native''"
proof -
  have "appCfg s' = adopted Defaults legacy_config"
    using handleReload_adopts [OF reload_bare assms(2)] assms(1) by simp
  then have "ProxyMode (appCfg s') = ProxyMode Defaults"
    by (simp add: adopted_def legacy_diff adopt_haproxy_def)
  moreover have "ProxyMode Defaults = ''native''" by (simp add: Defaults_def)
  ultimately show ?thesis
    using legacy_loads assms(1) by (simp add: legacy_config_def)
qed

lemma demo_generates:
  "GenerateConfig demo_hap_sys cfg insts m w = Some (None, w)"
  by (simp add: GenerateConfig_def demo_hap_sys_def BuildConfigData_def split: prod.split)

lemma legacy_reloads:
  "\<exists>s'. handleReload bare_env demo_hap_sys legacy_state = Some (Reloaded ''haproxy config'', s')"
proof -
  let ?cfg = "adopt_haproxy Defaults legacy_config"
  obtain m pm w where r: "Hap_Reload demo_hap_sys ?cfg running_haproxy one_process 9 = (None, m, pm, w)"
    by (auto simp: Hap_Reload_def running_haproxy_def demo_hap_sys_def hap_spawn_def Spawn_def
        one_process_def NewManager_def add_def Pid_def)
  show ?thesis
    by (simp add: handleReload_def reload_bare legacy_state_def legacy_diff reload_country_def
        reload_haproxy_def demo_generates r Summary_def Let_def)
qed


lemma reload_forgets_flags_witness:
  "\<exists>s'. handleReload bare_env demo_hap_sys legacy_state = Some (Reloaded ''haproxy config'', s') \<and>
     ProxyMode (appCfg s') = ''native''"
  using legacy_reloads reload_forgets_flags [of legacy_state demo_hap_sys]
  by (fastforce simp: legacy_state_def)

text \<open>A disk that is full.\<close>

definition full_disk :: "nat hap_sys" where
  "full_disk = demo_hap_sys\<lparr>hap_Create := (\<lambda>p w. (Some (OSError ''no space left on device''), w))\<rparr>"

lemma failed_reload_not_retried_witness:
  "\<exists>s'. handleReload bare_env full_disk legacy_state =
      Some (GenerateFailed (HapCreate (OSError ''no space left on device'')), s') \<and>
     handleReload bare_env full_disk s' = Some (Reloaded ''no changes detected'', s')"
proof -
  have "\<exists>s'. handleReload bare_env full_disk legacy_state =
      Some (GenerateFailed (HapCreate (OSError ''no space left on device'')), s')"
    by (simp add: handleReload_def reload_bare legacy_state_def legacy_diff reload_country_def
        reload_haproxy_def GenerateConfig_def full_disk_def demo_hap_sys_def BuildConfigData_def Let_def
        split: prod.split)
  then obtain s' where s': "handleReload bare_env full_disk legacy_state =
      Some (GenerateFailed (HapCreate (OSError ''no space left on device'')), s')" ..
  from failed_reload_not_retried [OF reload_bare, of full_disk legacy_state _ s'] s'
  have "handleReload bare_env full_disk s' = Some (Reloaded ''no changes detected'', s')"
    by (simp add: legacy_state_def legacy_diff)
  with s' show ?thesis by blast
qed

end
