(* ===== verification/Health_Status.thy ===== *)
theory Health_Status
  imports Tor_Manager
begin

section \<open>Dependencies and status (internal/health/check.go and status.go)\<close>

text \<open>
  \<open>CheckDependencies\<close> is the gate before the start: every program the configuration needs is
  there, and its Tor version is known. \<open>CollectStatus\<close> is the report the status endpoint
  serves. Looking up programs and running Tor are parameters.
\<close>

subsection \<open>Dependencies\<close>

record FeatureSupport =
  Feature_Conflux :: bool
  Feature_HTTPTunnel :: bool
  Feature_CongestionControl :: bool
  Feature_CGO :: bool
  Feature_PostQuantum :: bool

record CheckResult =
  TorPath :: string
  check_TorVersion :: Version
  HAProxyPath :: string
  PrivoxyPath :: string
  check_Features :: FeatureSupport

datatype check_error =
    TorNotFound string
  | HAProxyNotFound string
  | PrivoxyNotFound string
  | VersionCommandFailed string
  | VersionNotParsed version_error

definition CheckDependencies ::
  "(string \<Rightarrow> string + string) \<Rightarrow> (string \<Rightarrow> string + string) \<Rightarrow> Config \<Rightarrow> check_error + CheckResult" where
  "CheckDependencies lookPath runVersionCmd cfg =
     (case lookPath (Tor_BinaryPath (Tor cfg)) of
        Inl err \<Rightarrow> Inl (TorNotFound (Tor_BinaryPath (Tor cfg)))
      | Inr torPath \<Rightarrow>
     (case lookPath (HAProxy_BinaryPath (HAProxy cfg)) of
        Inl err \<Rightarrow> Inl (HAProxyNotFound (HAProxy_BinaryPath (HAProxy cfg)))
      | Inr haProxyPath \<Rightarrow>
     sum_bind (if ProxyMode cfg = ''legacy''
               then (case lookPath (Privoxy_BinaryPath (Privoxy cfg)) of
                       Inl err \<Rightarrow> Inl (PrivoxyNotFound (Privoxy_BinaryPath (Privoxy cfg)))
                     | Inr p \<Rightarrow> Inr p)
               else Inr []) (\<lambda>privoxyPath.
     (case runVersionCmd torPath of
        Inl err \<Rightarrow> Inl (VersionCommandFailed err)
      | Inr output \<Rightarrow>
     (case DetectVersionFromOutput output of
        Inl err \<Rightarrow> Inl (VersionNotParsed err)
      | Inr detected \<Rightarrow>
          Inr \<lparr>TorPath = torPath, check_TorVersion = detected, HAProxyPath = haProxyPath,
               PrivoxyPath = privoxyPath,
               check_Features =
                 \<lparr>Feature_Conflux = SupportsConflux detected, Feature_HTTPTunnel = SupportsHTTPTunnel detected,
                  Feature_CongestionControl = SupportsCongestionControl detected,
                  Feature_CGO = SupportsCGO detected, Feature_PostQuantum = SupportsPostQuantum detected\<rparr>\<rparr>)))))"

subsection \<open>Status\<close>

record InstanceStatus =
  status_ID :: int
  status_Country :: string
  status_State :: string
  status_SocksPort :: int
  status_ControlPort :: int
  status_HTTPPort :: int

record SystemStatus =
  Timestamp :: string
  status_TorVersion :: string
  status_Features :: "string \<rightharpoonup> bool"
  status_Instances :: "InstanceStatus list"
  TotalInstances :: int
  ReadyCount :: int
  FailedCount :: int
  Process_count :: int
  ProcessBreakdown :: "string \<rightharpoonup> int"

text \<open>The part of a process name before its first hyphen.\<close>

definition categorizeProcesses :: "Process list \<Rightarrow> string \<rightharpoonup> int" where
  "categorizeProcesses procs =
     foldl (\<lambda>breakdown p.
       (let name = fst (cut (CHR ''-'') (proc_Name p))
        in breakdown(name \<mapsto> (case breakdown name of None \<Rightarrow> 0 | Some n \<Rightarrow> n) + 1))) Map.empty procs"

text \<open>The loop over the instances. Their states are read twice and may change in between:
  \<open>reads\<close> holds both.\<close>

fun collect_loop ::
  "(Instance \<times> State \<times> State) list \<Rightarrow> InstanceStatus list \<times> int \<times> int \<Rightarrow> InstanceStatus list \<times> int \<times> int" where
  "collect_loop [] acc = acc"
| "collect_loop ((inst, st1, st2) # reads) (rows, ready, failed) =
     collect_loop reads
       (rows @ [\<lparr>status_ID = inst_ID inst, status_Country = inst_Country inst, status_State = State_String st1,
                 status_SocksPort = inst_SocksPort inst, status_ControlPort = inst_ControlPort inst,
                 status_HTTPPort = inst_HTTPPort inst\<rparr>],
        if st2 = StateReady then ready + 1 else ready,
        if st2 = StateFailed then failed + 1 else failed)"

definition CollectStatus ::
  "string \<Rightarrow> TorManager \<Rightarrow> (State \<times> State) list \<Rightarrow> Manager \<Rightarrow> SystemStatus" where
  "CollectStatus now tm states pm =
     (case collect_loop (zip (instances tm) states) ([], 0, 0) of (rows, ready, failed) \<Rightarrow>
     \<lparr>Timestamp = now,
      status_TorVersion = (case GetVersion tm of None \<Rightarrow> [] | Some v \<Rightarrow> Version_String v),
      status_Features =
        (case GetVersion tm of None \<Rightarrow> Map.empty | Some v \<Rightarrow>
           [''conflux'' \<mapsto> SupportsConflux v, ''http_tunnel'' \<mapsto> SupportsHTTPTunnel v,
            ''congestion_control'' \<mapsto> SupportsCongestionControl v, ''cgo'' \<mapsto> SupportsCGO v]),
      status_Instances = rows, TotalInstances = int (length (instances tm)),
      ReadyCount = ready, FailedCount = failed,
      Process_count = int (length (List pm)),
      ProcessBreakdown = categorizeProcesses (map (\<lambda>h. processes pm ! h) (List pm))\<rparr>)"

subsection \<open>What the gate lets through\<close>

text \<open>The dependency check passes exactly when Tor, HAProxy and, in legacy mode, Privoxy are found
  and Tor's own output names its version; the features it reports are those of that version.\<close>

theorem CheckDependencies_passes:
  "CheckDependencies look run cfg = Inr r \<longleftrightarrow>
     (\<exists>out. look (Tor_BinaryPath (Tor cfg)) = Inr (TorPath r) \<and>
        look (HAProxy_BinaryPath (HAProxy cfg)) = Inr (HAProxyPath r) \<and>
        (if ProxyMode cfg = ''legacy'' then look (Privoxy_BinaryPath (Privoxy cfg)) = Inr (PrivoxyPath r)
         else PrivoxyPath r = []) \<and>
        run (TorPath r) = Inr out \<and> DetectVersionFromOutput out = Inr (check_TorVersion r) \<and>
        check_Features r =
          (let v = check_TorVersion r in
           \<lparr>Feature_Conflux = SupportsConflux v, Feature_HTTPTunnel = SupportsHTTPTunnel v,
            Feature_CongestionControl = SupportsCongestionControl v,
            Feature_CGO = SupportsCGO v, Feature_PostQuantum = SupportsPostQuantum v\<rparr>))"
  by (cases r)
     (auto simp: CheckDependencies_def Let_def split: sum.splits if_splits)

subsection \<open>The numbers of a report\<close>

definition tally :: "(string \<rightharpoonup> int) \<Rightarrow> int" where
  "tally m = (\<Sum>n \<in> dom m. the (m n))"

lemma tally_upd:
  "finite (dom m) \<Longrightarrow> tally (m(k \<mapsto> v)) = tally m - (case m k of None \<Rightarrow> 0 | Some n \<Rightarrow> n) + v"
proof -
  assume fin: "finite (dom m)"
  have rest: "(\<Sum>n \<in> dom m - {k}. the ((m(k \<mapsto> v)) n)) = (\<Sum>n \<in> dom m - {k}. the (m n))"
    by (rule sum.cong) auto
  have "tally (m(k \<mapsto> v)) = v + (\<Sum>n \<in> dom m - {k}. the (m n))"
    unfolding tally_def using fin rest by (simp add: sum.insert_remove)
  moreover have "tally m = (case m k of None \<Rightarrow> 0 | Some n \<Rightarrow> n) + (\<Sum>n \<in> dom m - {k}. the (m n))"
  proof (cases "m k")
    case None
    then have "dom m - {k} = dom m" by auto
    with None show ?thesis by (simp add: tally_def)
  next
    case (Some n)
    then have "k \<in> dom m" by auto
    with fin Some show ?thesis by (simp add: tally_def sum.remove)
  qed
  ultimately show ?thesis by simp
qed

lemma categorize_tally:
  "finite (dom m) \<Longrightarrow>
   tally (foldl (\<lambda>b p. (let name = fst (cut (CHR ''-'') (proc_Name p))
      in b(name \<mapsto> (case b name of None \<Rightarrow> 0 | Some n \<Rightarrow> n) + 1))) m procs) = tally m + int (length procs)"
  by (induction procs arbitrary: m) (simp_all add: tally_upd Let_def)

lemma tally_categorizeProcesses: "tally (categorizeProcesses procs) = int (length procs)"
  using categorize_tally [of Map.empty procs]
  by (simp add: categorizeProcesses_def) (simp add: tally_def)

lemma collect_loop_result:
  "collect_loop reads (rows, r, f) = (rows', r', f') \<Longrightarrow>
   length rows' = length rows + length reads \<and>
   r' = r + int (length (filter (\<lambda>(i, a, b). b = StateReady) reads)) \<and>
   f' = f + int (length (filter (\<lambda>(i, a, b). b = StateFailed) reads)) \<and>
   map status_State rows' = map status_State rows @ map (\<lambda>(i, a, b). State_String a) reads \<and>
   map status_ID rows' = map status_ID rows @ map (\<lambda>(i, a, b). inst_ID i) reads"
  by (induction reads "(rows, r, f)" arbitrary: rows r f rule: collect_loop.induct) auto

lemma ready_failed_le:
  "length (filter (\<lambda>(i, a, b). b = StateReady) reads) +
   length (filter (\<lambda>(i, a, b). b = StateFailed) reads) \<le> length reads"
  by (induction reads) auto

lemma State_String_ready: "State_String st = ''ready'' \<longleftrightarrow> st = StateReady"
  by (cases st) simp_all

text \<open>The numbers of a report add up: one row for each instance, never more ready and failed ones
  than instances, every process in exactly one group of the breakdown; and if no state changes
  while the report is made, the ready count is the number of rows that say ready.\<close>

theorem status_adds_up:
  assumes "length states = length (instances tm)" and "st = CollectStatus now tm states pm"
  shows "map status_ID (status_Instances st) = map inst_ID (instances tm) \<and>
    TotalInstances st = int (length (status_Instances st)) \<and>
    ReadyCount st + FailedCount st \<le> TotalInstances st \<and>
    tally (ProcessBreakdown st) = Process_count st \<and>
    (map fst states = map snd states \<longrightarrow>
       ReadyCount st = int (length (filter (\<lambda>row. status_State row = ''ready'') (status_Instances st))))"
proof -
  let ?reads = "zip (instances tm) states"
  obtain rows r f where c: "collect_loop ?reads ([], 0, 0) = (rows, r, f)"
    by (metis prod_cases3)
  note res = collect_loop_result [OF c]
  have len: "length ?reads = length (instances tm)" using assms(1) by simp
  have ids: "map (\<lambda>(i, a, b). inst_ID i) ?reads = map inst_ID (instances tm)"
    using assms(1) by (intro nth_equalityI) (auto simp: case_prod_beta)
  have le: "r + f \<le> int (length (instances tm))"
    using res ready_failed_le [of ?reads] len by linarith
  have fields: "status_Instances st = rows" "ReadyCount st = r" "FailedCount st = f"
    "TotalInstances st = int (length (instances tm))" "Process_count st = int (length (List pm))"
    "ProcessBreakdown st = categorizeProcesses (map (\<lambda>h. processes pm ! h) (List pm))"
    using assms(2) c by (simp_all add: CollectStatus_def)
  have "tally (ProcessBreakdown st) = Process_count st"
    by (simp add: fields tally_categorizeProcesses)
  moreover have "ReadyCount st = int (length (filter (\<lambda>row. status_State row = ''ready'') rows))"
    if same: "map fst states = map snd states"
  proof -
    have "length (filter (\<lambda>row. status_State row = ''ready'') rows) =
        length (filter (\<lambda>s. s = ''ready'') (map status_State rows))"
      by (simp add: filter_map comp_def)
    also have "map status_State rows = map State_String (map fst states)"
      using res assms(1) by (intro nth_equalityI) (auto simp: case_prod_beta)
    also have "\<dots> = map State_String (map snd states)" by (simp only: same)
    also have "length (filter (\<lambda>s. s = ''ready'') (map State_String (map snd states))) =
        length (filter (\<lambda>st. st = StateReady) (map snd states))"
      by (simp only: filter_map length_map comp_def State_String_ready)
    also have "map snd states = map (\<lambda>(i, a, b). b) ?reads"
      using assms(1) by (intro nth_equalityI) (auto simp: case_prod_beta)
    finally have "length (filter (\<lambda>row. status_State row = ''ready'') rows) =
        length (filter (\<lambda>(i, a, b). b = StateReady) ?reads)"
      by (simp add: filter_map comp_def case_prod_unfold)
    with res show ?thesis by (simp add: fields)
  qed
  ultimately show ?thesis
    using res ids le len by (simp add: fields)
qed

lemma status_adds_up_witness:
  "TotalInstances (CollectStatus ''now'' (torMgr demo_world) [(StateReady, StateReady), (StateFailed, StateReady)]
     (procMgr demo_world)) = 2 \<and>
   ReadyCount (CollectStatus ''now'' (torMgr demo_world) [(StateReady, StateReady), (StateFailed, StateReady)]
     (procMgr demo_world)) = 2 \<and>
   tally (ProcessBreakdown (CollectStatus ''now'' (torMgr demo_world)
     [(StateReady, StateReady), (StateFailed, StateReady)] (procMgr demo_world))) = 0"
proof -
  let ?reads = "[(StateReady, StateReady), (StateFailed, StateReady)]"
  have len: "length (instances (torMgr demo_world)) = 2" by (rule demo_world_instances)
  then obtain a b where ab: "instances (torMgr demo_world) = [a, b]"
    by (metis length_0_conv length_Suc_conv numeral_2_eq_2)
  have "length ?reads = length (instances (torMgr demo_world))" using len by simp
  from status_adds_up [OF this refl, of "''now''" "procMgr demo_world"] show ?thesis
    using ab by (simp add: CollectStatus_def demo_world_def NewManager_def List_def)
qed

end
