(* ===== verification/Circuit_Client.thy ===== *)
theory Circuit_Client
  imports Go_Prelude "HOL-Library.Word"
begin

section \<open>The client of Tor's control port (internal/circuit/client.go)\<close>

text \<open>
  The client sends one-line commands and reads one-line replies. The network and the cookie
  file are the record \<open>wire\<close> over a world \<open>'w\<close>; bytes of the cookie are 8-bit words. Using a
  client that is not connected dereferences a nil pointer: that panic is \<open>None\<close>.
\<close>

unbundle bit_operations_syntax

text \<open>Carriage return and line feed.\<close>

definition crlf :: string where
  "crlf = [CHR 0x0D, CHR 0x0A]"

text \<open>\<open>strings.TrimRight (s, "\r\n")\<close>.\<close>

definition trim_crlf :: "string \<Rightarrow> string" where
  "trim_crlf s = rev (dropWhile (\<lambda>c. c \<in> set crlf) (rev s))"

text \<open>\<open>hex.EncodeToString\<close>, and \<open>hex.DecodeString\<close> as what reads it.\<close>

definition hextable :: string where
  "hextable = ''0123456789abcdef''"

fun EncodeToString :: "8 word list \<Rightarrow> string" where
  "EncodeToString [] = []"
| "EncodeToString (b # bs) =
     hextable ! unat (drop_bit 4 b) # hextable ! unat (b AND 15) # EncodeToString bs"

fun hex_index :: "string \<Rightarrow> char \<Rightarrow> nat option" where
  "hex_index [] c = None"
| "hex_index (t # ts) c = (if t = c then Some 0 else map_option Suc (hex_index ts c))"

fun DecodeString :: "string \<Rightarrow> 8 word list option" where
  "DecodeString [] = Some []"
| "DecodeString [c] = None"
| "DecodeString (c # d # cs) =
     (case (hex_index hextable c, hex_index hextable d, DecodeString cs) of
        (Some h, Some l, Some bs) \<Rightarrow> Some ((push_bit 4 (of_nat h) OR of_nat l) # bs)
      | _ \<Rightarrow> None)"

definition BuildAuthCommand :: "8 word list \<Rightarrow> string" where
  "BuildAuthCommand cookieBytes = ''AUTHENTICATE '' @ EncodeToString cookieBytes @ crlf"

definition BuildNewnymCommand :: string where
  "BuildNewnymCommand = ''SIGNAL NEWNYM'' @ crlf"

text \<open>\<open>ParseResponse\<close>: the code and the message of a reply, or the error.\<close>

definition ParseResponse :: "string \<Rightarrow> string + string \<times> string" where
  "ParseResponse line0 =
     (let line = trim_crlf line0
      in if length line < 4 then Inl line
         else Inr (take 3 line, trimSpace (drop 3 line)))"

subsection \<open>The conversation\<close>

record 'w wire =
  wire_Dial :: "string \<Rightarrow> 'w \<Rightarrow> string option \<times> 'w"
  wire_Write :: "string \<Rightarrow> 'w \<Rightarrow> string option \<times> 'w"
  wire_ReadLine :: "'w \<Rightarrow> (string + string) \<times> 'w"
  wire_Close :: "'w \<Rightarrow> string option \<times> 'w"
  wire_ReadFile :: "string \<Rightarrow> 'w \<Rightarrow> os_error + 8 word list"

record Client =
  addr :: string
  cookiePath :: string
  conn :: bool

datatype client_error =
    ConnectFailed string
  | ReadCookie os_error
  | SendFailed string
  | ReadFailed string
  | UnexpectedResponse string

definition NewClient :: "string \<Rightarrow> string \<Rightarrow> Client" where
  "NewClient a path = \<lparr>addr = a, cookiePath = path, conn = False\<rparr>"

definition Connect :: "'w wire \<Rightarrow> Client \<Rightarrow> 'w \<Rightarrow> client_error option \<times> Client \<times> 'w" where
  "Connect net c w =
     (case wire_Dial net (addr c) w of
        (Some err, w') \<Rightarrow> (Some (ConnectFailed err), c, w')
      | (None, w') \<Rightarrow> (None, c\<lparr>conn := True\<rparr>, w'))"

definition send :: "'w wire \<Rightarrow> Client \<Rightarrow> string \<Rightarrow> 'w \<Rightarrow> (string option \<times> 'w) option" where
  "send net c cmd w = (if conn c then Some (wire_Write net cmd w) else None)"

definition readLine :: "'w wire \<Rightarrow> Client \<Rightarrow> 'w \<Rightarrow> ((string + string) \<times> 'w) option" where
  "readLine net c w =
     (if conn c
      then Some (case wire_ReadLine net w of
                   (Inl err, w') \<Rightarrow> (Inl err, w')
                 | (Inr line, w') \<Rightarrow> (Inr (trim_crlf line), w'))
      else None)"

text \<open>Sending a command and judging its one-line reply, which both commands do in the same way.\<close>

definition command :: "'w wire \<Rightarrow> Client \<Rightarrow> string \<Rightarrow> 'w \<Rightarrow> (client_error option \<times> 'w) option" where
  "command net c cmd w =
     (case send net c cmd w of
        None \<Rightarrow> None
      | Some (Some err, w1) \<Rightarrow> Some (Some (SendFailed err), w1)
      | Some (None, w1) \<Rightarrow>
          (case readLine net c w1 of
             None \<Rightarrow> None
           | Some (Inl err, w2) \<Rightarrow> Some (Some (ReadFailed err), w2)
           | Some (Inr resp, w2) \<Rightarrow>
               Some (if \<not> hasPrefix resp ''250'' then Some (UnexpectedResponse resp) else None, w2)))"

definition Authenticate :: "'w wire \<Rightarrow> Client \<Rightarrow> 'w \<Rightarrow> (client_error option \<times> 'w) option" where
  "Authenticate net c w =
     (case wire_ReadFile net (cookiePath c) w of
        Inl err \<Rightarrow> Some (Some (ReadCookie err), w)
      | Inr cookieBytes \<Rightarrow> command net c (''AUTHENTICATE '' @ EncodeToString cookieBytes @ crlf) w)"

definition SignalNewnym :: "'w wire \<Rightarrow> Client \<Rightarrow> 'w \<Rightarrow> (client_error option \<times> 'w) option" where
  "SignalNewnym net c w = command net c (''SIGNAL NEWNYM'' @ crlf) w"

definition Close :: "'w wire \<Rightarrow> Client \<Rightarrow> 'w \<Rightarrow> string option \<times> Client \<times> 'w" where
  "Close net c w =
     (if \<not> conn c then (None, c, w)
      else (case wire_Close net w of (err, w') \<Rightarrow> (err, c\<lparr>conn := False\<rparr>, w')))"

subsection \<open>The cookie as a command\<close>

lemma nibble_less: "unat (drop_bit 4 (b :: 8 word)) < 16" "unat ((b :: 8 word) AND 15) < 16"
proof -
  have "unat (drop_bit 4 b) = unat b div 16"
    by (simp add: drop_bit_eq_div unat_div_distrib)
  moreover have "unat b < 256" using unsigned_less [of b, where ?'a = nat] by simp
  ultimately show "unat (drop_bit 4 b) < 16" by simp
  have "(15 :: 8 word) = mask 4" by (simp add: mask_eq_exp_minus_1)
  then have "b AND 15 = take_bit 4 b" by (simp add: take_bit_eq_mask)
  then show "unat (b AND 15) < 16"
    by (simp add: unsigned_take_bit_eq) (simp add: take_bit_eq_mod)
qed

lemma hex_index_hextable: "i < 16 \<Longrightarrow> hex_index hextable (hextable ! i) = Some i"
proof -
  assume "i < 16"
  then have "i \<in> {0, 1, 2, 3, 4, 5, 6, 7, 8, 9, 10, 11, 12, 13, 14, 15}"
    by (simp add: eval_nat_numeral less_Suc_eq)
  then show ?thesis by (auto simp: hextable_def)
qed

lemma join_nibbles: "push_bit 4 (drop_bit 4 b) OR (b AND 15) = (b :: 8 word)"
proof -
  have "(15 :: 8 word) = mask 4" by (simp add: mask_eq_exp_minus_1)
  then have "b AND 15 = take_bit 4 b" by (simp add: take_bit_eq_mask)
  then show ?thesis
    by (intro bit_word_eqI) (auto simp: bit_simps)
qed

text \<open>The cookie that the client sends in hexadecimal can be read back from the command, byte
  for byte: the peer sees the cookie of the file.\<close>

theorem hex_cookie_roundtrip: "DecodeString (EncodeToString bs) = Some bs"
  by (induction bs)
     (simp_all add: hex_index_hextable nibble_less join_nibbles)

lemma set_EncodeToString: "set (EncodeToString bs) \<subseteq> set hextable"
proof (induction bs)
  case (Cons b bs)
  have "length hextable = 16" by (simp add: hextable_def)
  with Cons nibble_less [of b] show ?case by (auto intro: nth_mem)
qed simp

text \<open>Whatever bytes the cookie file has, the command is one line: its only carriage return
  and line feed are the two that end it, so a cookie cannot smuggle a second command.\<close>

theorem auth_command_one_line:
  "split_on (CHR 0x0A) (BuildAuthCommand bs) = [''AUTHENTICATE '' @ EncodeToString bs @ [CHR 0x0D], []]
   \<and> CHR 0x0D \<notin> set (''AUTHENTICATE '' @ EncodeToString bs)"
proof -
  have "CHR 0x0A \<notin> set hextable" "CHR 0x0D \<notin> set hextable"
    by (simp_all add: hextable_def)
  then have clean: "CHR 0x0A \<notin> set (EncodeToString bs)" "CHR 0x0D \<notin> set (EncodeToString bs)"
    using set_EncodeToString [of bs] by auto
  then have "CHR 0x0A \<notin> set (''AUTHENTICATE '' @ EncodeToString bs @ [CHR 0x0D])" by simp
  from split_on_append [OF this, of "[]"] clean(2) show ?thesis
    by (simp add: BuildAuthCommand_def crlf_def)
qed

subsection \<open>Replies\<close>

lemma trim_crlf_append [simp]:
  assumes "s = [] \<or> last s \<notin> set crlf"
  shows "trim_crlf (s @ crlf) = s"
  using assms by (cases s rule: rev_cases) (simp_all add: trim_crlf_def crlf_def)

text \<open>A reply line made of a three-character code, a blank and a trimmed, non-empty message is
  parsed into that code and message, with or without the line ending.\<close>

theorem ParseResponse_reply:
  assumes "length code = 3" and "msg \<noteq> []" and "\<not> is_space (hd msg)" and "\<not> is_space (last msg)"
    and "ending = [] \<or> ending = crlf"
  shows "ParseResponse (code @ '' '' @ msg @ ending) = Inr (code, msg)"
proof -
  have last: "last msg \<notin> set crlf"
  proof
    assume "last msg \<in> set crlf"
    then have "is_space (last msg)" by (auto simp: crlf_def is_space_def)
    with assms(4) show False ..
  qed
  have "trim_crlf ((code @ '' '' @ msg) @ ending) = code @ '' '' @ msg"
  proof (cases "ending = crlf")
    case True
    with assms(2) last show ?thesis by (simp only: True) (rule trim_crlf_append, simp)
  next
    case False
    then have "ending = []" using assms(5) by simp
    with assms(2) last show ?thesis
      by (cases msg rule: rev_cases) (simp_all add: trim_crlf_def)
  qed
  moreover have "trimSpace ('' '' @ msg) = msg"
  proof -
    have "is_space (CHR '' '')" by (simp add: is_space_def)
    with assms(2,3) have "dropWhile is_space ('' '' @ msg) = msg" by (cases msg) simp_all
    with assms(2,4) show ?thesis by (cases msg rule: rev_cases) (simp_all add: trimSpace_def)
  qed
  ultimately show ?thesis
    using assms(1,2) by (simp add: ParseResponse_def Let_def)
qed

lemma ParseResponse_reply_witness:
  "ParseResponse (''515'' @ '' '' @ ''Bad authentication'' @ crlf) = Inr (''515'', ''Bad authentication'')"
  by (rule ParseResponse_reply) (simp_all add: is_space_def)

subsection \<open>Connected clients do not panic\<close>

lemma command_connected: "conn c \<Longrightarrow> command net c cmd w \<noteq> None"
  by (auto simp: command_def send_def readLine_def split: prod.splits option.splits sum.splits)

lemma Authenticate_connected: "conn c \<Longrightarrow> Authenticate net c w \<noteq> None"
  by (cases "wire_ReadFile net (cookiePath c) w") (simp_all add: Authenticate_def command_connected del: not_None_eq)

lemma SignalNewnym_connected: "conn c \<Longrightarrow> SignalNewnym net c w \<noteq> None"
  by (simp add: SignalNewnym_def command_connected)

end
