(* ===== verification/Circuit_Pattern.thy ===== *)
theory Circuit_Pattern
  imports Go_Prelude Complex_Main
begin

section \<open>Traffic patterns and renewal intervals (internal/circuit/pattern.go, adaptive.go)\<close>

text \<open>
  A traffic pattern keeps the times of recent requests; the renewal interval is drawn from a
  range that depends on it. Times and durations are nanoseconds, the clock readings are
  arguments in the order the code takes them, and \<open>float64\<close> quotients are exact.
\<close>

definition seconds :: "int \<Rightarrow> int" where
  "seconds n = n * 1000000000"

record TrafficPattern =
  requestTimes :: "int list"
  windowSize :: int
  burstThreshold :: int

definition NewTrafficPattern :: "int \<Rightarrow> int \<Rightarrow> TrafficPattern" where
  "NewTrafficPattern window threshold =
     \<lparr>requestTimes = [], windowSize = window, burstThreshold = threshold\<rparr>"

definition pruneLocked :: "int \<Rightarrow> TrafficPattern \<Rightarrow> TrafficPattern" where
  "pruneLocked now tp =
     tp\<lparr>requestTimes := dropWhile (\<lambda>t. t < now - windowSize tp) (requestTimes tp)\<rparr>"

definition RecordRequest :: "int \<Rightarrow> TrafficPattern \<Rightarrow> TrafficPattern" where
  "RecordRequest now tp = pruneLocked now (tp\<lparr>requestTimes := requestTimes tp @ [now]\<rparr>)"

definition IsBurst :: "int \<Rightarrow> TrafficPattern \<Rightarrow> bool \<times> TrafficPattern" where
  "IsBurst now tp =
     (let tp' = pruneLocked now tp in (burstThreshold tp' \<le> int (length (requestTimes tp')), tp'))"

text \<open>\<open>now\<close> is the time of the pruning, \<open>later\<close> the one \<open>time.Since\<close> reads.\<close>

definition RequestRate :: "int \<Rightarrow> int \<Rightarrow> TrafficPattern \<Rightarrow> rat \<times> TrafficPattern" where
  "RequestRate now later tp =
     (let tp' = pruneLocked now tp
      in case requestTimes tp' of
           [] \<Rightarrow> (0, tp')
         | oldest # rest \<Rightarrow>
             (let windowSeconds = rat_of_int (later - oldest) / 1000000000
              in if windowSeconds \<le> 0 then (of_nat (length (requestTimes tp')), tp')
                 else (of_nat (length (requestTimes tp')) / windowSeconds, tp')))"

text \<open>\<open>randomInterval\<close>; \<open>draw n\<close> is what \<open>rand.Int64N (n)\<close> returns.\<close>

definition randomInterval :: "int \<Rightarrow> int \<Rightarrow> (int \<Rightarrow> int) \<Rightarrow> int" where
  "randomInterval lo hi draw =
     (let delta = sub64 hi lo in if delta \<le> 0 then lo else add64 lo (draw delta))"

text \<open>What \<open>rand.Int64N\<close> documents.\<close>

definition draw_in_range :: "(int \<Rightarrow> int) \<Rightarrow> bool" where
  "draw_in_range draw \<longleftrightarrow> (\<forall>n. 0 < n \<longrightarrow> 0 \<le> draw n \<and> draw n < n)"

text \<open>The three clock readings and the draw of one call.\<close>

record adaptive_input =
  burst_now :: int
  rate_now :: int
  rate_later :: int
  interval_draw :: "int \<Rightarrow> int"

definition AdaptiveInterval ::
  "adaptive_input \<Rightarrow> TrafficPattern \<Rightarrow> int \<Rightarrow> int \<Rightarrow> int \<times> string \<times> TrafficPattern" where
  "AdaptiveInterval inp tp baseMin baseMax =
     (case IsBurst (burst_now inp) tp of (burst, tp1) \<Rightarrow>
        if burst then (randomInterval (seconds 3) (seconds 7) (interval_draw inp), ''aggressive'', tp1)
        else (case RequestRate (rate_now inp) (rate_later inp) tp1 of (rate, tp2) \<Rightarrow>
          if 1 / 10 < rate
          then (randomInterval (seconds 10) (seconds 20) (interval_draw inp), ''moderate'', tp2)
          else (randomInterval (seconds 20) (seconds 60) (interval_draw inp), ''idle'', tp2)))"

subsection \<open>What the pattern remembers\<close>

lemma pruneLocked_fields [simp]:
  "windowSize (pruneLocked now tp) = windowSize tp"
  "burstThreshold (pruneLocked now tp) = burstThreshold tp"
  by (simp_all add: pruneLocked_def)

lemma dropWhile_sorted_filter:
  "sorted ts \<Longrightarrow> dropWhile (\<lambda>t. t < c) ts = filter (\<lambda>t. c \<le> t) (ts :: int list)"
proof (induction ts)
  case (Cons t ts)
  show ?case
  proof (cases "t < c")
    case False
    with Cons.prems have "filter (\<lambda>t. c \<le> t) ts = ts"
      by (intro filter_True ballI) fastforce
    with False show ?thesis by simp
  qed (use Cons in simp)
qed simp

lemma pruneLocked_sorted:
  "sorted (requestTimes tp) \<Longrightarrow>
   requestTimes (pruneLocked now tp) = filter (\<lambda>t. now - windowSize tp \<le> t) (requestTimes tp)"
  by (simp add: pruneLocked_def dropWhile_sorted_filter)

text \<open>A run of the program: requests recorded and bursts asked for, at the times of a clock.\<close>

datatype pattern_call = Record int | Ask int | Rate int int

fun pattern_run :: "pattern_call list \<Rightarrow> TrafficPattern \<Rightarrow> TrafficPattern" where
  "pattern_run [] tp = tp"
| "pattern_run (Record t # cs) tp = pattern_run cs (RecordRequest t tp)"
| "pattern_run (Ask t # cs) tp = pattern_run cs (snd (IsBurst t tp))"
| "pattern_run (Rate t u # cs) tp = pattern_run cs (snd (RequestRate t u tp))"

fun call_time :: "pattern_call \<Rightarrow> int" where
  "call_time (Record t) = t"
| "call_time (Ask t) = t"
| "call_time (Rate t u) = t"

definition recorded :: "pattern_call list \<Rightarrow> int list" where
  "recorded cs = map call_time (filter (\<lambda>c. case c of Record t \<Rightarrow> True | _ \<Rightarrow> False) cs)"

lemma snd_IsBurst [simp]: "snd (IsBurst now tp) = pruneLocked now tp"
  by (simp add: IsBurst_def Let_def)

lemma snd_RequestRate [simp]: "snd (RequestRate now later tp) = pruneLocked now tp"
  by (simp add: RequestRate_def Let_def split: list.split)

lemma recorded_snoc:
  "recorded (cs @ [c]) = recorded cs @ (case c of Record t \<Rightarrow> [t] | _ \<Rightarrow> [])"
  by (simp add: recorded_def split: pattern_call.split)

lemma pattern_run_append: "pattern_run (cs @ ds) tp = pattern_run ds (pattern_run cs tp)"
  by (induction cs tp rule: pattern_run.induct) simp_all

lemma set_recorded: "set (recorded cs) \<subseteq> set (map call_time cs)"
  by (auto simp: recorded_def)

text \<open>Pruning forgets only what no later call can see: filters for growing cut-offs compose.\<close>

lemma prune_filtered:
  assumes "sorted ts" and "requestTimes tp = filter (\<lambda>t. a \<le> t) ts" and "a \<le> now - windowSize tp"
  shows "requestTimes (pruneLocked now tp) = filter (\<lambda>t. now - windowSize tp \<le> t) ts"
  using assms by (auto simp: pruneLocked_sorted sorted_wrt_filter intro: filter_cong)

definition last_time :: "pattern_call list \<Rightarrow> int" where
  "last_time cs = call_time (last cs)"

lemma pattern_run_params:
  "windowSize (pattern_run cs tp) = windowSize tp \<and> burstThreshold (pattern_run cs tp) = burstThreshold tp"
  by (induction cs tp rule: pattern_run.induct) (simp_all add: RecordRequest_def)

lemma pattern_run_window:
  assumes "sorted (map call_time cs)" and "cs \<noteq> []" and "0 \<le> window"
  shows "requestTimes (pattern_run cs (NewTrafficPattern window threshold)) =
         filter (\<lambda>t. last_time cs - window \<le> t) (recorded cs)"
  using assms
proof (induction cs rule: rev_induct)
  case (snoc c cs)
  let ?tp = "pattern_run cs (NewTrafficPattern window threshold)"
  have win: "windowSize ?tp = window"
    by (simp add: pattern_run_params NewTrafficPattern_def)
  have sorted: "sorted (recorded (cs @ [c]))"
    using snoc.prems(1) unfolding recorded_def by (rule sorted_filter)
  have before: "\<exists>a \<le> call_time c - window. requestTimes ?tp = filter (\<lambda>t. a \<le> t) (recorded cs)"
  proof (cases "cs = []")
    case True
    then show ?thesis by (auto simp: NewTrafficPattern_def recorded_def)
  next
    case False
    then have "last_time cs \<le> call_time c"
      using snoc.prems(1) by (auto simp: last_time_def sorted_append)
    then show ?thesis
      using snoc False by (intro exI [of _ "last_time cs - window"]) (simp add: sorted_append)
  qed
  then obtain a where a: "a \<le> call_time c - window"
    and times: "requestTimes ?tp = filter (\<lambda>t. a \<le> t) (recorded cs)"
    by blast
  have "sorted (recorded cs)" using sorted by (simp add: recorded_snoc sorted_append)
  note prune = prune_filtered [OF this times, unfolded win]
  show ?case
  proof (cases c)
    case (Record t)
    have "requestTimes (?tp\<lparr>requestTimes := requestTimes ?tp @ [t]\<rparr>)
        = filter (\<lambda>t. a \<le> t) (recorded (cs @ [c]))"
      using times a Record snoc.prems(3) by (simp add: recorded_snoc)
    from prune_filtered [OF sorted this, of t] show ?thesis
      using Record a win by (simp add: pattern_run_append RecordRequest_def last_time_def)
  qed (use prune a in \<open>simp_all add: pattern_run_append last_time_def recorded_snoc\<close>)
qed simp

text \<open>C26. Whatever requests were recorded and whatever was asked before, in the order of a clock that
  does not run backwards, \<open>IsBurst\<close> answers whether at least the threshold's number of requests lie
  within the window: pruning never loses a request that still counts, and keeps none that does not.\<close>

theorem IsBurst_counts_window:
  assumes "sorted (map call_time (cs @ [Ask now]))" and "0 \<le> window"
  shows "fst (IsBurst now (pattern_run cs (NewTrafficPattern window threshold))) \<longleftrightarrow>
    threshold \<le> int (length (filter (\<lambda>t. now - window \<le> t) (recorded cs)))"
proof -
  let ?tp = "pattern_run cs (NewTrafficPattern window threshold)"
  have "requestTimes (snd (IsBurst now ?tp)) = filter (\<lambda>t. now - window \<le> t) (recorded cs)"
    using pattern_run_window [OF assms(1) _ assms(2), of threshold]
    by (simp add: pattern_run_append last_time_def recorded_snoc)
  moreover have "burstThreshold ?tp = threshold"
    by (simp add: pattern_run_params NewTrafficPattern_def)
  ultimately show ?thesis by (simp add: IsBurst_def Let_def)
qed

lemma IsBurst_counts_window_witness:
  "fst (IsBurst 105 (pattern_run [Record 1, Record 90, Ask 95, Record 100]
     (NewTrafficPattern 20 3))) = False \<and>
   fst (IsBurst 105 (pattern_run [Record 1, Record 90, Ask 95, Record 100]
     (NewTrafficPattern 20 2))) = True"
  using IsBurst_counts_window [of "[Record 1, Record 90, Ask 95, Record 100]" 105 20 3]
    IsBurst_counts_window [of "[Record 1, Record 90, Ask 95, Record 100]" 105 20 2]
  by (simp add: recorded_def)

subsection \<open>Intervals\<close>

lemma randomInterval_bounds:
  assumes "draw_in_range draw" and "0 \<le> lo" and "lo < hi" and "hi \<le> 1000000000000"
  shows "lo \<le> randomInterval lo hi draw \<and> randomInterval lo hi draw < hi"
proof -
  have "0 \<le> draw (hi - lo) \<and> draw (hi - lo) < hi - lo"
    using assms(1,3) by (simp add: draw_in_range_def)
  with assms(2-4) show ?thesis
    by (simp add: randomInterval_def Let_def go_int in_int64_small)
qed

text \<open>The range of each mode: what the configured minimum and maximum would be compared with.\<close>

fun mode_range :: "string \<Rightarrow> int \<times> int" where
  "mode_range m = (if m = ''aggressive'' then (seconds 3, seconds 7)
     else if m = ''moderate'' then (seconds 10, seconds 20) else (seconds 20, seconds 60))"

text \<open>The adaptive interval lies in the range of the mode reported with it: 3 to 7 seconds in a
  burst, 10 to 20 when more than one request in ten seconds was seen, 20 to 60 otherwise. The bounds
  given by the caller do not matter.\<close>

theorem AdaptiveInterval_in_mode_range:
  assumes "draw_in_range (interval_draw inp)"
    and "AdaptiveInterval inp tp baseMin baseMax = (interval, mode, tp')"
  shows "fst (mode_range mode) \<le> interval \<and> interval < snd (mode_range mode)
    \<and> (mode = ''aggressive'' \<longleftrightarrow> fst (IsBurst (burst_now inp) tp))
    \<and> (\<forall>a b. AdaptiveInterval inp tp a b = (interval, mode, tp'))"
proof -
  note bounds = randomInterval_bounds [OF assms(1)]
  have "seconds 3 \<le> randomInterval (seconds 3) (seconds 7) (interval_draw inp)
      \<and> randomInterval (seconds 3) (seconds 7) (interval_draw inp) < seconds 7"
    "seconds 10 \<le> randomInterval (seconds 10) (seconds 20) (interval_draw inp)
      \<and> randomInterval (seconds 10) (seconds 20) (interval_draw inp) < seconds 20"
    "seconds 20 \<le> randomInterval (seconds 20) (seconds 60) (interval_draw inp)
      \<and> randomInterval (seconds 20) (seconds 60) (interval_draw inp) < seconds 60"
    by (rule bounds; simp add: seconds_def)+
  then show ?thesis
    using assms(2) by (auto simp: AdaptiveInterval_def split: prod.splits if_splits)
qed

lemma AdaptiveInterval_in_mode_range_witness:
  "AdaptiveInterval \<lparr>burst_now = 10, rate_now = 11, rate_later = 12, interval_draw = (\<lambda>n. n - 1)\<rparr>
     (pattern_run [Record 5] (NewTrafficPattern (seconds 30) 20)) 1 2
   = (19999999999, ''moderate'', pattern_run [Record 5] (NewTrafficPattern (seconds 30) 20)) \<and>
   fst (mode_range ''moderate'') \<le> 19999999999 \<and> (19999999999 :: int) < snd (mode_range ''moderate'')"
proof -
  let ?inp = "\<lparr>burst_now = 10, rate_now = 11, rate_later = 12, interval_draw = (\<lambda>n. n - 1)\<rparr>"
  let ?tp = "pattern_run [Record 5] (NewTrafficPattern (seconds 30) 20)"
  have draw: "draw_in_range (interval_draw ?inp)" by (simp add: draw_in_range_def)
  have "AdaptiveInterval ?inp ?tp 1 2 = (19999999999, ''moderate'', ?tp)"
    by (simp add: AdaptiveInterval_def IsBurst_def RequestRate_def pruneLocked_def RecordRequest_def
        NewTrafficPattern_def randomInterval_def seconds_def go_int in_int64_def)
  with AdaptiveInterval_in_mode_range [OF draw this] show ?thesis by blast
qed

end
