(* ===== verification/Circuit_Renewer.thy ===== *)
theory Circuit_Renewer
  imports Circuit_Client Circuit_Pattern
begin

section \<open>The renewal of circuits (internal/circuit/renewer.go)\<close>

text \<open>
  One goroutine per instance talks to its control port; \<open>runAll\<close> waits for them, and
  \<open>Stop\<close> waits for \<open>runAll\<close>. A goroutine is a worker with a program counter, its
  client and the world behind its connection; every call of the client is one step. The traffic
  pattern is shared. What the network does and which case of a \<open>select\<close> wins is chosen by
  the environment.
\<close>

definition defaultMinInterval :: int where
  "defaultMinInterval = seconds 10"

definition defaultMaxInterval :: int where
  "defaultMaxInterval = seconds 15"

record circuitInstance =
  ci_id :: int
  controlAddr :: string
  ci_cookiePath :: string
  minInterval :: int
  maxInterval :: int

record Renewer =
  r_instances :: "circuitInstance list"
  r_started :: bool
  r_pattern :: "TrafficPattern option"

definition NewRenewer :: Renewer where
  "NewRenewer = \<lparr>r_instances = [], r_started = False, r_pattern = None\<rparr>"

definition AddInstance :: "int \<Rightarrow> int \<Rightarrow> string \<Rightarrow> Renewer \<Rightarrow> Renewer" where
  "AddInstance i controlPort path r =
     r\<lparr>r_instances := r_instances r @
        [\<lparr>ci_id = i, controlAddr = ''127.0.0.1'' @ '':'' @ itoa controlPort, ci_cookiePath = path,
          minInterval = defaultMinInterval, maxInterval = defaultMaxInterval\<rparr>]\<rparr>"

definition SetTrafficPattern :: "TrafficPattern option \<Rightarrow> Renewer \<Rightarrow> Renewer" where
  "SetTrafficPattern tp r = r\<lparr>r_pattern := tp\<rparr>"

subsection \<open>One worker\<close>

datatype renew_pc =
    Connecting
  | Authenticating
  | Choosing
  | Waiting int string
  | Signalling
  | Reconnecting
  | Reauthenticating
  | Returned
  | Panicked

record 'w worker =
  pc :: renew_pc
  client :: Client
  world :: 'w

definition new_worker :: "circuitInstance \<Rightarrow> 'w \<Rightarrow> 'w worker" where
  "new_worker ci w =
     \<lparr>pc = Connecting, client = NewClient (controlAddr ci) (ci_cookiePath ci), world = w\<rparr>"

text \<open>A return from \<open>runInstance\<close> once its deferred \<open>Close\<close> is in place.\<close>

definition return_closing :: "'w wire \<Rightarrow> Client \<Rightarrow> 'w \<Rightarrow> 'w worker" where
  "return_closing net c w =
     (case Close net c w of (err, c', w') \<Rightarrow> \<lparr>pc = Returned, client = c', world = w'\<rparr>)"

text \<open>\<open>Authenticate\<close> at the start and in \<open>reconnect\<close>: an error ends the worker.\<close>

definition authenticate_step :: "'w wire \<Rightarrow> 'w worker \<Rightarrow> 'w worker" where
  "authenticate_step net wk =
     (case Authenticate net (client wk) (world wk) of
        None \<Rightarrow> wk\<lparr>pc := Panicked\<rparr>
      | Some (Some err, w') \<Rightarrow> return_closing net (client wk) w'
      | Some (None, w') \<Rightarrow> wk\<lparr>pc := Choosing, world := w'\<rparr>)"

text \<open>What the environment decides in a step: the clock and the draws of the interval, and
  whether the timer is what a waiting worker wakes up for.\<close>

record renew_choice =
  adaptive :: adaptive_input
  timer_fires :: bool

text \<open>The next step of \<open>runInstance\<close>, given whether the context is done; \<open>None\<close> if the
  worker has to wait or has ended.\<close>

definition worker_step ::
  "'w wire \<Rightarrow> circuitInstance \<Rightarrow> renew_choice \<Rightarrow> bool \<Rightarrow> TrafficPattern option \<Rightarrow> 'w worker
    \<Rightarrow> ('w worker \<times> TrafficPattern option) option" where
  "worker_step net ci ch ctx_done pat wk =
     (case pc wk of
        Connecting \<Rightarrow>
          (case Connect net (client wk) (world wk) of
             (Some err, c', w') \<Rightarrow> Some (\<lparr>pc = Returned, client = c', world = w'\<rparr>, pat)
           | (None, c', w') \<Rightarrow> Some (\<lparr>pc = Authenticating, client = c', world = w'\<rparr>, pat))
      | Authenticating \<Rightarrow> Some (authenticate_step net wk, pat)
      | Choosing \<Rightarrow>
          (case pat of
             Some tp \<Rightarrow>
               (case AdaptiveInterval (adaptive ch) tp (minInterval ci) (maxInterval ci) of
                  (interval, mode, tp') \<Rightarrow> Some (wk\<lparr>pc := Waiting interval mode\<rparr>, Some tp'))
           | None \<Rightarrow>
               Some (wk\<lparr>pc := Waiting (randomInterval (minInterval ci) (maxInterval ci)
                                         (interval_draw (adaptive ch))) ''fixed''\<rparr>, None))
      | Waiting interval mode \<Rightarrow>
          (if timer_fires ch then Some (wk\<lparr>pc := Signalling\<rparr>, pat)
           else if ctx_done then Some (return_closing net (client wk) (world wk), pat)
           else None)
      | Signalling \<Rightarrow>
          (case SignalNewnym net (client wk) (world wk) of
             None \<Rightarrow> Some (wk\<lparr>pc := Panicked\<rparr>, pat)
           | Some (Some err, w') \<Rightarrow>
               (case Close net (client wk) w' of
                  (err', c', w'') \<Rightarrow> Some (\<lparr>pc = Reconnecting, client = c', world = w''\<rparr>, pat))
           | Some (None, w') \<Rightarrow> Some (wk\<lparr>pc := Choosing, world := w'\<rparr>, pat))
      | Reconnecting \<Rightarrow>
          (case Connect net (client wk) (world wk) of
             (Some err, c', w') \<Rightarrow> Some (return_closing net c' w', pat)
           | (None, c', w') \<Rightarrow> Some (\<lparr>pc = Reauthenticating, client = c', world = w'\<rparr>, pat))
      | Reauthenticating \<Rightarrow> Some (authenticate_step net wk, pat)
      | Returned \<Rightarrow> None
      | Panicked \<Rightarrow> None)"

subsection \<open>All workers, runAll and Stop\<close>

record 'w renewal =
  workers :: "'w worker list"
  pattern :: "TrafficPattern option"
  cancelled :: bool
  doneCh :: nat
  received :: nat
  all_running :: bool
  stop_called :: bool
  stop_returned :: bool

text \<open>\<open>Start\<close>: the error, or the goroutines it leaves running.\<close>

definition Renewer_Start :: "Renewer \<Rightarrow> 'w list \<Rightarrow> (string + Renewer \<times> 'w renewal)" where
  "Renewer_Start r worlds =
     (if r_instances r = [] then Inl ''Start: no instances added''
      else Inr (r\<lparr>r_started := True\<rparr>,
        \<lparr>workers = map2 new_worker (r_instances r) worlds, pattern = r_pattern r, cancelled = False,
         doneCh = 0, received = 0, all_running = True, stop_called = False, stop_returned = False\<rparr>))"

inductive renewal_step :: "'w wire \<Rightarrow> circuitInstance list \<Rightarrow> 'w renewal \<Rightarrow> 'w renewal \<Rightarrow> bool"
  for net :: "'w wire" and insts :: "circuitInstance list"
where
  work: "\<lbrakk>i < length (workers s); i < length insts;
          worker_step net (insts ! i) ch (cancelled s) (pattern s) (workers s ! i) = Some (wk, pat)\<rbrakk> \<Longrightarrow>
    renewal_step net insts s (s\<lparr>workers := (workers s)[i := wk], pattern := pat,
      doneCh := doneCh s + (if pc wk = Returned then 1 else 0)\<rparr>)"
| interrupt: "renewal_step net insts s (s\<lparr>cancelled := True\<rparr>)"
| receive: "\<lbrakk>all_running s; received s < length insts; received s < doneCh s\<rbrakk> \<Longrightarrow>
    renewal_step net insts s (s\<lparr>received := received s + 1\<rparr>)"
| all_received: "\<lbrakk>all_running s; received s = length insts\<rbrakk> \<Longrightarrow>
    renewal_step net insts s (s\<lparr>all_running := False\<rparr>)"
| ctx_done: "\<lbrakk>all_running s; cancelled s\<rbrakk> \<Longrightarrow> renewal_step net insts s (s\<lparr>all_running := False\<rparr>)"
| stop_call: "renewal_step net insts s (s\<lparr>stop_called := True, cancelled := True\<rparr>)"
| stop_return: "\<lbrakk>stop_called s; \<not> all_running s\<rbrakk> \<Longrightarrow>
    renewal_step net insts s (s\<lparr>stop_returned := True\<rparr>)"

subsection \<open>The protocol of the control port\<close>

text \<open>A wire that records what happened on it.\<close>

datatype wire_event = Dialed bool | Wrote string bool | Got "string option" | Hung_up

definition logged :: "'w wire \<Rightarrow> ('w \<times> wire_event list) wire" where
  "logged net =
     \<lparr>wire_Dial = (\<lambda>a (w, es). case wire_Dial net a w of (r, w') \<Rightarrow> (r, w', es @ [Dialed (r = None)])),
      wire_Write = (\<lambda>c (w, es). case wire_Write net c w of (r, w') \<Rightarrow> (r, w', es @ [Wrote c (r = None)])),
      wire_ReadLine = (\<lambda>(w, es). case wire_ReadLine net w of
         (Inl e, w') \<Rightarrow> (Inl e, w', es @ [Got None])
       | (Inr l, w') \<Rightarrow> (Inr l, w', es @ [Got (Some (trim_crlf l))])),
      wire_Close = (\<lambda>(w, es). case wire_Close net w of (r, w') \<Rightarrow> (r, w', es @ [Hung_up])),
      wire_ReadFile = (\<lambda>p (w, es). wire_ReadFile net p w)\<rparr>"

text \<open>
  The states of a session, and what may happen in each: one connection at a time, a cookie first,
  renewals only after the peer has accepted it, one command at a time, nothing but closing after a
  failure.
\<close>

datatype session = Idle | Up | Asked | Authed | Renewing | Failed

fun session_next :: "wire_event \<Rightarrow> session \<Rightarrow> session option" where
  "session_next (Dialed ok) Idle = Some (if ok then Up else Idle)"
| "session_next (Wrote cmd ok) Up =
     (if hasPrefix cmd ''AUTHENTICATE '' then Some (if ok then Asked else Failed) else None)"
| "session_next (Wrote cmd ok) Authed =
     (if cmd = BuildNewnymCommand then Some (if ok then Renewing else Failed) else None)"
| "session_next (Got reply) Asked =
     Some (case reply of Some l \<Rightarrow> if hasPrefix l ''250'' then Authed else Failed | None \<Rightarrow> Failed)"
| "session_next (Got reply) Renewing =
     Some (case reply of Some l \<Rightarrow> if hasPrefix l ''250'' then Authed else Failed | None \<Rightarrow> Failed)"
| "session_next Hung_up Idle = None"
| "session_next Hung_up _ = Some Idle"
| "session_next _ _ = None"

fun session_run :: "session \<Rightarrow> wire_event list \<Rightarrow> session option" where
  "session_run s [] = Some s"
| "session_run s (e # es) = (case session_next e s of None \<Rightarrow> None | Some s' \<Rightarrow> session_run s' es)"

lemma session_run_append:
  "session_run s (es @ fs) = (case session_run s es of None \<Rightarrow> None | Some s' \<Rightarrow> session_run s' fs)"
  by (induction s es rule: session_run.induct) (simp_all split: option.split)

text \<open>The state of the session at each point of \<open>runInstance\<close>.\<close>

fun session_at :: "renew_pc \<Rightarrow> session" where
  "session_at Connecting = Idle"
| "session_at Authenticating = Up"
| "session_at Reconnecting = Idle"
| "session_at Reauthenticating = Up"
| "session_at Returned = Idle"
| "session_at _ = Authed"

definition worker_ok :: "('w \<times> wire_event list) worker \<Rightarrow> bool" where
  "worker_ok wk \<longleftrightarrow> pc wk \<noteq> Panicked
     \<and> session_run Idle (snd (world wk)) = Some (session_at (pc wk))
     \<and> conn (client wk) = (session_at (pc wk) \<noteq> Idle)"

lemma Connect_logged:
  "session_run Idle (snd w) = Some Idle \<Longrightarrow> Connect (logged net) c w = (err, c', w') \<Longrightarrow>
   session_run Idle (snd w') = Some (if err = None then Up else Idle) \<and>
   conn c' = (if err = None then True else conn c)"
  by (auto simp: Connect_def logged_def session_run_append split: prod.splits option.splits)

lemma Close_logged:
  "session_run Idle (snd w) = Some st \<Longrightarrow> conn c = (st \<noteq> Idle) \<Longrightarrow>
   Close (logged net) c w = (err, c', w') \<Longrightarrow>
   session_run Idle (snd w') = Some Idle \<and> \<not> conn c'"
  by (cases st) (auto simp: Close_def logged_def session_run_append split: prod.splits if_splits)

lemma command_logged:
  assumes "conn c" and "session_run Idle (snd w) = Some st"
    and "session_next (Wrote cmd True) st = Some st1" and "st1 \<in> {Asked, Renewing}"
    and "session_next (Wrote cmd False) st = Some Failed"
  shows "\<exists>err w'. command (logged net) c cmd w = Some (err, w') \<and>
    session_run Idle (snd w') = Some (if err = None then Authed else Failed)"
  using assms
  by (auto simp: command_def send_def readLine_def logged_def session_run_append hasPrefix_def
      split: prod.splits option.splits sum.splits)

lemma return_closing_ok:
  "session_run Idle (snd w) = Some st \<Longrightarrow> conn c = (st \<noteq> Idle) \<Longrightarrow>
   worker_ok (return_closing (logged net) c w)"
  using Close_logged [of w st c net]
  by (auto simp: return_closing_def worker_ok_def split: prod.splits)

lemma pc_return_closing [simp]: "pc (return_closing net c w) = Returned"
  by (simp add: return_closing_def split: prod.splits)

lemma authenticate_step_ok:
  assumes "session_run Idle (snd (world wk)) = Some Up" and "conn (client wk)"
  shows "worker_ok (authenticate_step (logged net) wk)"
proof (cases "wire_ReadFile (logged net) (cookiePath (client wk)) (world wk)")
  case (Inl err)
  with assms show ?thesis
    by (auto simp: authenticate_step_def Authenticate_def intro: return_closing_ok)
next
  case (Inr bytes)
  let ?cmd = "''AUTHENTICATE '' @ EncodeToString bytes @ crlf"
  have "session_next (Wrote ?cmd ok) Up = Some (if ok then Asked else Failed)" for ok
    by (simp only: session_next.simps hasPrefix_append if_True)
  then obtain err w' where cmd: "command (logged net) (client wk) ?cmd (world wk) = Some (err, w')"
    and after: "session_run Idle (snd w') = Some (if err = None then Authed else Failed)"
    using command_logged [OF assms(2,1), of ?cmd Asked net] by auto
  have auth: "Authenticate (logged net) (client wk) (world wk) = Some (err, w')"
    using Inr cmd by (simp add: Authenticate_def del: append.append_Cons)
  show ?thesis
  proof (cases err)
    case None
    with auth after assms show ?thesis by (simp add: authenticate_step_def worker_ok_def)
  next
    case (Some e)
    with after assms(2) have "worker_ok (return_closing (logged net) (client wk) w')"
      by (intro return_closing_ok [of _ Failed]) simp_all
    with auth Some show ?thesis by (simp add: authenticate_step_def)
  qed
qed

lemma new_worker_ok: "worker_ok (new_worker ci (w, []))"
  by (simp add: worker_ok_def new_worker_def NewClient_def)

lemma worker_step_ok:
  assumes "worker_ok wk" and "worker_step (logged net) ci ch d pat wk = Some (wk', pat')"
  shows "worker_ok wk'"
proof -
  have run: "session_run Idle (snd (world wk)) = Some (session_at (pc wk))"
    and conn: "conn (client wk) = (session_at (pc wk) \<noteq> Idle)" and safe: "pc wk \<noteq> Panicked"
    using assms(1) by (simp_all add: worker_ok_def)
  note close = return_closing_ok [OF run conn]
  show ?thesis
  proof (cases "pc wk")
    case Connecting
    with assms(2) run conn Connect_logged [of "world wk" net "client wk"] show ?thesis
      by (auto simp: worker_step_def worker_ok_def split: prod.splits option.splits)
  next
    case Authenticating
    with assms(2) run conn show ?thesis
      by (auto simp: worker_step_def intro: authenticate_step_ok)
  next
    case Choosing
    with assms(2) run conn show ?thesis
      by (auto simp: worker_step_def worker_ok_def split: option.splits prod.splits)
  next
    case (Waiting interval mode)
    with assms(2) run conn close show ?thesis
      by (auto simp: worker_step_def worker_ok_def split: if_splits)
  next
    case Signalling
    have "\<exists>err w'. command (logged net) (client wk) BuildNewnymCommand (world wk) = Some (err, w') \<and>
        session_run Idle (snd w') = Some (if err = None then Authed else Failed)"
      using run conn Signalling
      by (intro command_logged [of _ _ Authed _ Renewing]) (simp_all add: BuildNewnymCommand_def)
    then obtain err w' where cmd: "SignalNewnym (logged net) (client wk) (world wk) = Some (err, w')"
      and after: "session_run Idle (snd w') = Some (if err = None then Authed else Failed)"
      by (auto simp: SignalNewnym_def BuildNewnymCommand_def)
    show ?thesis
    proof (cases err)
      case None
      with assms(2) Signalling cmd after conn show ?thesis
        by (auto simp: worker_step_def worker_ok_def)
    next
      case (Some e)
      with assms(2) Signalling cmd after conn Close_logged [of w' Failed "client wk" net] show ?thesis
        by (auto simp: worker_step_def worker_ok_def split: prod.splits)
    qed
  next
    case Reconnecting
    obtain err c' w' where c: "Connect (logged net) (client wk) (world wk) = (err, c', w')"
      by (metis prod_cases3)
    from Connect_logged [OF _ this] run conn Reconnecting
    have "session_run Idle (snd w') = Some (if err = None then Up else Idle)"
      and "conn c' = (err = None)" by (simp_all split: if_splits)
    with assms(2) Reconnecting c show ?thesis
      by (cases err) (auto simp: worker_step_def worker_ok_def [of "\<lparr>pc = Reauthenticating, client = c', world = w'\<rparr>"]
          intro: return_closing_ok)
  next
    case Reauthenticating
    with assms(2) run conn show ?thesis
      by (auto simp: worker_step_def intro: authenticate_step_ok)
  qed (use assms(2) safe in \<open>simp_all add: worker_step_def\<close>)
qed

subsection \<open>Every interleaving of the workers\<close>

definition renewal_ok :: "circuitInstance list \<Rightarrow> ('w \<times> wire_event list) renewal \<Rightarrow> bool" where
  "renewal_ok insts s \<longleftrightarrow> list_all worker_ok (workers s) \<and> length (workers s) = length insts
     \<and> doneCh s = length (filter (\<lambda>wk. pc wk = Returned) (workers s)) \<and> received s \<le> doneCh s
     \<and> (all_running s \<or> cancelled s \<or> received s = length insts)
     \<and> (stop_called s \<longrightarrow> cancelled s) \<and> (stop_returned s \<longrightarrow> \<not> all_running s)"

definition unlogged_start :: "'w list \<Rightarrow> ('w \<times> wire_event list) list" where
  "unlogged_start ws = map (\<lambda>w. (w, [])) ws"

definition renewal_from :: "'w wire \<Rightarrow> Renewer \<Rightarrow> 'w list \<Rightarrow> ('w \<times> wire_event list) renewal \<Rightarrow> bool" where
  "renewal_from net r ws s \<longleftrightarrow> length ws = length (r_instances r) \<and>
     (\<exists>r' s0. Renewer_Start r (unlogged_start ws) = Inr (r', s0) \<and>
       (renewal_step (logged net) (r_instances r))\<^sup>*\<^sup>* s0 s)"

lemma Renewer_Start_ok:
  assumes "Renewer_Start r (unlogged_start ws) = Inr (r', s)" and "length ws = length (r_instances r)"
  shows "renewal_ok (r_instances r) s"
proof -
  have fresh: "pc (new_worker ci w) = Connecting" for ci and w :: "'a \<times> wire_event list"
    by (simp add: new_worker_def)
  have "list_all worker_ok (map2 new_worker insts (unlogged_start ws))" for insts :: "circuitInstance list"
    by (induction insts ws rule: list_induct2') (simp_all add: unlogged_start_def new_worker_ok)
  moreover have "filter (\<lambda>wk. pc wk = Returned) (map2 new_worker insts (unlogged_start ws)) = []"
    for insts :: "circuitInstance list"
    by (auto simp: filter_empty_conv fresh)
  ultimately show ?thesis
    using assms by (auto simp: Renewer_Start_def renewal_ok_def unlogged_start_def split: if_splits)
qed

lemma worker_step_not_returned:
  "worker_step net ci ch d pat wk = Some r \<Longrightarrow> pc wk \<noteq> Returned \<and> pc wk \<noteq> Panicked"
  by (auto simp: worker_step_def)

lemma filter_update_length:
  "i < length xs \<Longrightarrow> \<not> P (xs ! i) \<Longrightarrow>
   length (filter P (xs[i := x])) = length (filter P xs) + (if P x then 1 else 0)"
  by (induction xs arbitrary: i) (auto split: nat.split simp: nth_Cons')

lemma list_all_update: "list_all P xs \<Longrightarrow> P x \<Longrightarrow> list_all P (xs[i := x])"
  by (induction xs arbitrary: i) (auto split: nat.split)

lemma renewal_step_ok:
  "renewal_step (logged net) insts s s' \<Longrightarrow> renewal_ok insts s \<Longrightarrow> renewal_ok insts s'"
proof (induction rule: renewal_step.induct)
  case (work i s ch wk pat)
  then have "worker_ok wk" using worker_step_ok by (metis list_all_length renewal_ok_def)
  moreover have "pc (workers s ! i) \<noteq> Returned"
    using worker_step_not_returned [OF work(3)] by simp
  ultimately show ?case
    using work by (simp add: renewal_ok_def list_all_update filter_update_length)
qed (auto simp: renewal_ok_def)

lemma renewal_from_ok: "renewal_from net r ws s \<Longrightarrow> renewal_ok (r_instances r) s"
proof -
  assume "renewal_from net r ws s"
  then obtain r' s0 where start: "Renewer_Start r (unlogged_start ws) = Inr (r', s0)"
    and len: "length ws = length (r_instances r)"
    and steps: "(renewal_step (logged net) (r_instances r))\<^sup>*\<^sup>* s0 s"
    by (auto simp: renewal_from_def)
  from steps show ?thesis
    by induction (use Renewer_Start_ok [OF start len] renewal_step_ok in blast)+
qed

lemma renewal_from_trans:
  "renewal_from net r ws s \<Longrightarrow> (renewal_step (logged net) (r_instances r))\<^sup>*\<^sup>* s s' \<Longrightarrow>
   renewal_from net r ws s'"
  unfolding renewal_from_def by (meson rtranclp_trans)

lemma all_filtered: "length (filter P xs) = length xs \<Longrightarrow> x \<in> set xs \<Longrightarrow> P x"
  by (metis length_filter_less nat_less_le)

text \<open>A worker whose conversation so far obeys the protocol, and has ended if the worker has.\<close>

definition worker_safe :: "('w \<times> wire_event list) worker \<Rightarrow> bool" where
  "worker_safe wk =
     (pc wk \<noteq> Panicked \<and>
      (case session_run Idle (snd (world wk)) of
         None \<Rightarrow> False
       | Some st \<Rightarrow> pc wk \<noteq> Returned \<or> st = Idle))"

text \<open>C12. Whatever the network answers and however the workers and \<open>Stop\<close> interleave: no worker
  uses a connection it does not have, a renewal is only asked for on a connection whose peer has
  accepted the cookie, one command is answered before the next is sent, a connection is closed
  before the next is opened, and a worker that has ended has closed its connection.\<close>

theorem renewal_protocol:
  assumes "renewal_from net r ws s"
  shows "list_all worker_safe (workers s)"
proof -
  have "worker_ok wk \<Longrightarrow> worker_safe wk" for wk :: "('a \<times> wire_event list) worker"
    by (simp add: worker_ok_def worker_safe_def)
  with renewal_from_ok [OF assms] show ?thesis
    by (auto simp: renewal_ok_def list_all_iff)
qed


subsection \<open>One failed reconnection\<close>

definition gave_up :: "('w \<times> wire_event list) worker \<Rightarrow> ('w \<times> wire_event list) worker \<Rightarrow> bool" where
  "gave_up wk wk' \<longleftrightarrow> pc wk' = Returned \<and> snd (world wk') = snd (world wk) @ [Dialed False]"

lemma refused_step:
  assumes "pc wk = Reconnecting" and "\<not> conn (client wk)"
    and "fst (wire_Dial net (addr (client wk)) (fst (world wk))) \<noteq> None"
    and "worker_step (logged net) ci ch d pat wk = Some (wk', pat')"
  shows "gave_up wk wk'"
  using assms
  by (auto simp: worker_step_def gave_up_def Connect_def return_closing_def Close_def logged_def
      split: prod.splits option.splits)

text \<open>C38. A worker that lost its connection tries to reconnect once, at once. If that attempt is
  refused, as by a Tor process that has not opened its control port yet, the circuits of the instance
  are never renewed again: in every later state the worker stands where it stood or has returned,
  with the refused attempt as the last thing it did.\<close>

theorem refused_reconnect_ends_renewal:
  assumes "renewal_from net r ws s" and "i < length (workers s)"
    and "pc (workers s ! i) = Reconnecting"
    and "fst (wire_Dial net (addr (client (workers s ! i))) (fst (world (workers s ! i)))) \<noteq> None"
    and "(renewal_step (logged net) (r_instances r))\<^sup>*\<^sup>* s s'"
  shows "workers s' ! i = workers s ! i \<or> gave_up (workers s ! i) (workers s' ! i)"
proof -
  let ?wk = "workers s ! i"
  have "worker_ok ?wk"
    using renewal_from_ok [OF assms(1)] assms(2) by (simp add: renewal_ok_def list_all_length)
  then have down: "\<not> conn (client ?wk)" using assms(3) by (simp add: worker_ok_def)
  note refused = refused_step [OF assms(3) down assms(4)]
  from assms(5) have "(workers s' ! i = ?wk \<or> gave_up ?wk (workers s' ! i))
      \<and> length (workers s') = length (workers s)"
  proof induction
    case (step t u)
    from step.hyps(2) show ?case
    proof cases
      case (work j ch wk pat)
      show ?thesis
      proof (cases "j = i")
        case True
        then have "pc (workers t ! i) \<noteq> Returned"
          using work(4) worker_step_not_returned by blast
        then have "workers t ! i = ?wk" using step.IH by (auto simp: gave_up_def)
        then have "gave_up ?wk wk" using work(4) True refused by simp
        then show ?thesis using work True step.IH assms(2) by simp
      qed (use work step.IH in simp)
    qed (use step.IH in auto)
  qed simp
  then show ?thesis by simp
qed

subsection \<open>A run\<close>

text \<open>A peer that accepts the cookie and every command, until the connection is closed or lost: the
  world is the number of lines it will still answer, and it takes one connection only.\<close>

definition demo_net :: "(nat \<times> bool) wire" where
  "demo_net =
     \<lparr>wire_Dial = (\<lambda>a (n, used). (if used then Some ''connection refused'' else None, (n, True))),
      wire_Write = (\<lambda>c w. (None, w)),
      wire_ReadLine = (\<lambda>(n, used). if n = 0 then (Inl ''EOF'', (n, used))
         else (Inr (''250 OK'' @ crlf), (n - 1, used))),
      wire_Close = (\<lambda>w. (None, w)),
      wire_ReadFile = (\<lambda>p w. Inr [255, 0])\<rparr>"

definition demo_renewer :: Renewer where
  "demo_renewer = AddInstance 0 5999 ''/tmp/splitter/tor_data_0/control_auth_cookie'' NewRenewer"

definition demo_choice :: renew_choice where
  "demo_choice = \<lparr>adaptive = \<lparr>burst_now = 0, rate_now = 0, rate_later = 0, interval_draw = (\<lambda>n. 0)\<rparr>,
     timer_fires = True\<rparr>"

fun demo_run :: "nat \<Rightarrow> ((nat \<times> bool) \<times> wire_event list) worker \<Rightarrow> ((nat \<times> bool) \<times> wire_event list) worker option" where
  "demo_run 0 wk = Some wk"
| "demo_run (Suc k) wk =
     (case worker_step (logged demo_net) (hd (r_instances demo_renewer)) demo_choice False None wk of
        None \<Rightarrow> None | Some (wk', p) \<Rightarrow> demo_run k wk')"

definition demo_state :: "((nat \<times> bool) \<times> wire_event list) worker \<Rightarrow> ((nat \<times> bool) \<times> wire_event list) renewal" where
  "demo_state wk = \<lparr>workers = [wk], pattern = None, cancelled = False, doneCh = 0, received = 0,
     all_running = True, stop_called = False, stop_returned = False\<rparr>"

lemma worker_step_no_pattern:
  "worker_step net ci ch d None wk = Some (wk', pat') \<Longrightarrow> pat' = None"
  by (auto simp: worker_step_def split: renew_pc.splits prod.splits option.splits if_splits)

lemma demo_reached:
  "demo_run k wk = Some wk' \<Longrightarrow> pc wk' \<noteq> Returned \<Longrightarrow>
   renewal_from demo_net demo_renewer [(1, False)] (demo_state wk) \<Longrightarrow>
   renewal_from demo_net demo_renewer [(1, False)] (demo_state wk')"
proof (induction k wk rule: demo_run.induct)
  case (2 k wk)
  then obtain wk1 p where one: "worker_step (logged demo_net) (hd (r_instances demo_renewer)) demo_choice
      False None wk = Some (wk1, p)" and rest: "demo_run k wk1 = Some wk'"
    by (auto split: option.splits)
  have "pc wk1 \<noteq> Returned"
    using rest 2(3) by (cases k) (auto simp: worker_step_def split: option.splits)
  moreover have "p = None" by (rule worker_step_no_pattern [OF one])
  ultimately have "renewal_step (logged demo_net) (r_instances demo_renewer) (demo_state wk) (demo_state wk1)"
    using work [of 0 "demo_state wk" "r_instances demo_renewer" "logged demo_net" demo_choice wk1 p] one
    by (simp add: demo_state_def demo_renewer_def AddInstance_def NewRenewer_def)
  then have "renewal_from demo_net demo_renewer [(1, False)] (demo_state wk1)"
    using 2(4) renewal_from_trans by blast
  then show ?case using "2.IH" [OF one refl rest] rest 2(3) by blast
qed simp

definition demo_worker :: "((nat \<times> bool) \<times> wire_event list) worker" where
  "demo_worker = new_worker (hd (r_instances demo_renewer)) ((1, False), [])"

lemma demo_start: "renewal_from demo_net demo_renewer [(1, False)] (demo_state demo_worker)"
  by (simp add: renewal_from_def Renewer_Start_def demo_renewer_def AddInstance_def NewRenewer_def
      unlogged_start_def demo_state_def demo_worker_def)

lemmas demo_eval = worker_step_def demo_worker_def new_worker_def demo_choice_def demo_renewer_def
  AddInstance_def NewRenewer_def NewClient_def Connect_def logged_def demo_net_def authenticate_step_def
  Authenticate_def command_def send_def readLine_def SignalNewnym_def Close_def return_closing_def
  crlf_def trim_crlf_def hasPrefix_def randomInterval_def defaultMinInterval_def defaultMaxInterval_def

text \<open>Connected and authenticated: what was said so far.\<close>

definition demo_accepted :: "((nat \<times> bool) \<times> wire_event list) worker" where
  "demo_accepted = the (demo_run 2 demo_worker)"

lemma demo_run_accepted: "demo_run 2 demo_worker = Some demo_accepted \<and> pc demo_accepted = Choosing"
  unfolding demo_accepted_def by (simp add: numeral_2_eq_2 demo_eval)

text \<open>The peer hung up in the middle of a renewal.\<close>

definition demo_lost :: "((nat \<times> bool) \<times> wire_event list) worker" where
  "demo_lost = the (demo_run 5 demo_worker)"

lemma demo_run_lost: "demo_run 5 demo_worker = Some demo_lost \<and> pc demo_lost = Reconnecting
    \<and> fst (world demo_lost) = (0, True)"
  unfolding demo_lost_def by (simp add: eval_nat_numeral demo_eval)

lemma demo_lost_reached: "renewal_from demo_net demo_renewer [(1, False)] (demo_state demo_lost)"
  using demo_reached [of 5 demo_worker demo_lost] demo_run_lost demo_start by simp

lemma renewal_protocol_witness: "list_all worker_safe (workers (demo_state demo_lost))"
  by (rule renewal_protocol [OF demo_lost_reached])


lemma refused_reconnect_ends_renewal_witness:
  "gave_up demo_lost (the (demo_run 1 demo_lost)) \<and> demo_run 2 demo_lost = None \<and>
   (workers (demo_state (the (demo_run 1 demo_lost))) ! 0 = demo_lost \<or>
    gave_up demo_lost (the (demo_run 1 demo_lost)))"
proof -
  let ?s = "demo_state demo_lost"
  obtain wk p where one: "worker_step (logged demo_net) (hd (r_instances demo_renewer)) demo_choice
      False None demo_lost = Some (wk, p)"
    using demo_run_lost
    by (cases "Connect (logged demo_net) (client demo_lost) (world demo_lost)"; cases "fst (Connect (logged demo_net) (client demo_lost) (world demo_lost))")
       (simp_all add: worker_step_def)
  have wk: "wk = the (demo_run 1 demo_lost)" using one by (simp add: One_nat_def)
  have refused: "fst (wire_Dial demo_net a (fst (world demo_lost))) \<noteq> None" for a
    using demo_run_lost by (simp add: demo_net_def)
  let ?s' = "?s\<lparr>workers := [wk], doneCh := doneCh ?s + (if pc wk = Returned then 1 else 0)\<rparr>"
  have "renewal_step (logged demo_net) (r_instances demo_renewer) ?s ?s'"
    using work [of 0 ?s "r_instances demo_renewer" "logged demo_net" demo_choice wk p] one
      worker_step_no_pattern [OF one]
    by (simp add: demo_state_def demo_renewer_def AddInstance_def NewRenewer_def)
  then have "workers ?s' ! 0 = workers ?s ! 0 \<or> gave_up (workers ?s ! 0) (workers ?s' ! 0)"
    using refused_reconnect_ends_renewal [OF demo_lost_reached, of 0 ?s'] demo_run_lost refused
    by (simp add: demo_state_def r_into_rtranclp)
  moreover have "gave_up demo_lost wk"
    using refused_step [of demo_lost demo_net] demo_run_lost refused one renewal_from_ok [OF demo_lost_reached]
    by (simp add: renewal_ok_def demo_state_def worker_ok_def)
  moreover have "demo_run 2 demo_lost = None"
    using one calculation(2) by (simp add: numeral_2_eq_2 gave_up_def worker_step_def [of _ _ _ _ _ wk])
  ultimately show ?thesis using wk by (simp add: demo_state_def)
qed

end
