(* ===== verification/Cmd_Run.thy ===== *)
theory Cmd_Run
  imports Cmd_Reload Health_Status Circuit_Renewer Tor_Restart
begin

section \<open>Starting and stopping the program (cmd/run.go)\<close>

text \<open>
  The body of the run command: the managers of all components are made and started in order,
  the first error ends the command, and a signal runs the shutdown sequence. The steps are the
  components' own operations. What the supervisors of \<open>StartAllWithRestart\<close> do until they are
  all ready or interrupted is any sequence of starts, state changes and exits. \<open>None\<close> is a
  panic.
\<close>

subsection \<open>Start-up\<close>

datatype run_error =
    RunMkdir os_error
  | RunCheck check_error
  | RunCountries country_error
  | RunTorInit manager_error
  | RunTorStart ctx_error
  | RunRenewal string
  | RunHapConfig hap_error
  | RunHapStart hap_error

text \<open>What a supervisor does to its instance, and the exit of a process.\<close>

datatype supervisor_event = SupStart nat | SupState nat State | SupExit nat "string option"

fun supervise :: "'o tor_sys \<Rightarrow> Config \<Rightarrow> supervisor_event list \<Rightarrow> 'o tor_world \<Rightarrow> 'o tor_world" where
  "supervise sys cfg [] w = w"
| "supervise sys cfg (SupStart k # evs) w =
     supervise sys cfg evs
       (if k < length (instances (torMgr w)) then snd (launch_at sys cfg k w) else w)"
| "supervise sys cfg (SupState k st # evs) w =
     supervise sys cfg evs
       (if k < length (instances (torMgr w)) then set_instance k (setState st (instances (torMgr w) ! k)) w else w)"
| "supervise sys cfg (SupExit h err # evs) w =
     supervise sys cfg evs (w\<lparr>procMgr := on_process h (reap err) (procMgr w)\<rparr>)"

record 'o run_inputs =
  in_tor :: "'o tor_sys"
  in_hap :: "'o hap_sys"
  in_lookPath :: "string \<Rightarrow> string + string"
  in_runVersion :: "string \<Rightarrow> string + string"
  in_RemoveAll :: "string \<Rightarrow> 'o \<Rightarrow> os_error option \<times> 'o"
  in_detected :: "version_error + Version"
  in_shuffle :: "(nat \<times> nat) list"
  in_supervisors :: "supervisor_event list"
  in_interrupted :: "ctx_error option"
  in_password :: "nat \<Rightarrow> nat option"

record 'o program =
  prog_world :: "'o tor_world"
  prog_renewer :: Renewer
  prog_haproxy :: HAProxyManager
  prog_daemon :: Daemon

text \<open>The flags of the command itself, set after the configuration was loaded and validated; the
  interval is cut to whole seconds.\<close>

definition run_flags :: "int option \<Rightarrow> string option \<Rightarrow> Config \<Rightarrow> Config" where
  "run_flags country_interval load_balance cfg =
     (let cfg1 = (case country_interval of None \<Rightarrow> cfg
            | Some v \<Rightarrow> cfg\<lparr>Country := (Country cfg)\<lparr>Rotation := (Rotation (Country cfg))
                \<lparr>Rotation_Interval := (if v < 0 then - (- v div second) else v div second)\<rparr>\<rparr>\<rparr>)
      in case load_balance of None \<Rightarrow> cfg1
         | Some v \<Rightarrow> cfg1\<lparr>Proxy := (Proxy cfg1)\<lparr>LoadBalanceAlgorithm := v\<rparr>\<rparr>)"

definition cookie_path :: "Config \<Rightarrow> Instance \<Rightarrow> string" where
  "cookie_path cfg inst =
     filepath_Join [TempFiles (Paths cfg), ''tor_data_'' @ itoa (inst_ID inst), ''control_auth_cookie'']"

definition make_renewer :: "Config \<Rightarrow> Instance list \<Rightarrow> Renewer" where
  "make_renewer cfg insts =
     foldl (\<lambda>r inst. AddInstance (inst_ID inst) (inst_ControlPort inst) (cookie_path cfg inst) r) NewRenewer insts"

text \<open>From the first circuit renewal to the last manager.\<close>

definition start_services ::
  "'o run_inputs \<Rightarrow> Config \<Rightarrow> 'o tor_world \<Rightarrow> ((run_error + 'o program) \<times> 'o tor_world) option" where
  "start_services inp cfg w =
     (let insts = instances (torMgr w);
          renewer = make_renewer cfg insts
      in case Renewer_Start renewer (map (\<lambda>i. ()) insts) of
           Inl err \<Rightarrow> Some (Inl (RunRenewal err), w)
         | Inr (renewer', goroutines) \<Rightarrow>
             (let hm = NewHAProxyManager cfg (in_password inp)
              in case GenerateConfig (in_hap inp) cfg insts hm (outside w) of
                   None \<Rightarrow> None
                 | Some (Some err, o1) \<Rightarrow> Some (Inl (RunHapConfig err), w\<lparr>outside := o1\<rparr>)
                 | Some (None, o1) \<Rightarrow>
                     (case Hap_Start (in_hap inp) cfg hm (procMgr w) o1 of
                        (e, hm', pm, o2) \<Rightarrow>
                          (let w' = w\<lparr>procMgr := pm, outside := o2\<rparr>
                           in case e of
                                Some err \<Rightarrow> Some (Inl (RunHapStart err), w')
                              | None \<Rightarrow>
                                  (case Start (NewDaemon cfg) of
                                     None \<Rightarrow> None
                                   | Some d \<Rightarrow>
                                       Some (Inr \<lparr>prog_world = w', prog_renewer = renewer',
                                                  prog_haproxy = hm', prog_daemon = d\<rparr>, w'))))))"

definition startup ::
  "'o run_inputs \<Rightarrow> Config \<Rightarrow> 'o \<Rightarrow> ((run_error + 'o program) \<times> 'o tor_world) option" where
  "startup inp cfg o0 =
     (let tmpDir = TempFiles (Paths cfg);
          world = (\<lambda>v. \<lparr>torMgr = NewTorManager, procMgr = NewManager tmpDir, outside = v\<rparr>)
      in case os_MkdirAll (in_tor inp) tmpDir o0 of
           (Some err, o1) \<Rightarrow> Some (Inl (RunMkdir err), world o1)
         | (None, o1) \<Rightarrow>
      (case Cleanup (in_RemoveAll inp) (StopAll (\<lambda>h. None) (NewManager tmpDir)) o1 of
         (ignored, o2) \<Rightarrow>
      (case os_MkdirAll (in_tor inp) tmpDir o2 of
           (Some err, o3) \<Rightarrow> Some (Inl (RunMkdir err), world o3)
         | (None, o3) \<Rightarrow>
      (case CheckDependencies (in_lookPath inp) (in_runVersion inp) cfg of
         Inl err \<Rightarrow> Some (Inl (RunCheck err), world o3)
       | Inr check \<Rightarrow>
      (case SelectRandom (Accepted (Country cfg)) (Blacklisted (Country cfg)) (Countries (Instances cfg)) (in_shuffle inp) of
         None \<Rightarrow> None
       | Some (Inl err) \<Rightarrow> Some (Inl (RunCountries err), world o3)
       | Some (Inr countries) \<Rightarrow>
      (case DetectAndCreate cfg (in_detected inp) countries NewTorManager of
         (Some err, tm) \<Rightarrow> Some (Inl (RunTorInit err), (world o3)\<lparr>torMgr := tm\<rparr>)
       | (None, tm) \<Rightarrow>
      (let w = supervise (in_tor inp) cfg (in_supervisors inp) ((world o3)\<lparr>torMgr := tm\<rparr>)
       in case in_interrupted inp of
            Some err \<Rightarrow> Some (Inl (RunTorStart err), w)
          | None \<Rightarrow> start_services inp cfg w)))))))"

subsection \<open>Shutdown\<close>

text \<open>
  Each call is waited for before the next: \<open>Stop\<close> of the daemon and of the renewer return, then
  HAProxy, the instances and every other process are stopped, and the files removed. \<open>order\<close> is the
  order in which the goroutines of \<open>StopAll\<close> run; \<open>waits\<close> what the remaining processes exit with.
  The context is done by now, so \<open>Spawn\<close> refuses; one that was under way when the signal came is
  taken to have added its process before.
\<close>

definition shutdown ::
  "'o run_inputs \<Rightarrow> nat list \<Rightarrow> (nat \<Rightarrow> string option) \<Rightarrow> 'o program \<Rightarrow> 'o program" where
  "shutdown inp order waits p =
     (let d = Stop_request (prog_daemon p);
          w = prog_world p
      in case Hap_Stop (in_hap inp) (prog_haproxy p) (procMgr w) (outside w) of
           (e1, hm, pm1, o1) \<Rightarrow>
         (case Tor_StopAll (in_tor inp) order (w\<lparr>procMgr := pm1, outside := o1\<rparr>) of
            (e2, w2) \<Rightarrow>
              (let pm3 = StopAll waits (procMgr w2)
               in case Cleanup (in_RemoveAll inp) pm3 (outside w2) of
                    (e3, o3) \<Rightarrow>
                      p\<lparr>prog_daemon := d, prog_haproxy := hm, prog_world := w2\<lparr>procMgr := pm3, outside := o3\<rparr>\<rparr>)))"

subsection \<open>The parts fit together\<close>

lemma identity_setState [simp]: "identity (setState st inst) = identity inst"
  by (simp add: identity_def setState_def)

lemma supervise_identity:
  "map identity (instances (torMgr (supervise sys cfg evs w))) = map identity (instances (torMgr w))"
proof (induction sys cfg evs w rule: supervise.induct)
  case (2 sys cfg k evs w)
  have "map identity (instances (torMgr (snd (launch_at sys cfg k w)))) = map identity (instances (torMgr w))"
    if "k < length (instances (torMgr w))"
  proof -
    obtain e w' where "launch_at sys cfg k w = (e, w')" by fastforce
    note eff = launch_at_effect [OF this that]
    show ?thesis
    proof (rule nth_equalityI)
      fix i assume "i < length (map identity (instances (torMgr (snd (launch_at sys cfg k w)))))"
      then show "map identity (instances (torMgr (snd (launch_at sys cfg k w)))) ! i =
          map identity (instances (torMgr w)) ! i"
        using eff \<open>launch_at sys cfg k w = (e, w')\<close> by (cases "i = k") auto
    qed (use eff \<open>launch_at sys cfg k w = (e, w')\<close> in simp)
  qed
  with 2 show ?case by simp
next
  case (3 sys cfg k st evs w)
  have "map identity (instances (torMgr (set_instance k (setState st (instances (torMgr w) ! k)) w)))
      = map identity (instances (torMgr w))" if "k < length (instances (torMgr w))"
    using that by (simp add: set_instance_def map_update list_update_same_conv)
  with 3 show ?case by simp
qed simp_all

lemma identity_eq_maps:
  assumes "map identity xs = map identity ys"
  shows "map inst_ID xs = map inst_ID ys" and "map inst_Country xs = map inst_Country ys"
    and "length xs = length ys"
proof -
  have "map (fst \<circ> identity) xs = map (fst \<circ> identity) ys"
    and "map (fst \<circ> snd \<circ> identity) xs = map (fst \<circ> snd \<circ> identity) ys"
    using assms by (metis map_map)+
  then show "map inst_ID xs = map inst_ID ys" and "map inst_Country xs = map inst_Country ys"
    by (simp_all add: identity_def comp_def)
  show "length xs = length ys" using assms by (metis length_map)
qed

lemma make_renewer_instances:
  "r_instances (make_renewer cfg insts) =
     map (\<lambda>i. \<lparr>ci_id = inst_ID i, controlAddr = ''127.0.0.1:'' @ itoa (inst_ControlPort i),
               ci_cookiePath = cookie_path cfg i, minInterval = defaultMinInterval,
               maxInterval = defaultMaxInterval\<rparr>) insts"
proof -
  have "r_instances (foldl (\<lambda>r inst. AddInstance (inst_ID inst) (inst_ControlPort inst) (cookie_path cfg inst) r) r insts)
    = r_instances r @ map (\<lambda>i. \<lparr>ci_id = inst_ID i, controlAddr = ''127.0.0.1:'' @ itoa (inst_ControlPort i),
               ci_cookiePath = cookie_path cfg i, minInterval = defaultMinInterval,
               maxInterval = defaultMaxInterval\<rparr>) insts" for r
    by (induction insts arbitrary: r) (simp_all add: AddInstance_def)
  from this [of NewRenewer] show ?thesis by (simp add: make_renewer_def NewRenewer_def)
qed

lemma cookie_path_in_data_dir: "cookie_path cfg inst = data_dir cfg inst @ ''/control_auth_cookie''"
proof -
  have "plain_name ''control_auth_cookie''" by (simp add: plain_name_def)
  from filepath_Join_plain2 [OF plain_data_name this] show ?thesis
    by (simp add: cookie_path_def data_dir_def)
qed

lemma start_services_Inr:
  assumes "start_services inp cfg w = Some (Inr p, w')"
  shows "prog_world p = w' \<and> torMgr w' = torMgr w
    \<and> r_instances (prog_renewer p) = r_instances (make_renewer cfg (instances (torMgr w)))
    \<and> hap_proc (prog_haproxy p) = Some (length (processes (procMgr w)))
    \<and> length (processes (procMgr w')) = Suc (length (processes (procMgr w)))
    \<and> started (prog_daemon p)"
proof -
  let ?hm = "NewHAProxyManager cfg (in_password inp)"
  obtain o1 hm' pm o2 d where h: "Hap_Start (in_hap inp) cfg ?hm (procMgr w) o1 = (None, hm', pm, o2)"
    and p: "p = \<lparr>prog_world = w', prog_renewer = (make_renewer cfg (instances (torMgr w)))\<lparr>r_started := True\<rparr>,
          prog_haproxy = hm', prog_daemon = d\<rparr>"
    and w': "w' = w\<lparr>procMgr := pm, outside := o2\<rparr>" and d: "Start (NewDaemon cfg) = Some d"
    using assms
    by (auto simp: start_services_def Renewer_Start_def Let_def split: if_splits option.splits prod.splits)
  obtain r pm1 o3 where s: "hap_spawn (in_hap inp) ''haproxy'' (HAProxy_BinaryPath (HAProxy cfg))
      [''-f'', configFile ?hm] (procMgr w) o1 = (r, pm1, o3)" by (metis prod_cases3)
  have "started d"
    using d by (auto simp: Start_def Let_def split: if_splits option.splits)
  from s show ?thesis
  proof (cases rule: hap_spawn_cases)
    case (failed err)
    with s h show ?thesis by (simp add: Hap_Start_def)
  next
    case (ok q)
    with s h p w' \<open>started d\<close> show ?thesis by (simp add: Hap_Start_def) (auto simp: ok(2))
  qed
qed

lemma startup_services:
  assumes "startup inp cfg o0 = Some (Inr p, w')"
  obtains countries tm v where
    "SelectRandom (Accepted (Country cfg)) (Blacklisted (Country cfg)) (Countries (Instances cfg)) (in_shuffle inp)
       = Some (Inr countries)"
    and "DetectAndCreate cfg (in_detected inp) countries NewTorManager = (None, tm)"
    and "start_services inp cfg (supervise (in_tor inp) cfg (in_supervisors inp)
       \<lparr>torMgr = tm, procMgr = NewManager (TempFiles (Paths cfg)), outside = v\<rparr>) = Some (Inr p, w')"
  using assms
  by (auto simp: startup_def Let_def split: option.splits prod.splits sum.splits)

text \<open>The instances of a started program are those made at the start, whatever happened since.\<close>

lemma startup_instances:
  assumes "startup inp cfg o0 = Some (Inr p, w)" and "Validate cfg = None"
  shows "length (instances (torMgr w)) = nat (Countries (Instances cfg)) * nat (PerCountry (Instances cfg))"
    and "map inst_ID (instances (torMgr w)) = map int [0..<length (instances (torMgr w))]"
    and "set (map inst_Country (instances (torMgr w))) \<subseteq>
      set (Accepted (Country cfg)) - set (Blacklisted (Country cfg))"
proof -
  from startup_services [OF assms(1)] obtain countries tm v where
    sel: "SelectRandom (Accepted (Country cfg)) (Blacklisted (Country cfg)) (Countries (Instances cfg)) (in_shuffle inp)
       = Some (Inr countries)"
    and create: "DetectAndCreate cfg (in_detected inp) countries NewTorManager = (None, tm)"
    and run: "start_services inp cfg (supervise (in_tor inp) cfg (in_supervisors inp)
       \<lparr>torMgr = tm, procMgr = NewManager (TempFiles (Paths cfg)), outside = v\<rparr>) = Some (Inr p, w)"
    by blast
  have pos: "0 < PerCountry (Instances cfg)" using assms(2) by (simp add: Validate_None_iff)
  obtain ver where tm: "instances tm = created cfg ver countries"
    using create by (auto simp: DetectAndCreate_def created_def split: sum.splits)
  have len: "length countries = nat (Countries (Instances cfg))"
    and set: "set countries \<subseteq> set (Accepted (Country cfg)) - set (Blacklisted (Country cfg))"
    using selectRandom_Inr [OF sel [unfolded SelectRandom_def]] by simp_all
  have "map identity (instances (torMgr w)) = map identity (created cfg ver countries)"
    using start_services_Inr [OF run] supervise_identity [of "in_tor inp" cfg "in_supervisors inp"
      "\<lparr>torMgr = tm, procMgr = NewManager (TempFiles (Paths cfg)), outside = v\<rparr>"] tm by simp
  note same = identity_eq_maps [OF this]
  show "map inst_ID (instances (torMgr w)) = map int [0..<length (instances (torMgr w))]"
    unfolding same created_ids [OF pos] using created_closed [OF pos] by simp
  show "length (instances (torMgr w)) = nat (Countries (Instances cfg)) * nat (PerCountry (Instances cfg))"
    unfolding same created_closed [OF pos] by (simp add: len)
  have "set (map inst_Country (instances (torMgr w))) \<subseteq> set countries"
    unfolding same created_closed [OF pos] by (auto simp: less_mult_imp_div_less)
  with set show "set (map inst_Country (instances (torMgr w))) \<subseteq>
      set (Accepted (Country cfg)) - set (Blacklisted (Country cfg))" by blast
qed

text \<open>When the program has started on a valid configuration, its parts agree on one set of instances:
  as many as configured, numbered from 0, each in an accepted country that is not blacklisted; the
  renewer has for each, in order, the address of its control port and the cookie file that Tor was
  told to write into the data directory of just that instance; and HAProxy runs behind the
  processes started before it.\<close>

theorem startup_wiring:
  assumes "startup inp cfg o0 = Some (Inr p, w)" and "Validate cfg = None"
  shows "prog_world p = w \<and> started (prog_daemon p) \<and>
    length (instances (torMgr w)) = nat (Countries (Instances cfg)) * nat (PerCountry (Instances cfg)) \<and>
    map inst_ID (instances (torMgr w)) = map int [0..<length (instances (torMgr w))] \<and>
    set (map inst_Country (instances (torMgr w))) \<subseteq> set (Accepted (Country cfg)) - set (Blacklisted (Country cfg)) \<and>
    map controlAddr (r_instances (prog_renewer p)) =
      map (\<lambda>i. ''127.0.0.1:'' @ itoa (inst_ControlPort i)) (instances (torMgr w)) \<and>
    map ci_cookiePath (r_instances (prog_renewer p)) =
      map (\<lambda>i. data_dir cfg i @ ''/control_auth_cookie'') (instances (torMgr w)) \<and>
    hap_proc (prog_haproxy p) = Some (length (processes (procMgr w)) - 1)"
proof -
  from startup_services [OF assms(1)] obtain w0 where
    run: "start_services inp cfg w0 = Some (Inr p, w)" by blast
  note services = start_services_Inr [OF run]
  have renewer: "r_instances (prog_renewer p) = r_instances (make_renewer cfg (instances (torMgr w)))"
    using services by simp
  show ?thesis
    using services startup_instances [OF assms]
    unfolding renewer make_renewer_instances by (simp add: comp_def cookie_path_in_data_dir)
qed

subsection \<open>Nothing is left running\<close>

lemma stop_each_processes:
  "length (processes (procMgr (snd (stop_each sys order w)))) = length (processes (procMgr w))"
proof (induction order arbitrary: w)
  case (Cons k ks)
  obtain e w1 where s: "stop_at sys k w = (e, w1)" by fastforce
  then have "length (processes (procMgr w1)) = length (processes (procMgr w))"
    by (auto simp: stop_at_def Instance_Stop_def set_instance_def Let_def split: prod.splits option.splits)
  with Cons [of w1] s show ?case by (cases "stop_each sys ks w1") simp
qed simp

text \<open>C11. After the shutdown sequence every process the program ever started has exited and been reaped:
  Tor processes, also those a rotation left behind, HAProxy, and every HAProxy that a reload replaced.\<close>

theorem shutdown_stops_everything:
  "list_all done_closed (processes (procMgr (prog_world (shutdown inp order waits p)))) \<and>
   length (processes (procMgr (prog_world (shutdown inp order waits p)))) = length (processes (procMgr (prog_world p))) \<and>
   hap_proc (prog_haproxy (shutdown inp order waits p)) = None"
proof -
  let ?w = "prog_world p"
  obtain e1 hm pm1 o1 where h: "Hap_Stop (in_hap inp) (prog_haproxy p) (procMgr ?w) (outside ?w) = (e1, hm, pm1, o1)"
    by (metis prod_cases4)
  obtain e2 w2 where t: "Tor_StopAll (in_tor inp) order (?w\<lparr>procMgr := pm1, outside := o1\<rparr>) = (e2, w2)"
    by fastforce
  obtain e3 o3 where c: "Cleanup (in_RemoveAll inp) (StopAll waits (procMgr w2)) (outside w2) = (e3, o3)"
    by fastforce
  have hm: "hap_proc hm = None" and pm1: "length (processes pm1) = length (processes (procMgr ?w))"
    using h by (auto simp: Hap_Stop_def split: option.splits prod.splits)
  have "length (processes (procMgr w2)) = length (processes pm1)"
    using t stop_each_processes [of "in_tor inp" order "?w\<lparr>procMgr := pm1, outside := o1\<rparr>"]
    by (auto simp: Tor_StopAll_def split: prod.splits)
  moreover have "length (processes (StopAll waits (procMgr w2))) = length (processes (procMgr w2))"
    using foldl_Stop [of "List (procMgr w2)" "procMgr w2" waits] by (simp add: StopAll_def List_def)
  ultimately show ?thesis
    using h t c hm pm1 StopAll_done [of _ "procMgr w2" waits]
    by (simp add: shutdown_def list_all_length)
qed

subsection \<open>A start that fails late\<close>

definition late_error :: "run_error \<Rightarrow> bool" where
  "late_error err = (case err of
     RunTorStart e \<Rightarrow> True | RunHapConfig e \<Rightarrow> True | RunHapStart e \<Rightarrow> True | _ \<Rightarrow> False)"

lemma start_services_Inl:
  assumes "start_services inp cfg w = Some (Inl err, w')"
  shows "procMgr w' = procMgr w"
proof -
  have "pm = procMgr w" if "Hap_Start (in_hap inp) cfg hm (procMgr w) v = (Some e, hm', pm, v')" for hm v e hm' pm v'
  proof -
    obtain r pm1 v1 where s: "hap_spawn (in_hap inp) ''haproxy'' (HAProxy_BinaryPath (HAProxy cfg))
        [''-f'', configFile hm] (procMgr w) v = (r, pm1, v1)" by (metis prod_cases3)
    then show ?thesis
      using that by (cases rule: hap_spawn_cases) (auto simp: Hap_Start_def s)
  qed
  with assms show ?thesis
    by (auto simp: start_services_def Let_def split: sum.splits option.splits prod.splits)
qed

text \<open>C36. A start that is interrupted while Tor boots, or fails at HAProxy, ends the command with the
  error and stops nothing: every process is left exactly as the supervisors had it, running or not.\<close>

theorem failed_startup_stops_nothing:
  assumes "startup inp cfg o0 = Some (Inl err, w')" and "late_error err"
  shows "\<exists>countries tm v. DetectAndCreate cfg (in_detected inp) countries NewTorManager = (None, tm) \<and>
    procMgr w' = procMgr (supervise (in_tor inp) cfg (in_supervisors inp)
      \<lparr>torMgr = tm, procMgr = NewManager (TempFiles (Paths cfg)), outside = v\<rparr>)"
proof -
  obtain countries tm v where create: "DetectAndCreate cfg (in_detected inp) countries NewTorManager = (None, tm)"
    and rest: "(case in_interrupted inp of
        Some e \<Rightarrow> Some (Inl (RunTorStart e), supervise (in_tor inp) cfg (in_supervisors inp)
          \<lparr>torMgr = tm, procMgr = NewManager (TempFiles (Paths cfg)), outside = v\<rparr>)
      | None \<Rightarrow> start_services inp cfg (supervise (in_tor inp) cfg (in_supervisors inp)
          \<lparr>torMgr = tm, procMgr = NewManager (TempFiles (Paths cfg)), outside = v\<rparr>)) = Some (Inl err, w')"
    using assms
    by (auto simp: startup_def late_error_def Let_def split: option.splits prod.splits sum.splits run_error.splits)
  have "procMgr w' = procMgr (supervise (in_tor inp) cfg (in_supervisors inp)
      \<lparr>torMgr = tm, procMgr = NewManager (TempFiles (Paths cfg)), outside = v\<rparr>)"
    using rest start_services_Inl by (fastforce split: option.splits)
  with create show ?thesis by blast
qed

subsection \<open>Starts on the default configuration\<close>

definition demo_run_hap :: "int hap_sys" where
  "demo_run_hap =
     \<lparr>hap_MkdirAll = (\<lambda>p w. (None, w)), hap_shuffles = (\<lambda>a b w. (([], []), w)),
      hap_ParseFiles = (\<lambda>p w. None), hap_Create = (\<lambda>p w. (None, w)),
      hap_Execute = (\<lambda>p d w. (None, w)), hap_ctx_Err = (\<lambda>w. None),
      hap_cmd_Start = (\<lambda>b args w. (Inr (nat w), w + 1)), hap_cmd_Wait = (\<lambda>h w. (None, w))\<rparr>"

definition demo_inputs :: "int run_inputs" where
  "demo_inputs =
     \<lparr>in_tor = demo_tor_sys, in_hap = demo_run_hap, in_lookPath = (\<lambda>p. Inr p),
      in_runVersion = (\<lambda>p. Inr ''Tor version 0.4.8.17.''), in_RemoveAll = (\<lambda>d w. (None, w)),
      in_detected = Inr (Version 0 4 8 17), in_shuffle = [],
      in_supervisors = [SupStart 0, SupState 0 StateReady], in_interrupted = None, in_password = (\<lambda>i. Some i)\<rparr>"

lemma demo_check: "\<exists>r. CheckDependencies (in_lookPath demo_inputs) (in_runVersion demo_inputs) Defaults = Inr r"
proof -
  have "DetectVersionFromOutput ''Tor version 0.4.8.17.'' = Inr (Version 0 4 8 17)" by code_simp
  moreover have "ProxyMode Defaults \<noteq> ''legacy''" by (simp add: Defaults_def)
  ultimately show ?thesis by (simp add: CheckDependencies_def demo_inputs_def)
qed

lemma demo_select:
  "SelectRandom (Accepted (Country Defaults)) (Blacklisted (Country Defaults)) (Countries (Instances Defaults)) []
     = Some (Inr (take 6 (Accepted (Country Defaults))))"
proof -
  have "Blacklisted (Country Defaults) = []" "length (Accepted (Country Defaults)) = 32"
    "Countries (Instances Defaults) = 6"
    by (simp_all add: Defaults_def)
  then show ?thesis by (simp add: SelectRandom_def selectRandom_def filterBlacklisted_def)
qed

text \<open>The world once the first instance has been started.\<close>

definition demo_started :: "int \<Rightarrow> int tor_world" where
  "demo_started v = supervise demo_tor_sys Defaults (in_supervisors demo_inputs)
     \<lparr>torMgr = snd (DetectAndCreate Defaults (Inr (Version 0 4 8 17)) (take 6 (Accepted (Country Defaults))) NewTorManager),
      procMgr = NewManager (TempFiles (Paths Defaults)), outside = v\<rparr>"

lemma demo_created_length:
  "length (instances (snd (DetectAndCreate Defaults (Inr (Version 0 4 8 17)) (take 6 (Accepted (Country Defaults))) NewTorManager))) = 12"
proof -
  have "0 < PerCountry (Instances Defaults)" "nat (PerCountry (Instances Defaults)) = 2"
    "length (Accepted (Country Defaults)) = 32" by (simp_all add: Defaults_def)
  then show ?thesis
    using created_closed [of Defaults "Version 0 4 8 17" "take 6 (Accepted (Country Defaults))"]
    by (simp add: created_def)
qed

lemma demo_started_length: "length (instances (torMgr (demo_started v))) = 12"
  by (simp add: demo_started_def identity_eq_maps(3) [OF supervise_identity] demo_created_length)

lemma demo_startup_until:
  "startup (demo_inputs\<lparr>in_interrupted := i, in_hap := h\<rparr>) Defaults v =
    (case i of Some e \<Rightarrow> Some (Inl (RunTorStart e), demo_started v)
     | None \<Rightarrow> start_services (demo_inputs\<lparr>in_interrupted := i, in_hap := h\<rparr>) Defaults (demo_started v))"
proof -
  obtain r where r: "CheckDependencies Inr (\<lambda>p. Inr ''Tor version 0.4.8.17.'') Defaults = Inr r"
    using demo_check by (auto simp: demo_inputs_def)
  show ?thesis
    by (simp add: startup_def demo_inputs_def demo_tor_sys_def Cleanup_def StopAll_def NewManager_def List_def
        r demo_select DetectAndCreate_def demo_started_def Let_def cong: option.case_cong)
qed

lemma demo_launch_at:
  "k < length (instances (torMgr w)) \<Longrightarrow>
   \<exists>p. procMgr (snd (launch_at demo_tor_sys cfg k w)) = add p (procMgr w) \<and> pstate p = P_StateRunning"
  by (auto simp: launch_at_def start_at_def Instance_Start_def generateTorrc_def generateDataDir_def demo_tor_sys_def
      set_instance_def Spawn_def Let_def split: prod.split)

lemma supervise_start_ready:
  "0 < length (instances (torMgr w)) \<Longrightarrow>
   procMgr (supervise sys cfg [SupStart 0, SupState 0 st] w) = procMgr (snd (launch_at sys cfg 0 w))"
  by (simp add: set_instance_def launch_at_effect [OF prod.collapse [symmetric]])

lemma demo_started_runs:
  "length (processes (procMgr (demo_started v))) = 1 \<and> pstate (processes (procMgr (demo_started v)) ! 0) = P_StateRunning"
proof -
  let ?w = "\<lparr>torMgr = snd (DetectAndCreate Defaults (Inr (Version 0 4 8 17)) (take 6 (Accepted (Country Defaults))) NewTorManager),
      procMgr = NewManager (TempFiles (Paths Defaults)), outside = v\<rparr>"
  have "0 < length (instances (torMgr ?w))" using demo_created_length by simp
  from demo_launch_at [OF this, of Defaults] obtain p where
    "procMgr (snd (launch_at demo_tor_sys Defaults 0 ?w)) = add p (procMgr ?w)" "pstate p = P_StateRunning"
    by (elim exE conjE)
  moreover have "procMgr (demo_started v) = procMgr (snd (launch_at demo_tor_sys Defaults 0 ?w))"
  proof -
    have "in_supervisors demo_inputs = [SupStart 0, SupState 0 StateReady]" by (simp add: demo_inputs_def)
    then show ?thesis
      unfolding demo_started_def using \<open>0 < length (instances (torMgr ?w))\<close>
      by (simp only: supervise_start_ready)
  qed
  moreover have "processes (procMgr ?w) = []" by (simp add: NewManager_def)
  ultimately show ?thesis by (simp add: add_def)
qed

lemma demo_generates_run: "GenerateConfig demo_run_hap cfg insts m w = Some (None, w)"
  by (simp add: GenerateConfig_def demo_run_hap_def BuildConfigData_def split: prod.split)

lemma demo_hap_starts: "\<exists>m' pm' w'. Hap_Start demo_run_hap cfg m pm w = (None, m', pm', w')"
  by (simp add: Hap_Start_def hap_spawn_def demo_run_hap_def Spawn_def)

lemma demo_startup: "\<exists>p w. startup demo_inputs Defaults 7 = Some (Inr p, w)"
proof -
  have "demo_inputs\<lparr>in_interrupted := None, in_hap := demo_run_hap\<rparr> = demo_inputs"
    by (simp add: demo_inputs_def)
  then have "startup demo_inputs Defaults 7 = start_services demo_inputs Defaults (demo_started 7)"
    using demo_startup_until [where i = None and h = demo_run_hap and v = 7] by simp
  moreover have "r_instances (make_renewer Defaults (instances (torMgr (demo_started 7)))) \<noteq> []"
    using demo_started_length [of 7] by (auto simp: make_renewer_instances)
  moreover have "\<exists>d. Start (NewDaemon Defaults) = Some d"
    by (simp add: Start_def NewDaemon_def Let_def)
  moreover obtain m pm w where "Hap_Start demo_run_hap Defaults (NewHAProxyManager Defaults (in_password demo_inputs))
      (procMgr (demo_started 7)) (outside (demo_started 7)) = (None, m, pm, w)"
    using demo_hap_starts by blast
  moreover have "in_hap demo_inputs = demo_run_hap" by (simp add: demo_inputs_def)
  ultimately show ?thesis
    by (auto simp: start_services_def Renewer_Start_def demo_generates_run Let_def)
qed

lemma startup_wiring_witness:
  "\<exists>p w. startup demo_inputs Defaults 7 = Some (Inr p, w) \<and> length (instances (torMgr w)) = 12 \<and>
     map inst_ID (instances (torMgr w)) = [0, 1, 2, 3, 4, 5, 6, 7, 8, 9, 10, 11]"
proof -
  obtain p w where run: "startup demo_inputs Defaults 7 = Some (Inr p, w)" using demo_startup by blast
  have "nat (Countries (Instances Defaults)) * nat (PerCountry (Instances Defaults)) = 12"
    by (simp add: Defaults_def)
  with startup_wiring [OF run Validate_Defaults] have "length (instances (torMgr w)) = 12"
    and "map inst_ID (instances (torMgr w)) = map int [0..<12]" by metis+
  with run show ?thesis by (simp add: upt_conv_Cons)
qed

lemma failed_startup_stops_nothing_witness:
  "\<exists>w. startup (demo_inputs\<lparr>in_interrupted := Some Canceled\<rparr>) Defaults 7 = Some (Inl (RunTorStart Canceled), w) \<and>
     pstate (processes (procMgr w) ! 0) = P_StateRunning \<and>
     (\<exists>countries tm v. DetectAndCreate Defaults (Inr (Version 0 4 8 17)) countries NewTorManager = (None, tm))"
proof -
  have same: "demo_inputs\<lparr>in_interrupted := Some Canceled, in_hap := demo_run_hap\<rparr> = demo_inputs\<lparr>in_interrupted := Some Canceled\<rparr>"
    by (simp add: demo_inputs_def)
  have run: "startup (demo_inputs\<lparr>in_interrupted := Some Canceled\<rparr>) Defaults 7 =
      Some (Inl (RunTorStart Canceled), demo_started 7)"
    using demo_startup_until [where i = "Some Canceled" and h = demo_run_hap and v = 7] unfolding same by simp
  have "late_error (RunTorStart Canceled)" by (simp add: late_error_def)
  from failed_startup_stops_nothing [OF run this] run demo_started_runs [of 7] show ?thesis
    by (auto simp: demo_inputs_def)
qed

end
