(* ===== verification/Cmd_Status.thy ===== *)
theory Cmd_Status
  imports Health_Status
begin

section \<open>The status command (cmd/status.go)\<close>

text \<open>
  The command asks the status endpoint for a report and prints it. Strings are bytes: the symbols
  and lines of the display are written out in UTF-8. The HTTP client and the JSON decoder are
  parameters; Go walks the breakdown map in an order of its own, \<open>order\<close>.
\<close>

definition esc :: "string \<Rightarrow> string" where
  "esc s = CHR 0x1B # s"

definition ansiReset :: string where "ansiReset = esc ''[0m''"
definition ansiGreen :: string where "ansiGreen = esc ''[32m''"
definition ansiRed :: string where "ansiRed = esc ''[31m''"
definition ansiYellow :: string where "ansiYellow = esc ''[33m''"
definition ansiGray :: string where "ansiGray = esc ''[90m''"
definition ansiBold :: string where "ansiBold = esc ''[1m''"

definition nl :: string where
  "nl = [CHR 0x0A]"

text \<open>U+2550 and U+2500, repeated.\<close>

definition double_line :: string where
  "double_line = concat (replicate 43 [CHR 0xE2, CHR 0x95, CHR 0x90])"

definition single_line :: string where
  "single_line = concat (replicate 42 [CHR 0xE2, CHR 0x94, CHR 0x80])"

text \<open>The symbols U+25CF, U+25CB, U+25CE and U+25E6.\<close>

definition stateIcon :: "string \<Rightarrow> string \<times> string" where
  "stateIcon state =
     (if state = ''ready'' then ([CHR 0xE2, CHR 0x97, CHR 0x8F], ansiGreen)
      else if state = ''failed'' then ([CHR 0xE2, CHR 0x97, CHR 0x8B], ansiRed)
      else if state = ''bootstrapping'' then ([CHR 0xE2, CHR 0x97, CHR 0x8E], ansiYellow)
      else ([CHR 0xE2, CHR 0x97, CHR 0xA6], ansiGray))"

text \<open>A missing key reads as false; U+2713 or U+2717 follows the name.\<close>

definition formatFeatures :: "(string \<rightharpoonup> bool) \<Rightarrow> string" where
  "formatFeatures fs =
     join_with '' | ''
       (map (\<lambda>name. if fs name = Some True
                     then ansiGreen @ name @ '' '' @ [CHR 0xE2, CHR 0x9C, CHR 0x93] @ ansiReset
                     else ansiRed @ name @ '' '' @ [CHR 0xE2, CHR 0x9C, CHR 0x97] @ ansiReset)
          [''conflux'', ''http_tunnel'', ''congestion_control'', ''cgo''])"

text \<open>\<open>%-12s\<close>, for ASCII.\<close>

definition pad12 :: "string \<Rightarrow> string" where
  "pad12 s = s @ replicate (12 - length s) (CHR '' '')"

definition render_row :: "InstanceStatus \<Rightarrow> string" where
  "render_row inst =
     (case stateIcon (status_State inst) of (icon, color) \<Rightarrow>
        ''  #'' @ itoa (status_ID inst) @ ''  '' @ status_Country inst @ ''  '' @ color @ icon @ '' '' @
        pad12 (status_State inst) @ ansiReset @ ''  socks:'' @ itoa (status_SocksPort inst) @
        ''  ctrl:'' @ itoa (status_ControlPort inst) @ ''  http:'' @ itoa (status_HTTPPort inst) @ nl)"

definition renderStatus :: "string list \<Rightarrow> SystemStatus \<Rightarrow> string" where
  "renderStatus order s =
     ansiBold @ ''SPLITTER Status'' @ ansiReset @ '' ('' @ Timestamp s @ '')'' @ nl @
     double_line @ nl @
     ''Tor version:  '' @ status_TorVersion s @ nl @
     ''Features:     '' @ formatFeatures (status_Features s) @ nl @
     nl @ ''Instances ('' @ itoa (TotalInstances s) @ '' total, '' @ ansiGreen @ itoa (ReadyCount s) @ '' ready'' @
       ansiReset @ '', '' @ ansiRed @ itoa (FailedCount s) @ '' failed'' @ ansiReset @ ''):'' @ nl @
     single_line @ nl @
     concat (map render_row (status_Instances s)) @
     (if 0 < length order
      then nl @ ''Processes: '' @ itoa (Process_count s) @ '' ('' @
             join_with '' '' (map (\<lambda>n. n @ '':'' @ itoa (the (ProcessBreakdown s n))) order) @ '')'' @ nl
      else nl @ ''Processes: '' @ itoa (Process_count s) @ nl)"

datatype status_error = CannotConnect string string | StatusCode int string | StatusDecode string

text \<open>\<open>get\<close> gives the status code, the body and what the decoder makes of it; the result is the
  error or what is printed.\<close>

definition runStatus ::
  "(string \<Rightarrow> string + int \<times> string \<times> (string + SystemStatus)) \<Rightarrow> string list \<Rightarrow> string \<Rightarrow> status_error + string" where
  "runStatus get order url =
     (case get url of
        Inl err \<Rightarrow> Inl (CannotConnect url err)
      | Inr (code, body, decoded) \<Rightarrow>
          (if code \<noteq> 200 then Inl (StatusCode code body)
           else (case decoded of Inl err \<Rightarrow> Inl (StatusDecode err) | Inr status \<Rightarrow> Inr (renderStatus order status))))"

subsection \<open>The shape of the display\<close>

text \<open>The number of lines of a text.\<close>

definition lines :: "string \<Rightarrow> nat" where
  "lines s = count_list s (CHR 0x0A)"

lemma lines_append [simp]: "lines (s @ t) = lines s + lines t"
  by (simp add: lines_def)

lemma lines_Nil [simp]: "lines [] = 0"
  by (simp add: lines_def)

lemma lines_Cons [simp]: "lines (c # s) = (if c = CHR 0x0A then Suc (lines s) else lines s)"
  by (simp add: lines_def)

lemma lines_itoa [simp]: "lines (itoa i) = 0"
  using itoa_chars [of "CHR 0x0A" i] by (auto simp: lines_def count_list_0_iff)

lemma lines_concat: "lines (concat ss) = sum_list (map lines ss)"
  by (induction ss) simp_all

definition one_line :: "InstanceStatus \<Rightarrow> bool" where
  "one_line inst \<longleftrightarrow> lines (status_Country inst) = 0 \<and> lines (status_State inst) = 0"

lemmas ansi_defs = ansiReset_def ansiGreen_def ansiRed_def ansiYellow_def ansiGray_def ansiBold_def esc_def

lemma lines_blanks [simp]: "lines (replicate n (CHR '' '')) = 0"
  by (induction n) simp_all

lemma lines_stateIcon: "stateIcon st = (icon, color) \<Longrightarrow> lines icon = 0 \<and> lines color = 0"
  by (auto simp: stateIcon_def ansi_defs split: if_splits)

lemma lines_render_row: "one_line inst \<Longrightarrow> lines (render_row inst) = 1"
  using lines_stateIcon
  by (auto simp: render_row_def one_line_def ansi_defs pad12_def nl_def split: prod.split)

lemma lines_formatFeatures: "lines (formatFeatures fs) = 0"
  by (simp add: formatFeatures_def ansi_defs)

lemma lines_join: "lines sep = 0 \<Longrightarrow> lines (join_with sep ss) = sum_list (map lines ss)"
  by (induction sep ss rule: join_with.induct) simp_all

lemma lines_rules: "lines double_line = 0" "lines single_line = 0" "lines nl = 1"
  by (simp_all add: double_line_def single_line_def nl_def lines_concat sum_list_replicate)

text \<open>The display has nine lines of its own and exactly one for each instance, so rows and instances
  correspond, as long as the texts of the report hold no line feed themselves.\<close>

theorem display_lines:
  assumes "list_all one_line (status_Instances s)" and "lines (Timestamp s) = 0"
    and "lines (status_TorVersion s) = 0" and "sum_list (map lines order) = 0"
  shows "lines (renderStatus order s) = 9 + length (status_Instances s)"
proof -
  have "map lines (map render_row (status_Instances s)) = replicate (length (status_Instances s)) 1"
    using assms(1) lines_render_row by (intro replicate_eqI) (auto simp: list_all_iff)
  then have rows: "lines (concat (map render_row (status_Instances s))) = length (status_Instances s)"
    by (simp only: lines_concat) (simp add: sum_list_replicate)
  have "sum_list (map (\<lambda>n. lines (n @ '':'' @ itoa (the (ProcessBreakdown s n)))) order) = sum_list (map lines order)"
    by simp
  then have procs: "lines (join_with '' '' (map (\<lambda>n. n @ '':'' @ itoa (the (ProcessBreakdown s n))) order)) = 0"
    using assms(4) by (simp add: lines_join comp_def)
  show ?thesis
    using assms(2,3) rows procs lines_formatFeatures [of "status_Features s"]
    by (simp add: renderStatus_def lines_rules ansi_defs)
qed

end
