(* ===== verification/Cli.thy ===== *)
theory Cli
  imports Config_Load
begin

section \<open>Command line and logging (internal/cli)\<close>

text \<open>
  Arguments are rewritten before cobra sees them; the configuration is loaded with the flags cobra
  has parsed; the logger is set up from the loaded configuration. A logger is the value of what it
  writes with, the output and its level.
\<close>

subsection \<open>Arguments and flags\<close>

text \<open>The legacy spelling of one flag.\<close>

fun PreprocessArgs :: "string list \<Rightarrow> string list" where
  "PreprocessArgs [] = []"
| "PreprocessArgs (a # as) =
     (if a = ''-re'' then ''--relay-enforce'' # PreprocessArgs as else a # PreprocessArgs as)"

datatype flag_default = IntFlag int | StringFlag string | BoolFlag bool

text \<open>\<open>BindFlags\<close>: name, shorthand and default of every persistent flag.\<close>

definition BindFlags :: "(string \<times> string \<times> flag_default) list" where
  "BindFlags =
     [(''instances'', ''i'', IntFlag 2), (''countries'', ''c'', IntFlag 6),
      (''relay-enforce'', ''r'', StringFlag ''entry''), (''profile'', [], StringFlag []),
      (''proxy-mode'', [], StringFlag ''native''), (''bridge-type'', [], StringFlag ''none''),
      (''verbose'', [], BoolFlag False), (''log'', [], BoolFlag False),
      (''log-level'', [], StringFlag ''info''), (''auto-countries'', [], BoolFlag False),
      (''stream-isolation'', [], BoolFlag False), (''ipv6'', [], BoolFlag False),
      (''exit-reputation'', [], BoolFlag False)]"

text \<open>The flag set of pflag, and the reader over it that \<open>config.Load\<close> takes.\<close>

record FlagSet =
  fs_Changed :: "string \<Rightarrow> bool"
  fs_GetInt :: "string \<Rightarrow> string + int"
  fs_GetString :: "string \<Rightarrow> string + string"
  fs_GetBool :: "string \<Rightarrow> string + bool"

definition NewCobraFlagReader :: "FlagSet \<Rightarrow> flag_reader" where
  "NewCobraFlagReader fs =
     \<lparr>Changed = fs_Changed fs, GetInt = fs_GetInt fs, GetString = fs_GetString fs, GetBool = fs_GetBool fs\<rparr>"

definition cli_options :: "flag_reader \<Rightarrow> LoadOptions" where
  "cli_options flags =
     \<lparr>ConfigPath = ''configs/default.yaml'', ProfilesPath = [], UserAgentsPath = [], EnvPrefix = [],
      Flags = Some flags\<rparr>"

definition cli_Load :: "load_env \<Rightarrow> flag_reader \<Rightarrow> load_error + Config" where
  "cli_Load env flags = Load env (cli_options flags)"

subsection \<open>The logger\<close>

datatype slog_Level = LevelDebug | LevelInfo | LevelWarn | LevelError

definition parseLogLevel :: "string \<Rightarrow> string option \<times> slog_Level" where
  "parseLogLevel s =
     (let u = toUpper s in
      if u = ''DEBUG'' then (None, LevelDebug) else if u = ''INFO'' then (None, LevelInfo)
      else if u = ''WARN'' then (None, LevelWarn) else if u = ''ERROR'' then (None, LevelError)
      else (Some (''parseLogLevel: unknown level '' @ s), LevelInfo))"

definition isContainer :: "(string \<Rightarrow> string) \<Rightarrow> bool" where
  "isContainer Getenv =
     (if Getenv ''TERM'' = ''dumb'' then True else if Getenv ''NO_COLOR'' \<noteq> [] then True else False)"

datatype logger = Discard slog_Level | JSONHandler slog_Level | TextHandler slog_Level

definition SetupLogger :: "(string \<Rightarrow> string) \<Rightarrow> Config \<Rightarrow> string + logger" where
  "SetupLogger Getenv cfg =
     (if \<not> Logging_Enabled (Logging cfg) then Inr (Discard LevelInfo)
      else (case parseLogLevel (Logging_Level (Logging cfg)) of
              (Some err, level) \<Rightarrow> Inl err
            | (None, level) \<Rightarrow> Inr (if isContainer Getenv then JSONHandler level else TextHandler level)))"

subsection \<open>What they guarantee\<close>

lemma PreprocessArgs_length: "length (PreprocessArgs as) = length as"
  by (induction as) auto

lemma PreprocessArgs_no_legacy: "''-re'' \<notin> set (PreprocessArgs as)"
  by (induction as) auto

lemma PreprocessArgs_idem: "PreprocessArgs (PreprocessArgs as) = PreprocessArgs as"
  by (induction as) auto

lemma upper_lower_char: "upper_char (lower_char c) = upper_char c"
proof -
  have low: "(of_char (char_of n :: char) :: nat) = n" if "n < 256" for n
    using that by (simp add: of_char_of take_bit_eq_mod)
  show ?thesis
  proof (cases "65 \<le> (of_char c :: nat) \<and> (of_char c :: nat) \<le> 90")
    case True
    then have l: "(of_char (lower_char c) :: nat) = of_char c + 32"
      unfolding lower_char_def using True low [of "of_char c + 32"] by simp
    with True show ?thesis by (simp add: upper_char_def)
  qed (auto simp: lower_char_def)
qed

lemma toUpper_toLower: "toUpper (toLower s) = toUpper s"
  by (simp add: toUpper_def toLower_def upper_lower_char comp_def)

lemma parseLogLevel_valid:
  assumes "toLower s \<in> set log_levels"
  shows "fst (parseLogLevel s) = None"
proof -
  have up: "toUpper ''debug'' = ''DEBUG''" "toUpper ''info'' = ''INFO''" "toUpper ''warn'' = ''WARN''"
    "toUpper ''error'' = ''ERROR''" by code_simp+
  have "toUpper s = toUpper (toLower s)" by (simp only: toUpper_toLower)
  moreover from assms have "toLower s = ''debug'' \<or> toLower s = ''info'' \<or> toLower s = ''warn'' \<or> toLower s = ''error''"
    unfolding log_levels_def by (simp only: set_simps insert_iff empty_iff simp_thms)
  ultimately have "toUpper s = ''DEBUG'' \<or> toUpper s = ''INFO'' \<or> toUpper s = ''WARN'' \<or> toUpper s = ''ERROR''"
    using up by (elim disjE) (simp_all only: simp_thms)
  then show ?thesis
    by (elim disjE) (simp_all add: parseLogLevel_def)
qed

text \<open>For every configuration that passes validation the logger can be set up, in whatever letter
  case the level is written; nothing is logged when logging is off.\<close>

theorem valid_config_logs:
  assumes "Validate cfg = None"
  shows "\<exists>logger. SetupLogger env cfg = Inr logger \<and>
    (Logging_Enabled (Logging cfg) \<or> logger = Discard LevelInfo)"
proof -
  have "toLower (Logging_Level (Logging cfg)) \<in> set log_levels"
    using assms by (simp add: Validate_None_iff)
  then have "fst (parseLogLevel (Logging_Level (Logging cfg))) = None" by (rule parseLogLevel_valid)
  then show ?thesis
    by (cases "parseLogLevel (Logging_Level (Logging cfg))") (simp add: SetupLogger_def)
qed

lemma valid_config_logs_witness:
  "\<exists>logger. SetupLogger (\<lambda>v. []) (Defaults\<lparr>Logging := (Logging Defaults)\<lparr>Logging_Enabled := True\<rparr>\<rparr>) = Inr logger"
proof -
  let ?cfg = "Defaults\<lparr>Logging := (Logging Defaults)\<lparr>Logging_Enabled := True\<rparr>\<rparr>"
  have "Validate ?cfg = None"
  proof (rule Validate_config_ok)
    show "socks_range_fits ?cfg" using Defaults_fits by (simp add: socks_range_fits_def)
    show "config_ok ?cfg" using Defaults_ok by (simp add: config_ok_def port_fields_def)
  qed
  from valid_config_logs [OF this] show ?thesis by blast
qed

end
