(* ===== verification/Proxy.thy ===== *)
theory Proxy
  imports Config_Types Process_Manager
begin

section \<open>HTTP proxies (internal/proxy)\<close>

text \<open>
  Two ways to give every Tor instance an HTTP port: Tor's own tunnel (native) or one Privoxy
  process per instance (legacy). Both implement the interface \<open>Proxy\<close>, which is a locale here with
  the laws a caller relies on, interpreted on both. Files and processes are parameters over a world
  \<open>'o\<close>.
\<close>

datatype Mode = ModeNative | ModeLegacy

record px_instance =
  px_ID :: int
  px_SocksPort :: int
  px_HTTPPort :: int

datatype proxy_error =
    UnknownMode string
  | NoTunnelPort int int
  | PxTemplate string
  | PxRender int string
  | PxWrite int os_error
  | PxSpawn nat spawn_error

definition ParseMode :: "string \<Rightarrow> proxy_error + Mode" where
  "ParseMode s =
     (if s = ''native'' then Inr ModeNative else if s = ''legacy'' then Inr ModeLegacy
      else Inl (UnknownMode s))"

subsection \<open>The native proxy\<close>

fun native_ports :: "px_instance list \<Rightarrow> int list \<Rightarrow> proxy_error + int list" where
  "native_ports [] ports = Inr ports"
| "native_ports (inst # insts) ports =
     (if px_HTTPPort inst \<le> 0 then Inl (NoTunnelPort (px_ID inst) (px_HTTPPort inst))
      else native_ports insts (ports @ [px_HTTPPort inst]))"

definition Native_Setup :: "px_instance list \<Rightarrow> 's \<Rightarrow> (proxy_error + int list) \<times> 's" where
  "Native_Setup insts s = (native_ports insts [], s)"

definition Native_Start :: "'s \<Rightarrow> proxy_error option \<times> 's" where
  "Native_Start s = (None, s)"

definition Native_Stop :: "'s \<Rightarrow> proxy_error option \<times> 's" where
  "Native_Stop s = (None, s)"

subsection \<open>The legacy proxy\<close>

record privoxyConfigData =
  pd_InstanceID :: int
  pd_ListenAddr :: string
  pd_Port :: int
  pd_SocksPort :: int

record 'o proxy_sys =
  px_Parse :: "string option"
  px_Execute :: "privoxyConfigData \<Rightarrow> string + string"
  px_WriteFile :: "string \<Rightarrow> string \<Rightarrow> 'o \<Rightarrow> os_error option \<times> 'o"
  px_ctx_Err :: "'o \<Rightarrow> ctx_error option"
  px_cmd_Start :: "string \<Rightarrow> string list \<Rightarrow> 'o \<Rightarrow> (string + nat) \<times> 'o"
  px_cmd_Wait :: "nat \<Rightarrow> 'o \<Rightarrow> string option \<times> 'o"

record 'o LegacyProxy =
  px_ports :: "int list"
  px_procs :: "nat option list"
  px_manager :: Manager
  px_world :: 'o

definition privoxy_config_path :: "Config \<Rightarrow> int \<Rightarrow> string" where
  "privoxy_config_path cfg i = ConfigFilePrefix (Privoxy cfg) @ itoa i @ ''.cfg''"

text \<open>The loop of \<open>Setup\<close> from index \<open>i\<close> on: a port is recorded before its file is written.\<close>

fun legacy_setup_loop ::
  "'o proxy_sys \<Rightarrow> Config \<Rightarrow> nat \<Rightarrow> px_instance list \<Rightarrow> 'o LegacyProxy \<Rightarrow> proxy_error option \<times> 'o LegacyProxy" where
  "legacy_setup_loop sys cfg i [] p = (None, p)"
| "legacy_setup_loop sys cfg i (inst # insts) p =
     (let port = add64 (Privoxy_StartPort (Privoxy cfg)) (px_ID inst);
          p1 = p\<lparr>px_ports := (px_ports p)[i := port]\<rparr>
      in case px_Execute sys \<lparr>pd_InstanceID = px_ID inst, pd_ListenAddr = Privoxy_Listen (Privoxy cfg),
                pd_Port = port, pd_SocksPort = px_SocksPort inst\<rparr> of
           Inl err \<Rightarrow> (Some (PxRender (px_ID inst) err), p1)
         | Inr content \<Rightarrow>
             (case px_WriteFile sys (privoxy_config_path cfg (px_ID inst)) content (px_world p1) of
                (Some err, w) \<Rightarrow> (Some (PxWrite (px_ID inst) err), p1\<lparr>px_world := w\<rparr>)
              | (None, w) \<Rightarrow> legacy_setup_loop sys cfg (Suc i) insts (p1\<lparr>px_world := w\<rparr>)))"

definition Legacy_Setup ::
  "'o proxy_sys \<Rightarrow> Config \<Rightarrow> px_instance list \<Rightarrow> 'o LegacyProxy \<Rightarrow> (proxy_error + int list) \<times> 'o LegacyProxy" where
  "Legacy_Setup sys cfg insts p =
     (case px_Parse sys of
        Some err \<Rightarrow> (Inl (PxTemplate err), p)
      | None \<Rightarrow>
          (case legacy_setup_loop sys cfg 0 insts (p\<lparr>px_ports := replicate (length insts) 0\<rparr>) of
             (Some err, p') \<Rightarrow> (Inl err, p')
           | (None, p') \<Rightarrow> (Inr (px_ports p'), p')))"

text \<open>A call of the manager's \<open>Spawn\<close> and of its \<open>Stop\<close>.\<close>

definition px_spawn ::
  "'o proxy_sys \<Rightarrow> string \<Rightarrow> string \<Rightarrow> string list \<Rightarrow> 'o LegacyProxy \<Rightarrow> (spawn_error + nat) \<times> 'o LegacyProxy" where
  "px_spawn sys name binary args p =
     (case px_ctx_Err sys (px_world p) of
        Some e \<Rightarrow> (fst (Spawn (Some e) name binary args (Inl []) (px_manager p)), p)
      | None \<Rightarrow>
          (case px_cmd_Start sys binary args (px_world p) of (start, w) \<Rightarrow>
             (case Spawn None name binary args start (px_manager p) of
                (r, pm) \<Rightarrow> (r, p\<lparr>px_manager := pm, px_world := w\<rparr>))))"

fun stop_procs :: "'o proxy_sys \<Rightarrow> nat option list \<Rightarrow> 'o LegacyProxy \<Rightarrow> 'o LegacyProxy" where
  "stop_procs sys [] p = p"
| "stop_procs sys (None # procs) p = stop_procs sys procs p"
| "stop_procs sys (Some h # procs) p =
     (case px_cmd_Wait sys h (px_world p) of (waitErr, w) \<Rightarrow>
        stop_procs sys procs (p\<lparr>px_manager := Stop (Some h) waitErr (px_manager p), px_world := w\<rparr>))"

text \<open>The loop of \<open>Start\<close> over the \<open>n\<close> ports left from index \<open>i\<close> on. When a process cannot be
  started, those before it are stopped, and stay in the list.\<close>

fun legacy_start_loop ::
  "'o proxy_sys \<Rightarrow> Config \<Rightarrow> nat \<Rightarrow> nat \<Rightarrow> 'o LegacyProxy \<Rightarrow> proxy_error option \<times> 'o LegacyProxy" where
  "legacy_start_loop sys cfg i 0 p = (None, p)"
| "legacy_start_loop sys cfg i (Suc n) p =
     (case px_spawn sys (''privoxy-'' @ itoa (int i)) (Privoxy_BinaryPath (Privoxy cfg))
             [privoxy_config_path cfg (int i)] p of
        (Inl err, p1) \<Rightarrow> (Some (PxSpawn i err), stop_procs sys (take i (px_procs p1)) p1)
      | (Inr h, p1) \<Rightarrow> legacy_start_loop sys cfg (Suc i) n (p1\<lparr>px_procs := (px_procs p1)[i := Some h]\<rparr>))"

definition Legacy_Start :: "'o proxy_sys \<Rightarrow> Config \<Rightarrow> 'o LegacyProxy \<Rightarrow> proxy_error option \<times> 'o LegacyProxy" where
  "Legacy_Start sys cfg p =
     (if length (px_ports p) = 0 then (None, p)
      else legacy_start_loop sys cfg 0 (length (px_ports p)) (p\<lparr>px_procs := replicate (length (px_ports p)) None\<rparr>))"

text \<open>The manager's \<open>Stop\<close> returns nil, so \<open>Stop\<close> does too.\<close>

definition Legacy_Stop :: "'o proxy_sys \<Rightarrow> 'o LegacyProxy \<Rightarrow> proxy_error option \<times> 'o LegacyProxy" where
  "Legacy_Stop sys p = (None, (stop_procs sys (px_procs p) p)\<lparr>px_procs := []\<rparr>)"

text \<open>\<open>NewProxy\<close> makes the proxy of a mode, \<open>Mode\<close> gives it back.\<close>

datatype 'o AnyProxy = NativeProxy | LegacyProxyOf "'o LegacyProxy"

definition NewProxy :: "Mode \<Rightarrow> Manager \<Rightarrow> 'o \<Rightarrow> 'o AnyProxy" where
  "NewProxy mode pm w =
     (case mode of
        ModeLegacy \<Rightarrow> LegacyProxyOf \<lparr>px_ports = [], px_procs = [], px_manager = pm, px_world = w\<rparr>
      | ModeNative \<Rightarrow> NativeProxy)"

fun proxy_Mode :: "'o AnyProxy \<Rightarrow> Mode" where
  "proxy_Mode NativeProxy = ModeNative"
| "proxy_Mode (LegacyProxyOf p) = ModeLegacy"

lemma NewProxy_Mode: "proxy_Mode (NewProxy mode pm w) = mode"
  by (simp add: NewProxy_def split: Mode.split)

subsection \<open>The interface\<close>

text \<open>Every process from number \<open>n\<close> on has exited.\<close>

definition exited_from :: "nat \<Rightarrow> Process list \<Rightarrow> bool" where
  "exited_from n ps \<longleftrightarrow> list_all done_closed (drop n ps)"

locale http_proxy =
  fixes do_setup :: "px_instance list \<Rightarrow> 's \<Rightarrow> (proxy_error + int list) \<times> 's"
    and start :: "'s \<Rightarrow> proxy_error option \<times> 's"
    and stop :: "'s \<Rightarrow> proxy_error option \<times> 's"
    and procs :: "'s \<Rightarrow> Process list"
    and ready :: "'s \<Rightarrow> bool"
  assumes setup_ports: "do_setup insts s = (Inr ports, s') \<Longrightarrow> length ports = length insts"
    and setup_ready: "ready s \<Longrightarrow> ready (snd (do_setup insts s))"
    and setup_procs: "procs (snd (do_setup insts s)) = procs s"
    and start_failed: "\<lbrakk>ready s; start s = (Some err, s')\<rbrakk> \<Longrightarrow> exited_from (length (procs s)) (procs s')"
    and start_stop: "\<lbrakk>ready s; start s = (None, s1); stop s1 = (e, s2)\<rbrakk> \<Longrightarrow>
      e = None \<and> ready s2 \<and> exited_from (length (procs s)) (procs s2)"
begin

text \<open>A whole life of a proxy, cut short by the first error.\<close>

definition life :: "px_instance list \<Rightarrow> 's \<Rightarrow> 's" where
  "life insts s =
     (case do_setup insts s of
        (Inl err, s1) \<Rightarrow> s1
      | (Inr ports, s1) \<Rightarrow>
          (case start s1 of
             (Some err, s2) \<Rightarrow> s2
           | (None, s2) \<Rightarrow> snd (stop s2)))"

lemma life_leaves_nothing:
  assumes "ready s"
  shows "exited_from (length (procs s)) (procs (life insts s))"
proof -
  obtain r s1 where u: "do_setup insts s = (r, s1)" by fastforce
  have s1: "ready s1" "procs s1 = procs s"
    using setup_ready [OF assms, of insts] setup_procs [of insts s] u by simp_all
  obtain e s2 where a: "start s1 = (e, s2)" by fastforce
  obtain e' s3 where o: "stop s2 = (e', s3)" by fastforce
  show ?thesis
  proof (cases r)
    case (Inl err)
    then show ?thesis using u s1 by (simp add: life_def exited_from_def)
  next
    case (Inr ports)
    then show ?thesis
      using u a o s1 start_failed [of s1] start_stop [of s1 s2 e' s3]
      by (cases e) (simp_all add: life_def)
  qed
qed

end

interpretation native: http_proxy Native_Setup Native_Start Native_Stop "\<lambda>s. []" "\<lambda>s. True"
proof
  have "native_ports insts ports = Inr r \<Longrightarrow> length r = length ports + length insts" for insts ports r
    by (induction insts ports rule: native_ports.induct) (auto split: if_splits)
  then show "Native_Setup insts s = (Inr ports, s') \<Longrightarrow> length ports = length insts"
    for insts :: "px_instance list" and s s' :: 's and ports
    by (fastforce simp: Native_Setup_def)
qed (simp_all add: Native_Start_def Native_Stop_def exited_from_def)

subsection \<open>The legacy proxy keeps the contract\<close>

lemma legacy_setup_loop_frame:
  "legacy_setup_loop sys cfg i insts p = (e, p') \<Longrightarrow>
   length (px_ports p') = length (px_ports p) \<and> px_manager p' = px_manager p \<and> px_procs p' = px_procs p"
  by (induction sys cfg i insts p rule: legacy_setup_loop.induct)
     (fastforce simp: Let_def split: sum.splits prod.splits option.splits)+

lemma Legacy_Setup_effect:
  assumes "Legacy_Setup sys cfg insts p = (r, p')"
  shows "px_procs p' = px_procs p \<and> px_manager p' = px_manager p \<and>
    (case r of Inl err \<Rightarrow> True | Inr ports \<Rightarrow> ports = px_ports p' \<and> length ports = length insts)"
proof (cases "px_Parse sys")
  case None
  obtain e q where l: "legacy_setup_loop sys cfg 0 insts (p\<lparr>px_ports := replicate (length insts) 0\<rparr>) = (e, q)"
    by fastforce
  from legacy_setup_loop_frame [OF l] assms None l show ?thesis
    by (cases e) (auto simp: Legacy_Setup_def)
qed (use assms in \<open>auto simp: Legacy_Setup_def\<close>)

lemma stop_procs_effect:
  assumes "set hs \<subseteq> {None} \<union> Some ` {..<length (processes (px_manager p))}"
  shows "length (processes (px_manager (stop_procs sys hs p))) = length (processes (px_manager p)) \<and>
    (\<forall>h. Some h \<in> set hs \<or> h < length (processes (px_manager p)) \<and> done_closed (processes (px_manager p) ! h) \<longrightarrow>
      done_closed (processes (px_manager (stop_procs sys hs p)) ! h))"
  using assms
proof (induction sys hs p rule: stop_procs.induct)
  case (3 sys h hs p)
  obtain e w where x: "px_cmd_Wait sys h (px_world p) = (e, w)" by fastforce
  let ?p = "p\<lparr>px_manager := Stop (Some h) e (px_manager p), px_world := w\<rparr>"
  have h: "h < length (processes (px_manager p))" using 3 by auto
  have closed: "done_closed (processes (px_manager ?p) ! k)"
    if "k = h \<or> k < length (processes (px_manager p)) \<and> done_closed (processes (px_manager p) ! k)" for k
    using that Stop_done [OF h, of e] by (cases "k = h") auto
  have sub: "set hs \<subseteq> {None} \<union> Some ` {..<length (processes (px_manager ?p))}" using 3 by auto
  note IH = "3.IH" [OF x [symmetric] sub]
  show ?case
    using IH x closed h by auto
qed auto

lemma px_spawn_effect:
  assumes "px_spawn sys name binary args p = (r, p')"
  shows "px_procs p' = px_procs p \<and> px_ports p' = px_ports p \<and>
    (case r of Inl err \<Rightarrow> px_manager p' = px_manager p
     | Inr h \<Rightarrow> h = length (processes (px_manager p)) \<and> (\<exists>q. px_manager p' = add q (px_manager p)))"
  using assms by (auto simp: px_spawn_def Spawn_def split: option.splits sum.splits prod.splits)

text \<open>Before turn \<open>i\<close>: the first \<open>i\<close> entries are the processes started, in order.\<close>

definition started_upto :: "nat \<Rightarrow> nat \<Rightarrow> nat \<Rightarrow> 'o LegacyProxy \<Rightarrow> bool" where
  "started_upto n i k p \<longleftrightarrow> length (processes (px_manager p)) = n + i \<and>
     px_procs p = map Some [n..<n + i] @ replicate k None"

lemma started_next:
  assumes "started_upto n i (Suc k) p" and "px_spawn sys name binary args p = (Inr h, p1)"
  shows "started_upto n (Suc i) k (p1\<lparr>px_procs := (px_procs p1)[i := Some h]\<rparr>)"
  using assms px_spawn_effect [OF assms(2)]
  by (auto simp: started_upto_def list_update_append)

lemma exited_all:
  assumes "length ps = n + i" and "\<And>h. n \<le> h \<Longrightarrow> h < n + i \<Longrightarrow> done_closed (ps ! h)"
  shows "exited_from n ps"
  using assms by (auto simp: exited_from_def list_all_length)

lemma started_range:
  "hs = map Some [n..<m] \<Longrightarrow> m = l \<Longrightarrow> set hs \<subseteq> {None} \<union> Some ` {..<l}"
  by auto

lemma legacy_start_loop_effect:
  assumes "started_upto n i k p" and "legacy_start_loop sys cfg i k p = (e, p')"
  shows "case e of None \<Rightarrow> started_upto n (i + k) 0 p'
         | Some err \<Rightarrow> exited_from n (processes (px_manager p'))"
  using assms
proof (induction k arbitrary: i p)
  case (Suc k)
  obtain r p1 where s: "px_spawn sys (''privoxy-'' @ itoa (int i)) (Privoxy_BinaryPath (Privoxy cfg))
      [privoxy_config_path cfg (int i)] p = (r, p1)" by fastforce
  show ?case
  proof (cases r)
    case (Inl err)
    then have p': "p' = stop_procs sys (take i (px_procs p1)) p1" and e: "e = Some (PxSpawn i err)"
      using Suc.prems(2) s by simp_all
    have len: "length (processes (px_manager p1)) = n + i" and hs: "take i (px_procs p1) = map Some [n..<n + i]"
      using px_spawn_effect [OF s] Inl Suc.prems(1) by (simp_all add: started_upto_def)
    have "exited_from n (processes (px_manager p'))"
      using stop_procs_effect [of "take i (px_procs p1)" p1 sys, OF started_range [OF hs len [symmetric]]] len
      by (intro exited_all [of _ _ i]) (auto simp: p' hs)
    with e show ?thesis by simp
  next
    case (Inr h)
    have "started_upto n (Suc i) k (p1\<lparr>px_procs := (px_procs p1)[i := Some h]\<rparr>)"
      using started_next [OF Suc.prems(1)] s Inr by blast
    moreover have "legacy_start_loop sys cfg (Suc i) k (p1\<lparr>px_procs := (px_procs p1)[i := Some h]\<rparr>) = (e, p')"
      using Suc.prems(2) s Inr by simp
    ultimately show ?thesis using Suc.IH by (metis add_Suc_shift)
  qed
qed simp

lemma Legacy_Start_effect:
  assumes "Legacy_Start sys cfg p = (e, p')" and "px_procs p = []"
  shows "case e of None \<Rightarrow> started_upto (length (processes (px_manager p))) (length (px_ports p)) 0 p'
         | Some err \<Rightarrow> exited_from (length (processes (px_manager p))) (processes (px_manager p'))"
proof (cases "px_ports p = []")
  case True
  with assms show ?thesis by (simp add: Legacy_Start_def started_upto_def)
next
  case False
  have "started_upto (length (processes (px_manager p))) 0 (length (px_ports p))
      (p\<lparr>px_procs := replicate (length (px_ports p)) None\<rparr>)" by (simp add: started_upto_def)
  from legacy_start_loop_effect [OF this, of sys cfg e p', unfolded add_0] False assms(1) show ?thesis
    by (simp add: Legacy_Start_def)
qed

lemma Legacy_Stop_effect:
  assumes "started_upto n k 0 p" and "Legacy_Stop sys p = (e, p')"
  shows "e = None \<and> px_procs p' = [] \<and> exited_from n (processes (px_manager p'))"
proof -
  let ?q = "stop_procs sys (px_procs p) p"
  have len: "length (processes (px_manager p)) = n + k" and hs: "px_procs p = map Some [n..<n + k]"
    using assms(1) by (simp_all add: started_upto_def)
  have "exited_from n (processes (px_manager ?q))"
    using stop_procs_effect [of "px_procs p" p sys, OF started_range [OF hs len [symmetric]]] len
    by (intro exited_all [of _ _ k]) (auto simp: hs)
  with assms(2) show ?thesis by (auto simp: Legacy_Stop_def)
qed

interpretation legacy: http_proxy "Legacy_Setup sys cfg" "Legacy_Start sys cfg" "Legacy_Stop sys"
  "\<lambda>p. processes (px_manager p)" "\<lambda>p. px_procs p = []" for sys cfg
proof
  fix insts and s s' s1 s2 :: "'a LegacyProxy" and ports err e
  show "Legacy_Setup sys cfg insts s = (Inr ports, s') \<Longrightarrow> length ports = length insts"
    using Legacy_Setup_effect by fastforce
  have "px_procs (snd (Legacy_Setup sys cfg insts s)) = px_procs s
      \<and> px_manager (snd (Legacy_Setup sys cfg insts s)) = px_manager s"
    using Legacy_Setup_effect [of sys cfg insts s] by (cases "Legacy_Setup sys cfg insts s") simp
  then show "px_procs s = [] \<Longrightarrow> px_procs (snd (Legacy_Setup sys cfg insts s)) = []"
    and "processes (px_manager (snd (Legacy_Setup sys cfg insts s))) = processes (px_manager s)"
    by simp_all
  show "px_procs s = [] \<Longrightarrow> Legacy_Start sys cfg s = (Some err, s') \<Longrightarrow>
      exited_from (length (processes (px_manager s))) (processes (px_manager s'))"
    using Legacy_Start_effect [of sys cfg s "Some err" s'] by simp
  show "px_procs s = [] \<Longrightarrow> Legacy_Start sys cfg s = (None, s1) \<Longrightarrow> Legacy_Stop sys s1 = (e, s2) \<Longrightarrow>
      e = None \<and> px_procs s2 = [] \<and> exited_from (length (processes (px_manager s))) (processes (px_manager s2))"
    using Legacy_Start_effect [of sys cfg s None s1] Legacy_Stop_effect [of _ _ s1 sys e s2] by simp
qed

text \<open>C33. Whatever fails, a proxy leaves no process behind: after setting up, starting and stopping the
  legacy proxy, or after the step that failed, every process started on the way has exited.\<close>

theorem proxy_session_clean:
  assumes "px_procs p = []" and "Legacy_Setup sys cfg insts p = (Inr ports, p1)"
    and "Legacy_Start sys cfg p1 = (e, p2)"
  shows "length ports = length insts \<and>
    (case e of
       Some err \<Rightarrow> exited_from (length (processes (px_manager p))) (processes (px_manager p2))
     | None \<Rightarrow> exited_from (length (processes (px_manager p))) (processes (px_manager (snd (Legacy_Stop sys p2))))
         \<and> length (processes (px_manager p2)) = length (processes (px_manager p)) + length insts)"
proof -
  have su: "length ports = length insts" "px_ports p1 = ports" "px_procs p1 = []" "px_manager p1 = px_manager p"
    using Legacy_Setup_effect [OF assms(2)] assms(1) by auto
  have life: "exited_from (length (processes (px_manager p)))
      (processes (px_manager (legacy.life sys cfg insts p)))"
    using legacy.life_leaves_nothing [OF assms(1)] .
  show ?thesis
  proof (cases e)
    case None
    with Legacy_Start_effect [OF assms(3) su(3)] su
    have "length (processes (px_manager p2)) = length (processes (px_manager p)) + length insts"
      by (simp add: started_upto_def)
    with life None assms(2,3) su show ?thesis by (simp add: legacy.life_def)
  next
    case (Some err)
    with life assms(2,3) su show ?thesis by (simp add: legacy.life_def)
  qed
qed

text \<open>Two instances, the second of which cannot get its Privoxy.\<close>

definition demo_proxy_sys :: "nat proxy_sys" where
  "demo_proxy_sys =
     \<lparr>px_Parse = None, px_Execute = (\<lambda>d. Inr ''config''), px_WriteFile = (\<lambda>p c w. (None, w)),
      px_ctx_Err = (\<lambda>w. None),
      px_cmd_Start = (\<lambda>b args w. if w = 0 then (Inl ''no memory'', w) else (Inr (4711 + w), w - 1)),
      px_cmd_Wait = (\<lambda>h w. (None, w))\<rparr>"

definition demo_proxy :: "nat LegacyProxy" where
  "demo_proxy = \<lparr>px_ports = [], px_procs = [], px_manager = NewManager ''/tmp/splitter'', px_world = 1\<rparr>"

definition demo_px_instances :: "px_instance list" where
  "demo_px_instances =
     [\<lparr>px_ID = 0, px_SocksPort = 4999, px_HTTPPort = 0\<rparr>, \<lparr>px_ID = 1, px_SocksPort = 5000, px_HTTPPort = 0\<rparr>]"

lemma proxy_session_clean_witness:
  "\<exists>p1 p2. Legacy_Setup demo_proxy_sys Defaults demo_px_instances demo_proxy = (Inr [6999, 7000], p1) \<and>
     Legacy_Start demo_proxy_sys Defaults p1 = (Some (PxSpawn 1 (SpawnStart ''no memory'')), p2) \<and>
     length (processes (px_manager p2)) = 1 \<and> exited_from 0 (processes (px_manager p2))"
proof -
  let ?p1 = "demo_proxy\<lparr>px_ports := [6999, 7000]\<rparr>"
  have port: "add64 (Privoxy_StartPort (Privoxy Defaults)) 0 = 6999" "add64 (Privoxy_StartPort (Privoxy Defaults)) 1 = 7000"
    by (simp_all add: Defaults_def go_int in_int64_def)
  have u: "Legacy_Setup demo_proxy_sys Defaults demo_px_instances demo_proxy = (Inr [6999, 7000], ?p1)"
    by (simp add: Legacy_Setup_def demo_proxy_sys_def demo_px_instances_def demo_proxy_def port Let_def)
  obtain p2 where a: "Legacy_Start demo_proxy_sys Defaults ?p1 = (Some (PxSpawn 1 (SpawnStart ''no memory'')), p2)"
    and len: "length (processes (px_manager p2)) = 1"
    by (simp add: Legacy_Start_def px_spawn_def Spawn_def demo_proxy_sys_def demo_proxy_def NewManager_def
        add_def eval_nat_numeral)
  have "px_procs demo_proxy = []" by (simp add: demo_proxy_def)
  from proxy_session_clean [OF this u a] have "exited_from 0 (processes (px_manager p2))"
    by (simp add: demo_proxy_def NewManager_def)
  with u a len show ?thesis by blast
qed

end
