(* ===== verification/Health_DNS.thy ===== *)
theory Health_DNS
  imports Go_Prelude "HOL-Library.Word"
begin

section \<open>The DNS leak test (internal/health/dnsleak.go)\<close>

text \<open>
  The test resolves a domain directly and through the SOCKS5 proxy and compares the addresses.
  Bytes are 8-bit words. A connection is a world \<open>'c\<close> with the calls of \<open>sock\<close>; a read may give
  fewer bytes than asked for. The loop of \<open>readFull\<close> need not end on every connection: \<open>None\<close>
  is a read that never returns.
\<close>

unbundle bit_operations_syntax

type_synonym byte = "8 word"

record 'c sock =
  sock_Dial :: "string \<Rightarrow> 'c \<Rightarrow> string option \<times> 'c"
  sock_Write :: "byte list \<Rightarrow> 'c \<Rightarrow> string option \<times> 'c"
  sock_Read :: "nat \<Rightarrow> 'c \<Rightarrow> (byte list \<times> string option) \<times> 'c"

datatype socks_error =
    DialProxy string
  | WriteGreeting string
  | ReadGreeting string
  | GreetingVersion byte
  | AuthMethod byte
  | DomainTooLong nat
  | WriteRequest string
  | ReadReply string
  | ReplyVersion byte
  | ReplyCode byte
  | ReplyAddressType byte

subsection \<open>Reading\<close>

text \<open>\<open>readFull\<close> with the bytes read so far.\<close>

partial_function (option) readFull ::
  "'c sock \<Rightarrow> nat \<Rightarrow> byte list \<Rightarrow> 'c \<Rightarrow> ((byte list \<times> string option) \<times> 'c) option" where
  "readFull s n buf c =
     (if length buf < n
      then (case sock_Read s (n - length buf) c of
              ((bs, Some err), c') \<Rightarrow> Some ((buf @ bs, Some err), c')
            | ((bs, None), c') \<Rightarrow> readFull s n (buf @ bs) c')
      else Some ((buf, None), c))"

text \<open>\<open>if _, err := readFull (conn, buf); err != nil { return ... }\<close> before the rest.\<close>

definition with_full ::
  "'c sock \<Rightarrow> nat \<Rightarrow> (string \<Rightarrow> socks_error) \<Rightarrow> 'c \<Rightarrow>
   (byte list \<Rightarrow> 'c \<Rightarrow> ((socks_error + 'r) \<times> 'c) option) \<Rightarrow> ((socks_error + 'r) \<times> 'c) option" where
  "with_full s n wrap c rest =
     (case readFull s n [] c of
        None \<Rightarrow> None
      | Some ((buf, Some err), c') \<Rightarrow> Some (Inl (wrap err), c')
      | Some ((buf, None), c') \<Rightarrow> rest buf c')"

subsection \<open>Addresses\<close>

text \<open>\<open>net.IP.String\<close>: four bytes are dotted; sixteen bytes are dotted if they map an IPv4
  address, else groups in hexadecimal with the longest run of at least two zero groups (the first
  of them) written as a double colon.\<close>

definition dotted :: "byte list \<Rightarrow> string" where
  "dotted bs = join_with ''.'' (map (\<lambda>b. itoa (uint b)) bs)"

fun hexadecimal :: "nat \<Rightarrow> string" where
  "hexadecimal n =
     (if n < 16 then [''0123456789abcdef'' ! n]
      else hexadecimal (n div 16) @ [''0123456789abcdef'' ! (n mod 16)])"

declare hexadecimal.simps [simp del]

fun groups_of :: "byte list \<Rightarrow> nat list" where
  "groups_of (a # b # bs) = (unat a * 256 + unat b) # groups_of bs"
| "groups_of bs = []"

definition zero_run :: "nat list \<Rightarrow> nat \<Rightarrow> nat" where
  "zero_run gs i = length (takeWhile (\<lambda>g. g = 0) (drop i gs))"

text \<open>Start and end of the run to compress: a later run only wins if it is longer.\<close>

definition longest_run :: "nat list \<Rightarrow> nat \<times> nat" where
  "longest_run gs =
     foldl (\<lambda>(s, e) i. if 2 \<le> zero_run gs i \<and> e - s < zero_run gs i then (i, i + zero_run gs i) else (s, e))
       (255, 255) [0..<length gs]"

definition ipv6_text :: "nat list \<Rightarrow> string" where
  "ipv6_text gs =
     (case longest_run gs of (s, e) \<Rightarrow>
        if s = 255 then join_with '':'' (map hexadecimal gs)
        else join_with '':'' (map hexadecimal (take s gs)) @ ''::'' @ join_with '':'' (map hexadecimal (drop e gs)))"

definition IP_String :: "byte list \<Rightarrow> string" where
  "IP_String ip =
     (if length ip = 4 then dotted ip
      else if take 12 ip = replicate 10 0 @ [255, 255] then dotted (drop 12 ip)
      else ipv6_text (groups_of ip))"

definition bytes_text :: "byte list \<Rightarrow> string" where
  "bytes_text bs = map (\<lambda>b. char_of (unat b)) bs"

definition text_bytes :: "string \<Rightarrow> byte list" where
  "text_bytes s = map (\<lambda>c. of_nat (of_char c)) s"

subsection \<open>The SOCKS5 conversation\<close>

definition socks5Handshake :: "'c sock \<Rightarrow> 'c \<Rightarrow> ((socks_error + unit) \<times> 'c) option" where
  "socks5Handshake s c =
     (case sock_Write s [5, 1, 0] c of
        (Some err, c1) \<Rightarrow> Some (Inl (WriteGreeting err), c1)
      | (None, c1) \<Rightarrow>
          with_full s 2 ReadGreeting c1 (\<lambda>buf c2.
            Some (if buf ! 0 \<noteq> 5 then Inl (GreetingVersion (buf ! 0))
                  else if buf ! 1 \<noteq> 0 then Inl (AuthMethod (buf ! 1))
                  else Inr (), c2)))"

text \<open>The request: version, command, a zero, the domain after its length byte, and the port with
  its high byte first.\<close>

definition connect_request :: "byte list \<Rightarrow> 16 word \<Rightarrow> byte list" where
  "connect_request domainBytes port =
     [5, 1, 0, 3] @ [of_nat (length domainBytes)] @ domainBytes @ [ucast (drop_bit 8 port), ucast port]"

text \<open>The bound address of a reply, by the type in its header.\<close>

definition read_address :: "'c sock \<Rightarrow> byte \<Rightarrow> 'c \<Rightarrow> ((socks_error + string) \<times> 'c) option" where
  "read_address s atyp c =
     (if atyp = 1 then with_full s 4 ReadReply c (\<lambda>buf c1. Some (Inr (IP_String buf), c1))
      else if atyp = 4 then with_full s 16 ReadReply c (\<lambda>buf c1. Some (Inr (IP_String buf), c1))
      else if atyp = 3 then
        with_full s 1 ReadReply c (\<lambda>lenBuf c1.
          with_full s (unat (lenBuf ! 0)) ReadReply c1 (\<lambda>buf c2. Some (Inr (bytes_text buf), c2)))
      else Some (Inl (ReplyAddressType atyp), c))"

definition socks5ConnectDomain ::
  "'c sock \<Rightarrow> string \<Rightarrow> 16 word \<Rightarrow> 'c \<Rightarrow> ((socks_error + string) \<times> 'c) option" where
  "socks5ConnectDomain s domain port c =
     (let domainBytes = text_bytes domain
      in if 255 < length domainBytes then Some (Inl (DomainTooLong (length domainBytes)), c)
         else
           (case sock_Write s (connect_request domainBytes port) c of
              (Some err, c1) \<Rightarrow> Some (Inl (WriteRequest err), c1)
            | (None, c1) \<Rightarrow>
                with_full s 4 ReadReply c1 (\<lambda>header c2.
                  if header ! 0 \<noteq> 5 then Some (Inl (ReplyVersion (header ! 0)), c2)
                  else if header ! 1 \<noteq> 0 then Some (Inl (ReplyCode (header ! 1)), c2)
                  else
                    (case read_address s (header ! 3) c2 of
                       None \<Rightarrow> None
                     | Some (Inl err, c3) \<Rightarrow> Some (Inl err, c3)
                     | Some (Inr boundAddr, c3) \<Rightarrow>
                         with_full s 2 ReadReply c3 (\<lambda>portBuf c4. Some (Inr boundAddr, c4))))))"

definition resolveThroughSocks5 ::
  "'c sock \<Rightarrow> string \<Rightarrow> string \<Rightarrow> 'c \<Rightarrow> ((socks_error + string) \<times> 'c) option" where
  "resolveThroughSocks5 s socksAddr testDomain c =
     (case sock_Dial s socksAddr c of
        (Some err, c1) \<Rightarrow> Some (Inl (DialProxy err), c1)
      | (None, c1) \<Rightarrow>
          (case socks5Handshake s c1 of
             None \<Rightarrow> None
           | Some (Inl err, c2) \<Rightarrow> Some (Inl err, c2)
           | Some (Inr _, c2) \<Rightarrow> socks5ConnectDomain s testDomain 80 c2))"

subsection \<open>The verdict\<close>

record DNSLeakResult =
  LeakDetected :: bool
  TorIP :: string
  DirectIP :: string
  TestDomain :: string

datatype leak_test_error = BothFailed socks_error string | TorFailed socks_error

text \<open>\<open>Test\<close>, from the direct lookup and the answer of the proxy.\<close>

definition leak_verdict ::
  "string \<Rightarrow> string + string list \<Rightarrow> socks_error + string \<Rightarrow> DNSLeakResult \<times> leak_test_error option" where
  "leak_verdict testDomain direct tor =
     (let directIP = (case direct of Inl err \<Rightarrow> [] | Inr addrs \<Rightarrow> if 0 < length addrs then addrs ! 0 else []);
          result = \<lparr>LeakDetected = False, TorIP = [], DirectIP = directIP, TestDomain = testDomain\<rparr>
      in case tor of
           Inl socksErr \<Rightarrow>
             (case direct of
                Inl directErr \<Rightarrow> (result, Some (BothFailed socksErr directErr))
              | Inr addrs \<Rightarrow> (result, Some (TorFailed socksErr)))
         | Inr torIP \<Rightarrow>
             (let result' = result\<lparr>TorIP := torIP\<rparr>
              in if (case direct of Inl err \<Rightarrow> True | Inr addrs \<Rightarrow> length addrs = 0) then (result', None)
                 else if DirectIP result' = TorIP result' then (result', None)
                 else (result'\<lparr>LeakDetected := True\<rparr>, None)))"

definition Leak_Test ::
  "'c sock \<Rightarrow> string \<Rightarrow> string \<Rightarrow> string + string list \<Rightarrow> 'c \<Rightarrow>
   ((DNSLeakResult \<times> leak_test_error option) \<times> 'c) option" where
  "Leak_Test s socksAddr testDomain direct c =
     (case resolveThroughSocks5 s socksAddr testDomain c of
        None \<Rightarrow> None | Some (tor, c') \<Rightarrow> Some (leak_verdict testDomain direct tor, c'))"

text \<open>The tester holds the proxy's address and the domain it asks for.\<close>

record DNSLeakTester =
  leak_socksAddr :: string
  leak_testDomain :: string

definition NewDNSLeakTester :: "string \<Rightarrow> DNSLeakTester" where
  "NewDNSLeakTester addr = \<lparr>leak_socksAddr = addr, leak_testDomain = ''dnsleaktest.com''\<rparr>"

definition SetTestDomain :: "string \<Rightarrow> DNSLeakTester \<Rightarrow> DNSLeakTester" where
  "SetTestDomain domain t = t\<lparr>leak_testDomain := domain\<rparr>"

definition Tester_Test ::
  "'c sock \<Rightarrow> DNSLeakTester \<Rightarrow> string + string list \<Rightarrow> 'c \<Rightarrow>
   ((DNSLeakResult \<times> leak_test_error option) \<times> 'c) option" where
  "Tester_Test s t direct c = Leak_Test s (leak_socksAddr t) (leak_testDomain t) direct c"

subsection \<open>Periodic checks\<close>

record PeriodicChecker =
  pc_interval :: int
  pc_results :: "DNSLeakResult list"
  pc_cancel_set :: bool

definition NewPeriodicChecker :: "int \<Rightarrow> PeriodicChecker" where
  "NewPeriodicChecker interval =
     \<lparr>pc_interval = (if interval \<le> 0 then 300000000000 else interval), pc_results = [], pc_cancel_set = False\<rparr>"

definition PC_Start :: "PeriodicChecker \<Rightarrow> string option \<times> PeriodicChecker" where
  "PC_Start pc =
     (if pc_cancel_set pc then (Some ''Start: checker already running'', pc)
      else (None, pc\<lparr>pc_cancel_set := True\<rparr>))"

text \<open>\<open>Stop\<close>, once the goroutine it waits for has ended.\<close>

definition PC_Stop :: "PeriodicChecker \<Rightarrow> string option \<times> PeriodicChecker" where
  "PC_Stop pc =
     (if \<not> pc_cancel_set pc then (Some ''Stop: checker not running'', pc)
      else (None, pc\<lparr>pc_cancel_set := False\<rparr>))"

definition appendResult :: "DNSLeakResult \<Rightarrow> PeriodicChecker \<Rightarrow> PeriodicChecker" where
  "appendResult r pc =
     (let rs = pc_results pc @ [r]
      in pc\<lparr>pc_results := (if 100 < length rs then drop (length rs - 100) rs else rs)\<rparr>)"

definition LastResult :: "PeriodicChecker \<Rightarrow> DNSLeakResult option" where
  "LastResult pc =
     (if length (pc_results pc) = 0 then None else Some (pc_results pc ! (length (pc_results pc) - 1)))"

definition Results :: "PeriodicChecker \<Rightarrow> DNSLeakResult list" where
  "Results pc = pc_results pc"

text \<open>The body of \<open>run\<close>: the first test and one for every tick of the timer; \<open>outcomes\<close> are the
  outcomes of the tests. A failed test is skipped, unless the context is done, which ends the loop.\<close>

fun check_run :: "(DNSLeakResult option \<times> bool) list \<Rightarrow> PeriodicChecker \<Rightarrow> PeriodicChecker" where
  "check_run [] pc = pc"
| "check_run ((Some r, ctx_done) # outcomes) pc = check_run outcomes (appendResult r pc)"
| "check_run ((None, ctx_done) # outcomes) pc = (if ctx_done then pc else check_run outcomes pc)"

definition PC_run :: "DNSLeakResult option \<Rightarrow> (DNSLeakResult option \<times> bool) list \<Rightarrow> PeriodicChecker \<Rightarrow> PeriodicChecker" where
  "PC_run first outcomes pc =
     check_run outcomes (case first of None \<Rightarrow> pc | Some r \<Rightarrow> appendResult r pc)"

subsection \<open>Reading from a stream\<close>

text \<open>A connection that delivers its bytes in the given non-empty pieces and then ends: one read gives
  what is left of the first piece, as far as there is room.\<close>

fun chunk_read :: "nat \<Rightarrow> byte list list \<Rightarrow> (byte list \<times> string option) \<times> byte list list" where
  "chunk_read n [] = (([], Some ''EOF''), [])"
| "chunk_read n (ch # chs) = ((take n ch, None), if length ch \<le> n then chs else drop n ch # chs)"

definition stream :: "byte list list sock" where
  "stream = \<lparr>sock_Dial = (\<lambda>a c. (None, c)), sock_Write = (\<lambda>bs c. (None, c)), sock_Read = chunk_read\<rparr>"

lemma stream_ops [simp]:
  "sock_Dial stream = (\<lambda>a c. (None, c))" "sock_Write stream = (\<lambda>bs c. (None, c))"
  "sock_Read stream = chunk_read"
  by (simp_all add: stream_def)

lemma unat_small_byte: "n < 256 \<Longrightarrow> unat (of_nat n :: byte) = n"
  by (simp add: unsigned_of_nat take_bit_nat_eq_self)

lemma readFull_stream_gen:
  assumes "[] \<notin> set chs" and "length buf \<le> n"
  shows "\<exists>rest. [] \<notin> set rest \<and>
    readFull stream n buf chs =
      (if n - length buf \<le> length (concat chs)
       then Some ((buf @ take (n - length buf) (concat chs), None), rest)
       else Some ((buf @ concat chs, Some ''EOF''), rest)) \<and>
    concat rest = drop (n - length buf) (concat chs)"
  using assms
proof (induction chs arbitrary: buf)
  case Nil
  then show ?case
    by (intro exI [of _ "[]"]) (auto simp: readFull.simps [of stream n])
next
  case (Cons ch chs)
  let ?m = "n - length buf"
  show ?case
  proof (cases "?m = 0")
    case True
    then show ?thesis
      using Cons.prems by (intro exI [of _ "ch # chs"]) (auto simp: readFull.simps)
  next
    case False
    then have step: "readFull stream n buf (ch # chs) =
        readFull stream n (buf @ take ?m ch) (if length ch \<le> ?m then chs else drop ?m ch # chs)"
      by (subst readFull.simps) simp
    show ?thesis
    proof (cases "length ch \<le> ?m")
      case True
      have "[] \<notin> set chs" and "length (buf @ ch) \<le> n" using True Cons.prems by auto
      from Cons.IH [OF this] obtain rest where "[] \<notin> set rest"
        and "readFull stream n (buf @ ch) chs =
          (if n - length (buf @ ch) \<le> length (concat chs)
           then Some (((buf @ ch) @ take (n - length (buf @ ch)) (concat chs), None), rest)
           else Some (((buf @ ch) @ concat chs, Some ''EOF''), rest))"
        and "concat rest = drop (n - length (buf @ ch)) (concat chs)"
        by blast
      with step True show ?thesis
        by (intro exI [of _ rest]) (auto simp: diff_diff_left)
    next
      case long: False
      let ?rest = "drop ?m ch # chs"
      have "readFull stream n (buf @ take ?m ch) ?rest = Some ((buf @ take ?m ch, None), ?rest)"
        using long Cons.prems(2) by (subst readFull.simps) auto
      with step long Cons.prems show ?thesis
        by (intro exI [of _ ?rest]) auto
    qed
  qed
qed



lemma with_full_stream:
  assumes "[] \<notin> set chunks" and "concat chunks = bs @ tail" and "length bs = n"
  obtains rest where "[] \<notin> set rest" and "concat rest = tail"
    and "with_full stream n wrap chunks k = k bs rest"
  using readFull_stream_gen [OF assms(1), of "[]" n] assms(2,3) that
  by (auto simp: with_full_def)

subsection \<open>What the proxy reads\<close>

text \<open>A server's reading of a request (RFC 1928): the domain and the port.\<close>

fun parse_connect :: "byte list \<Rightarrow> (byte list \<times> 16 word) option" where
  "parse_connect (v # cmd # rsv # atyp # len # rest) =
     (if v = 5 \<and> cmd = 1 \<and> rsv = 0 \<and> atyp = 3 \<and> length rest = unat len + 2
      then Some (take (unat len) rest,
                 push_bit 8 (ucast (rest ! unat len)) OR ucast (rest ! (unat len + 1)))
      else None)"
| "parse_connect _ = None"

lemma join_bytes:
  "push_bit 8 (ucast (ucast (drop_bit 8 p) :: byte)) OR ucast (ucast p :: byte) = (p :: 16 word)"
  by (intro bit_word_eqI) (auto simp: bit_simps)

lemma text_bytes_inverse [simp]: "bytes_text (text_bytes s) = s"
proof -
  have "char_of (unat (of_nat (of_char c) :: byte)) = c" for c :: char
  proof -
    have "(of_char c :: nat) < 256" by (rule nat_of_char_less_256)
    then have "unat (of_nat (of_char c) :: byte) = of_char c" by (rule unat_small_byte)
    then show ?thesis by simp
  qed
  then show ?thesis by (simp add: bytes_text_def text_bytes_def comp_def)
qed

text \<open>A domain of at most 255 bytes and any port are read back from the request as they were given;
  a longer domain, whose length byte would wrap, is refused before anything is sent.\<close>

theorem connect_request_roundtrip:
  "if length domain \<le> 255
   then parse_connect (connect_request (text_bytes domain) port) = Some (text_bytes domain, port)
      \<and> bytes_text (text_bytes domain) = domain
   else socks5ConnectDomain s domain port c = Some (Inl (DomainTooLong (length domain)), c)"
proof (cases "length domain \<le> 255")
  case True
  have len: "length (text_bytes domain) = length domain" by (simp add: text_bytes_def)
  have "unat (of_nat (length domain) :: byte) = length domain"
    using True by (simp add: unat_small_byte)
  then have "parse_connect (connect_request (text_bytes domain) port) = Some (text_bytes domain, port)"
    using join_bytes [of port] by (simp add: connect_request_def len nth_append)
  with True show ?thesis by simp
next
  case False
  then show ?thesis by (simp add: socks5ConnectDomain_def text_bytes_def)
qed

subsection \<open>A whole test\<close>

text \<open>What a SOCKS5 proxy answers that accepts: no authentication, and the address it has bound.\<close>

definition proxy_reply :: "byte \<Rightarrow> byte list \<Rightarrow> byte list \<Rightarrow> byte list" where
  "proxy_reply atyp address portBytes =
     [5, 0] @ [5, 0, 0, atyp] @
     (if atyp = 3 then of_nat (length address) # address else address) @ portBytes"

text \<open>The addresses a reply may carry, and their shown.\<close>

definition bound_text :: "byte \<Rightarrow> byte list \<Rightarrow> string option" where
  "bound_text atyp address =
     (if atyp = 1 \<and> length address = 4 \<or> atyp = 4 \<and> length address = 16 then Some (IP_String address)
      else if atyp = 3 \<and> length address \<le> 255 then Some (bytes_text address) else None)"

lemma read_address_stream:
  assumes "[] \<notin> set chunks" and "bound_text atyp address = Some shown"
    and "concat chunks = (if atyp = 3 then of_nat (length address) # address else address) @ tail"
  obtains rest where "[] \<notin> set rest" and "concat rest = tail"
    and "read_address stream atyp chunks = Some (Inr shown, rest)"
proof (cases "atyp = 3")
  case False
  then have "atyp = 1 \<and> length address = 4 \<or> atyp = 4 \<and> length address = 16"
    and shown: "shown = IP_String address"
    using assms(2) by (auto simp: bound_text_def split: if_splits)
  then consider "atyp = 1" "length address = 4" | "atyp = 4" "length address = 16" by blast
  then show thesis
  proof cases
    case 1
    with assms(3) False have "concat chunks = address @ tail" by simp
    then obtain rest where "[] \<notin> set rest" "concat rest = tail"
      "with_full stream 4 ReadReply chunks (\<lambda>buf c1. Some (Inr (IP_String buf), c1)) =
        (\<lambda>buf c1. Some (Inr (IP_String buf), c1)) address rest"
      using 1(2) by (rule with_full_stream [OF assms(1)])
    with 1 that shown show thesis by (simp add: read_address_def)
  next
    case 2
    with assms(3) False have "concat chunks = address @ tail" by simp
    then obtain rest where "[] \<notin> set rest" "concat rest = tail"
      "with_full stream 16 ReadReply chunks (\<lambda>buf c1. Some (Inr (IP_String buf), c1)) =
        (\<lambda>buf c1. Some (Inr (IP_String buf), c1)) address rest"
      using 2(2) by (rule with_full_stream [OF assms(1)])
    with 2 that shown show thesis by (simp add: read_address_def)
  qed
next
  case True
  then have len: "length address \<le> 255" and shown: "shown = bytes_text address"
    using assms(2) by (auto simp: bound_text_def split: if_splits)
  let ?k = "\<lambda>(lenBuf :: byte list) c1. with_full stream (unat (lenBuf ! 0)) ReadReply c1 (\<lambda>buf c2. Some (Inr (bytes_text buf), c2))"
  have "concat chunks = [of_nat (length address)] @ (address @ tail)"
    using assms(3) True by simp
  moreover have "length [of_nat (length address) :: byte] = 1" by simp
  ultimately obtain mid where mid: "[] \<notin> set mid" "concat mid = address @ tail"
    and one: "with_full stream 1 ReadReply chunks ?k = ?k [of_nat (length address)] mid"
    by (rule with_full_stream [where k = ?k and wrap = ReadReply, OF assms(1)])
  have small: "unat (of_nat (length address) :: byte) = length address"
    using len by (simp add: unat_small_byte)
  obtain rest where "[] \<notin> set rest" "concat rest = tail"
    and "with_full stream (length address) ReadReply mid (\<lambda>buf c2. Some (Inr (bytes_text buf), c2)) =
      (\<lambda>buf c2. Some (Inr (bytes_text buf), c2)) address rest"
    by (rule with_full_stream [OF mid refl])
  with that one True small shown show thesis by (simp add: read_address_def)
qed

lemma resolve_on_stream:
  assumes "[] \<notin> set chunks" and "concat chunks = proxy_reply atyp address portBytes @ tail"
    and "bound_text atyp address = Some shown" and "length portBytes = 2" and "length domain \<le> 255"
  shows "\<exists>rest. resolveThroughSocks5 stream proxy domain chunks = Some (Inr shown, rest) \<and> concat rest = tail"
proof -
  let ?body = "(if atyp = 3 then of_nat (length address) # address else address) @ portBytes @ tail"
  let ?hk = "\<lambda>buf c2. Some (if buf ! 0 \<noteq> 5 then Inl (GreetingVersion (buf ! 0))
                  else if buf ! 1 \<noteq> 0 then Inl (AuthMethod (buf ! 1)) else Inr (), c2)"
  have "concat chunks = [5, 0] @ ([5, 0, 0, atyp] @ ?body)"
    using assms(2) by (simp add: proxy_reply_def)
  from with_full_stream [OF assms(1) this, of 2 ReadGreeting ?hk] obtain c1 where
    c1: "[] \<notin> set c1" "concat c1 = [5, 0, 0, atyp] @ ?body"
    and hand: "socks5Handshake stream chunks = Some (Inr (), c1)"
    by (auto simp: socks5Handshake_def)
  let ?ck = "\<lambda>header c2.
      if header ! 0 \<noteq> 5 then Some (Inl (ReplyVersion (header ! 0)), c2)
      else if header ! 1 \<noteq> 0 then Some (Inl (ReplyCode (header ! 1)), c2)
      else (case read_address stream (header ! 3) c2 of
              None \<Rightarrow> None
            | Some (Inl err, c3) \<Rightarrow> Some (Inl err, c3)
            | Some (Inr boundAddr, c3) \<Rightarrow>
                with_full stream 2 ReadReply c3 (\<lambda>portBuf c4. Some (Inr boundAddr, c4)))"
  from with_full_stream [OF c1, of 4 ReadReply ?ck] obtain c2 where c2: "[] \<notin> set c2" "concat c2 = ?body"
    and header: "with_full stream 4 ReadReply c1 ?ck = ?ck [5, 0, 0, atyp] c2" by auto
  obtain c3 where c3: "[] \<notin> set c3" "concat c3 = portBytes @ tail"
    and addr: "read_address stream atyp c2 = Some (Inr shown, c3)"
    using read_address_stream [OF c2(1) assms(3), of "portBytes @ tail"] c2(2) by auto
  obtain c4 where "concat c4 = tail"
    and "with_full stream 2 ReadReply c3 (\<lambda>portBuf c4. Some (Inr shown, c4)) = Some (Inr shown, c4)"
    using with_full_stream [OF c3 assms(4), of ReadReply "\<lambda>portBuf c4. Some (Inr shown, c4)"] by metis
  with header addr have "socks5ConnectDomain stream domain 80 c1 = Some (Inr shown, c4)"
    using assms(5) by (simp add: socks5ConnectDomain_def text_bytes_def)
  with hand \<open>concat c4 = tail\<close> show ?thesis
    by (simp add: resolveThroughSocks5_def)
qed

text \<open>On a proxy that accepts, however its reply is cut into pieces, the test returns, and its verdict
  compares the first address of the direct lookup with the address the proxy has bound for its own
  connection: a leak is reported exactly when a direct address exists and the two texts differ. A
  proxy that keeps its address to itself and answers 0.0.0.0 is therefore always reported as leaking.\<close>

theorem leak_test_verdict:
  assumes "[] \<notin> set chunks" and "concat chunks = proxy_reply atyp address portBytes"
    and "bound_text atyp address = Some shown" and "length portBytes = 2" and "length domain \<le> 255"
  shows "\<exists>r rest. Leak_Test stream proxy domain direct chunks = Some ((r, None), rest) \<and> TorIP r = shown \<and>
    LeakDetected r = (case direct of Inl err \<Rightarrow> False | Inr addrs \<Rightarrow> addrs \<noteq> [] \<and> hd addrs \<noteq> shown)"
proof -
  obtain rest where "resolveThroughSocks5 stream proxy domain chunks = Some (Inr shown, rest)"
    using resolve_on_stream [of chunks atyp address portBytes "[]" shown domain proxy] assms by auto
  then show ?thesis
    by (auto simp: Leak_Test_def leak_verdict_def Let_def hd_conv_nth split: sum.split)
qed

lemma leak_test_verdict_witness:
  "IP_String [0, 0, 0, 0] = ''0.0.0.0'' \<and>
   (\<exists>r rest. Leak_Test stream ''127.0.0.1:4999'' ''dnsleaktest.com'' (Inr [''23.239.16.110''])
      [[5, 0], [5, 0, 0, 1, 0], [0, 0, 0, 0, 0]] = Some ((r, None), rest) \<and>
      TorIP r = ''0.0.0.0'' \<and> LeakDetected r)"
proof -
  have ip: "IP_String [0, 0, 0, 0] = ''0.0.0.0''"
    by (simp add: IP_String_def dotted_def itoa_def decimal.simps digit_char_def go_eval)
  then have "bound_text 1 [0, 0, 0, 0] = Some ''0.0.0.0''" by (simp add: bound_text_def)
  from leak_test_verdict [OF _ _ this, of "[[5, 0], [5, 0, 0, 1, 0], [0, 0, 0, 0, 0]]" "[0, 0]"
      "''dnsleaktest.com''" "''127.0.0.1:4999''" "Inr [''23.239.16.110'']"] ip
  show ?thesis by (auto simp: proxy_reply_def)
qed

subsection \<open>The history of a periodic check\<close>

lemma appendResult_take:
  "pc_results pc = drop (length rs - 100) rs \<Longrightarrow>
   pc_results (appendResult r pc) = drop (length (rs @ [r]) - 100) (rs @ [r])"
proof -
  assume h: "pc_results pc = drop (length rs - 100) rs"
  show ?thesis
  proof (cases "length rs < 100")
    case False
    then have "length rs - 99 = Suc (length rs - 100)" by linarith
    with False h show ?thesis by (simp add: appendResult_def Let_def)
  qed (use h in \<open>simp add: appendResult_def Let_def\<close>)
qed

text \<open>Whatever tests succeed and fail, the checker holds the results of the last hundred successful
  ones, in their order, and the last result is the latest of them.\<close>

theorem periodic_history:
  "let rs = successes in
   Results (foldl (\<lambda>pc r. appendResult r pc) (NewPeriodicChecker interval) rs) = drop (length rs - 100) rs \<and>
   LastResult (foldl (\<lambda>pc r. appendResult r pc) (NewPeriodicChecker interval) rs) =
     (if rs = [] then None else Some (last rs))"
proof -
  have h: "pc_results (foldl (\<lambda>pc r. appendResult r pc) (NewPeriodicChecker interval) rs) = drop (length rs - 100) rs" for rs
  proof (induction rs rule: rev_induct)
    case (snoc r rs)
    from appendResult_take [OF this] show ?case by simp
  qed (simp add: NewPeriodicChecker_def)
  show ?thesis
  proof (cases successes rule: rev_cases)
    case (snoc rs r)
    let ?d = "drop (length successes - 100) successes"
    have "?d \<noteq> []" using snoc by simp
    from last_conv_nth [OF this] have "?d ! (length ?d - 1) = last ?d" by simp
    also have "last ?d = last successes" using \<open>?d \<noteq> []\<close> by (intro last_drop) auto
    finally have "?d ! (length ?d - 1) = last successes" .
    with \<open>?d \<noteq> []\<close> snoc show ?thesis
      by (simp only: Results_def LastResult_def Let_def h) simp
  qed (use h [of "[]"] in \<open>simp add: Results_def LastResult_def\<close>)
qed

end
