(* ===== verification/Health_Reputation.thy ===== *)
theory Health_Reputation
  imports Go_Prelude Complex_Main "HOL-Library.Multiset"
begin

section \<open>Exit relay reputation (internal/health/reputation.go)\<close>

text \<open>
  \<open>Check\<close> serves a country's relays from a cache file while it is fresh, else asks the Onionoo
  service and adds the answer to the cache; \<open>Filter\<close> keeps the good relays, best first. The
  HTTP client, the JSON codec, the date parser and the clock are parameters; times are
  nanoseconds, and scores are exact rationals.
\<close>

record ExitReputation =
  Fingerprint :: string
  rep_Country :: string
  UptimeDays :: int
  Bandwidth :: int
  rep_Flags :: "string list"
  IsFlagged :: bool
  IsNew :: bool
  Score :: rat

record reputationCache =
  rep_FetchedAt :: int
  Entries :: "string \<rightharpoonup> ExitReputation list"

record ReputationChecker =
  minUptime :: int
  minBandwidth :: int
  rep_cacheTTL :: int
  rep_cachePath :: string
  apiURL :: string

record onionooDetailsRelay =
  det_Fingerprint :: string
  det_Country :: string
  ObservedBandwidth :: int
  det_Flags :: "string list"
  FirstSeen :: string

datatype rep_error =
    RepRequest string
  | RepStatus int
  | RepDecode string
  | RepReadCache os_error
  | RepUnmarshal string
  | RepMkdir os_error
  | RepMarshal string
  | RepWrite os_error
  | RepFetchFailed string rep_error
  | RepNoRelays string

record rep_env =
  rep_Do :: "string \<Rightarrow> string + int \<times> (string + onionooDetailsRelay list)"
  rep_Marshal :: "reputationCache \<Rightarrow> string + string"
  rep_Unmarshal :: "string \<Rightarrow> string + reputationCache"
  rep_MkdirAll :: "string \<Rightarrow> os_error option"
  rep_WriteFile :: "string \<Rightarrow> os_error option"
  parse_date :: "string \<Rightarrow> int option"
  parse_datetime :: "string \<Rightarrow> int option"

text \<open>The clock readings of one call: the age of the cache, the age of the relays, the new stamp.\<close>

record rep_clock =
  now_check :: int
  now_fetch :: int
  now_write :: int

definition NewReputationChecker :: "string \<Rightarrow> ReputationChecker" where
  "NewReputationChecker path =
     \<lparr>minUptime = 7, minBandwidth = 1048576, rep_cacheTTL = 12 * 3600 * 1000000000, rep_cachePath = path,
      apiURL = ''https://onionoo.torproject.org/details''\<rparr>"

definition SetAPIURL :: "string \<Rightarrow> ReputationChecker \<Rightarrow> ReputationChecker" where
  "SetAPIURL url rc = rc\<lparr>apiURL := url\<rparr>"

subsection \<open>Scores\<close>

definition computeScore :: "string list \<Rightarrow> int \<Rightarrow> int \<Rightarrow> bool \<Rightarrow> bool \<Rightarrow> rat" where
  "computeScore flags uptimeDays bandwidth isFlagged isNew =
     (let s1 = 1 / 2 + (if ''Stable'' \<in> set flags then 1 / 10 else 0);
          s2 = s1 + (if ''Fast'' \<in> set flags then 1 / 10 else 0);
          s3 = s2 + (if 30 < uptimeDays then 1 / 10 else 0);
          s4 = s3 + (if 10485760 < bandwidth then 1 / 10 else 0);
          s5 = s4 - (if isFlagged then 1 / 2 else 0);
          s6 = s5 - (if isNew then 3 / 10 else 0);
          s7 = (if s6 < 0 then 0 else s6)
      in if 1 < s7 then 1 else s7)"

definition daysSinceFirstSeen :: "rep_env \<Rightarrow> int \<Rightarrow> string \<Rightarrow> int" where
  "daysSinceFirstSeen env now firstSeen =
     (case (case parse_date env firstSeen of Some t \<Rightarrow> Some t | None \<Rightarrow> parse_datetime env firstSeen) of
        None \<Rightarrow> 0
      | Some t \<Rightarrow> (if now - t < 0 then 0 else (now - t) div (24 * 3600 * 1000000000)))"

definition reputation_of :: "rep_env \<Rightarrow> ReputationChecker \<Rightarrow> int \<Rightarrow> onionooDetailsRelay \<Rightarrow> ExitReputation" where
  "reputation_of env rc now relay =
     (let uptimeDays = daysSinceFirstSeen env now (FirstSeen relay);
          isNew = (uptimeDays < minUptime rc)
      in \<lparr>Fingerprint = det_Fingerprint relay, rep_Country = toUpper (det_Country relay),
          UptimeDays = uptimeDays, Bandwidth = ObservedBandwidth relay, rep_Flags = det_Flags relay,
          IsFlagged = False, IsNew = isNew,
          Score = computeScore (det_Flags relay) uptimeDays (ObservedBandwidth relay) False isNew\<rparr>)"

definition rep_fetchFromAPI ::
  "rep_env \<Rightarrow> ReputationChecker \<Rightarrow> int \<Rightarrow> string \<Rightarrow> rep_error + ExitReputation list" where
  "rep_fetchFromAPI env rc now country =
     (case rep_Do env (apiURL rc @ ''?type=relay&running=true&flag=Exit&country='' @ toLower country) of
        Inl err \<Rightarrow> Inl (RepRequest err)
      | Inr (status, body) \<Rightarrow>
          (if status \<noteq> 200 then Inl (RepStatus status)
           else (case body of
                   Inl err \<Rightarrow> Inl (RepDecode err)
                 | Inr relays \<Rightarrow> Inr (map (reputation_of env rc now) relays))))"

text \<open>\<open>Filter\<close>; \<open>sort_slice\<close> is what \<open>sort.Slice\<close> makes of a list with this order.\<close>

fun filter_loop :: "ReputationChecker \<Rightarrow> ExitReputation list \<Rightarrow> ExitReputation list \<Rightarrow> ExitReputation list" where
  "filter_loop rc [] filtered = filtered"
| "filter_loop rc (r # rs) filtered =
     (if IsFlagged r then filter_loop rc rs filtered
      else if IsNew r then filter_loop rc rs filtered
      else if UptimeDays r < minUptime rc then filter_loop rc rs filtered
      else if Bandwidth r < minBandwidth rc then filter_loop rc rs filtered
      else filter_loop rc rs (filtered @ [r]))"

definition rep_Filter ::
  "(ExitReputation list \<Rightarrow> ExitReputation list) \<Rightarrow> ReputationChecker \<Rightarrow> ExitReputation list \<Rightarrow> ExitReputation list" where
  "rep_Filter sort_slice rc reputations = sort_slice (filter_loop rc reputations [])"

subsection \<open>The cache\<close>

text \<open>What is before the last slash.\<close>

definition dirOf :: "string \<Rightarrow> string" where
  "dirOf path =
     (if CHR ''/'' \<notin> set path then ''.''
      else rev (tl (dropWhile (\<lambda>c. c \<noteq> CHR ''/'') (rev path))))"

text \<open>The cache file is its content or the error of reading it.\<close>

definition rep_readCache :: "rep_env \<Rightarrow> os_error + string \<Rightarrow> rep_error + reputationCache option" where
  "rep_readCache env file =
     (case file of
        Inl err \<Rightarrow> (if err = ErrNotExist then Inr None else Inl (RepReadCache err))
      | Inr data \<Rightarrow>
          (case rep_Unmarshal env data of Inl err \<Rightarrow> Inl (RepUnmarshal err) | Inr cache \<Rightarrow> Inr (Some cache)))"

definition rep_writeCache ::
  "rep_env \<Rightarrow> ReputationChecker \<Rightarrow> int \<Rightarrow> string \<Rightarrow> ExitReputation list \<Rightarrow> reputationCache option
   \<Rightarrow> os_error + string \<Rightarrow> rep_error option \<times> (os_error + string)" where
  "rep_writeCache env rc now country reputations existing file =
     (case rep_MkdirAll env (dirOf (rep_cachePath rc)) of
        Some err \<Rightarrow> (Some (RepMkdir err), file)
      | None \<Rightarrow>
          (let old = (case existing of None \<Rightarrow> Map.empty | Some c \<Rightarrow> Entries c);
               cache = \<lparr>rep_FetchedAt = now, Entries = old(country \<mapsto> reputations)\<rparr>
           in case rep_Marshal env cache of
                Inl err \<Rightarrow> (Some (RepMarshal err), file)
              | Inr data \<Rightarrow>
                  (case rep_WriteFile env (rep_cachePath rc) of
                     Some err \<Rightarrow> (Some (RepWrite err), file)
                   | None \<Rightarrow> (None, Inr data))))"

definition rep_Check ::
  "rep_env \<Rightarrow> ReputationChecker \<Rightarrow> rep_clock \<Rightarrow> string \<Rightarrow> os_error + string
   \<Rightarrow> (rep_error + ExitReputation list) \<times> (os_error + string)" where
  "rep_Check env rc clk country file =
     (let upper = toUpper country;
          cached = (case rep_readCache env file of Inl err \<Rightarrow> None | Inr c \<Rightarrow> c);
          entries = Option.bind cached (\<lambda>c. Entries c upper);
          fresh = (case cached of None \<Rightarrow> False | Some c \<Rightarrow> now_check clk - rep_FetchedAt c < rep_cacheTTL rc)
      in case (if fresh then entries else None) of
           Some es \<Rightarrow> (Inr es, file)
         | None \<Rightarrow>
             (case rep_fetchFromAPI env rc (now_fetch clk) upper of
                Inl err \<Rightarrow>
                  (case entries of Some es \<Rightarrow> (Inr es, file) | None \<Rightarrow> (Inl (RepFetchFailed upper err), file))
              | Inr reputations \<Rightarrow>
                  (if length reputations = 0
                   then (case entries of Some es \<Rightarrow> (Inr es, file) | None \<Rightarrow> (Inl (RepNoRelays upper), file))
                   else (case rep_writeCache env rc (now_write clk) upper reputations cached file of
                           (ignored, file') \<Rightarrow> (Inr reputations, file')))))"

subsection \<open>Good relays\<close>

lemma computeScore_bounds: "0 \<le> computeScore flags up bw fl nw \<and> computeScore flags up bw fl nw \<le> 1"
  by (simp add: computeScore_def Let_def)

lemma filter_loop_filter:
  "filter_loop rc rs acc = acc @ filter (\<lambda>r. \<not> IsFlagged r \<and> \<not> IsNew r \<and> minUptime rc \<le> UptimeDays r
     \<and> minBandwidth rc \<le> Bandwidth r) rs"
  by (induction rs arbitrary: acc) auto

text \<open>What \<open>sort.Slice\<close> documents: the same elements, none before one that is better.\<close>

definition sorts_by_score :: "(ExitReputation list \<Rightarrow> ExitReputation list) \<Rightarrow> bool" where
  "sorts_by_score f \<longleftrightarrow> (\<forall>rs. mset (f rs) = mset rs \<and> sorted_wrt (\<lambda>a b. \<not> Score a < Score b) (f rs))"

text \<open>Of the relays a fetch gives, the filter keeps exactly those seen for at least the minimal number
  of days and with the minimal bandwidth, each as often as it came, best score first, and every
  score lies between 0 and 1.\<close>

theorem good_relays:
  assumes "sorts_by_score sort_slice" and "rep_fetchFromAPI env rc now country = Inr reps"
  shows "mset (rep_Filter sort_slice rc reps) =
      mset (filter (\<lambda>r. minUptime rc \<le> UptimeDays r \<and> minBandwidth rc \<le> Bandwidth r) reps) \<and>
    sorted_wrt (\<lambda>a b. Score b \<le> Score a) (rep_Filter sort_slice rc reps) \<and>
    list_all (\<lambda>r. 0 \<le> Score r \<and> Score r \<le> 1) (rep_Filter sort_slice rc reps)"
proof -
  obtain relays where reps: "reps = map (reputation_of env rc now) relays"
    using assms(2) by (auto simp: rep_fetchFromAPI_def split: sum.splits prod.splits if_splits)
  let ?good = "\<lambda>r. minUptime rc \<le> UptimeDays r \<and> minBandwidth rc \<le> Bandwidth r"
  have fetched: "\<not> IsFlagged r \<and> (IsNew r \<longleftrightarrow> UptimeDays r < minUptime rc) \<and> 0 \<le> Score r \<and> Score r \<le> 1"
    if "r \<in> set reps" for r
    using that computeScore_bounds by (auto simp: reps reputation_of_def Let_def)
  have kept: "filter_loop rc reps [] = filter ?good reps"
    using fetched by (auto simp: filter_loop_filter intro!: filter_cong)
  have "mset (rep_Filter sort_slice rc reps) = mset (filter ?good reps)"
    and sorted: "sorted_wrt (\<lambda>a b. Score b \<le> Score a) (rep_Filter sort_slice rc reps)"
    using assms(1) by (simp_all add: sorts_by_score_def rep_Filter_def kept not_less)
  moreover from this have "set (rep_Filter sort_slice rc reps) \<subseteq> set reps"
    by (metis filter_is_subset set_mset_mset)
  then have "list_all (\<lambda>r. 0 \<le> Score r \<and> Score r \<le> 1) (rep_Filter sort_slice rc reps)"
    using fetched by (auto simp: list_all_iff)
  ultimately show ?thesis by blast
qed

subsection \<open>How old an entry may be\<close>

text \<open>The cache has one date for all countries, and storing a country's relays renews it for the
  others: once country \<open>b\<close> has been fetched, a check of country \<open>a\<close> within the cache's life returns
  the entries of the old cache without asking the service, however long ago they were fetched.\<close>

theorem stale_entries_revived:
  assumes "rep_readCache env file = Inr (Some old)" and "Entries old (toUpper a) = Some stale"
    and "toUpper a \<noteq> toUpper b"
    and "rep_cacheTTL rc \<le> now_check clk1 - rep_FetchedAt old"
    and "rep_fetchFromAPI env rc (now_fetch clk1) (toUpper b) = Inr (r # rs)"
    and "rep_MkdirAll env (dirOf (rep_cachePath rc)) = None" and "rep_WriteFile env (rep_cachePath rc) = None"
    and "written = \<lparr>rep_FetchedAt = now_write clk1, Entries = (Entries old)(toUpper b \<mapsto> r # rs)\<rparr>"
    and "rep_Marshal env written = Inr d" and "rep_Unmarshal env d = Inr written"
    and "now_check clk2 - now_write clk1 < rep_cacheTTL rc" and "rep_Unmarshal env' = rep_Unmarshal env"
  shows "\<exists>file'. rep_Check env rc clk1 b file = (Inr (r # rs), file') \<and>
    rep_Check env' rc clk2 a file' = (Inr stale, file')"
proof -
  have "rep_Check env rc clk1 b file = (Inr (r # rs), Inr d)"
    using assms by (simp add: rep_Check_def rep_writeCache_def Let_def)
  moreover have "rep_Check env' rc clk2 a (Inr d) = (Inr stale, Inr d)"
    using assms by (simp add: rep_Check_def rep_readCache_def Let_def)
  ultimately show ?thesis by blast
qed

subsection \<open>Concrete runs\<close>

definition demo_relay :: onionooDetailsRelay where
  "demo_relay = \<lparr>det_Fingerprint = ''F00D'', det_Country = ''se'', ObservedBandwidth = 20000000,
     det_Flags = [''Exit'', ''Fast''], FirstSeen = ''2024-01-01''\<rparr>"

definition demo_checker :: ReputationChecker where
  "demo_checker = NewReputationChecker ''/tmp/splitter/reputation.json''"

text \<open>One hundred days after the cache was written.\<close>

definition demo_clock :: rep_clock where
  "demo_clock = \<lparr>now_check = 8640000000000000, now_fetch = 8640000000000000, now_write = 8640000000000000\<rparr>"

definition demo_stale :: reputationCache where
  "demo_stale = \<lparr>rep_FetchedAt = 0, Entries = [''DE'' \<mapsto> []]\<rparr>"

definition demo_written :: "ExitReputation list \<Rightarrow> reputationCache" where
  "demo_written rs = \<lparr>rep_FetchedAt = 8640000000000000, Entries = [''DE'' \<mapsto> [], ''SE'' \<mapsto> rs]\<rparr>"

definition demo_rep_env :: "ExitReputation list \<Rightarrow> rep_env" where
  "demo_rep_env rs =
     \<lparr>rep_Do = (\<lambda>url. Inr (200, Inr [demo_relay])), rep_Marshal = (\<lambda>c. Inr ''new''),
      rep_Unmarshal = (\<lambda>d. if d = ''new'' then Inr (demo_written rs) else Inr demo_stale),
      rep_MkdirAll = (\<lambda>p. None), rep_WriteFile = (\<lambda>p. None),
      parse_date = (\<lambda>s. Some 0), parse_datetime = (\<lambda>s. None)\<rparr>"

definition demo_reputation :: ExitReputation where
  "demo_reputation = reputation_of (demo_rep_env []) demo_checker (now_fetch demo_clock) demo_relay"

lemma demo_fetch: "rep_fetchFromAPI (demo_rep_env rs) demo_checker (now_fetch demo_clock) c = Inr [demo_reputation]"
  by (simp add: rep_fetchFromAPI_def demo_rep_env_def demo_reputation_def reputation_of_def daysSinceFirstSeen_def)

lemma demo_reputation_values:
  "UptimeDays demo_reputation = 100" "Score demo_reputation = 4 / 5" "Bandwidth demo_reputation = 20000000"
  by (simp_all add: demo_reputation_def reputation_of_def daysSinceFirstSeen_def demo_rep_env_def demo_clock_def
      demo_relay_def demo_checker_def NewReputationChecker_def computeScore_def Let_def)

lemma good_relays_witness:
  "rep_Filter (\<lambda>rs. sort_key (\<lambda>r. - Score r) rs) demo_checker [demo_reputation] = [demo_reputation] \<and>
   Score demo_reputation = 4 / 5"
proof -
  have "sorted_wrt (\<lambda>a b. \<not> Score a < Score b) (sort_key (\<lambda>r. - Score r) rs)" for rs :: "ExitReputation list"
    using sorted_sort_key [of "\<lambda>r. - Score r" rs] by (simp add: sorted_wrt_map not_less)
  then have "sorts_by_score (\<lambda>rs. sort_key (\<lambda>r. - Score r) rs)"
    by (simp add: sorts_by_score_def)
  from good_relays [OF this demo_fetch [of "[]"]]
  have "mset (rep_Filter (\<lambda>rs. sort_key (\<lambda>r. - Score r) rs) demo_checker [demo_reputation]) = {#demo_reputation#}"
    by (simp add: demo_reputation_values demo_checker_def NewReputationChecker_def)
  then show ?thesis by (simp add: demo_reputation_values)
qed

lemma stale_entries_revived_witness:
  "\<exists>file'. rep_Check (demo_rep_env [demo_reputation]) demo_checker demo_clock ''se'' (Inr ''old'')
      = (Inr [demo_reputation], file') \<and>
    rep_Check (demo_rep_env [demo_reputation]) demo_checker demo_clock ''de'' file' = (Inr [], file')"
proof -
  let ?env = "demo_rep_env [demo_reputation]"
  have up: "toUpper ''de'' = ''DE''" "toUpper ''se'' = ''SE''" by (simp_all add: go_eval)
  have env: "rep_Marshal ?env c = Inr ''new''" "rep_Unmarshal ?env ''new'' = Inr (demo_written [demo_reputation])"
    "rep_Unmarshal ?env ''old'' = Inr demo_stale" "rep_MkdirAll ?env p = None" "rep_WriteFile ?env p = None" for c p
    by (simp_all add: demo_rep_env_def)
  have clock: "now_check demo_clock = 8640000000000000" "now_write demo_clock = 8640000000000000"
    "rep_cacheTTL demo_checker = 43200000000000"
    by (simp_all add: demo_clock_def demo_checker_def NewReputationChecker_def)
  have written: "demo_written [demo_reputation] =
      \<lparr>rep_FetchedAt = now_write demo_clock, Entries = (Entries demo_stale)(''SE'' \<mapsto> [demo_reputation])\<rparr>"
    by (simp add: demo_written_def demo_stale_def clock)
  show ?thesis
    by (rule stale_entries_revived [OF _ _ _ _ demo_fetch _ _ _ env(1,2), where old = demo_stale])
       (simp_all add: up env rep_readCache_def written clock, simp_all add: demo_stale_def)
qed

end
