(* ===== verification/Metrics_Registry.thy ===== *)
theory Metrics_Registry
  imports Go_Prelude Complex_Main "HOL-Library.Char_ord" "HOL-Library.List_Lexorder" "HOL-Library.AList"
begin

section \<open>Metrics (internal/metrics/registry.go and splitter.go)\<close>

text \<open>
  A registry is a list of metrics; the pointer the code holds to a metric is its place in the
  list. A metric has a value of its own and a list of labelled values. A label map is an
  association list, read only through its sorted keys. Values are exact; \<open>fmt_g\<close> prints one as
  \<open>%g\<close> does. Every operation runs under the metric's lock.
\<close>

datatype metricType = TypeCounter | TypeGauge

fun metricType_String :: "metricType \<Rightarrow> string" where
  "metricType_String TypeCounter = ''counter''"
| "metricType_String TypeGauge = ''gauge''"

record labeledValue =
  labels :: "(string \<times> string) list"
  label_value :: rat

record metric =
  metric_name :: string
  metric_help :: string
  mtype :: metricType
  self :: rat
  labeled :: "labeledValue list"

subsection \<open>Labels\<close>

fun label_loop :: "string list \<Rightarrow> (string \<times> string) list \<Rightarrow> (string \<times> string) list" where
  "label_loop (k # v # rest) m = label_loop rest (AList.update k v m)"
| "label_loop rest m = m"

definition labelMap :: "string list \<Rightarrow> (string \<times> string) list" where
  "labelMap pairs = label_loop pairs []"

definition labelKeyFromMap :: "(string \<times> string) list \<Rightarrow> string" where
  "labelKeyFromMap m =
     join_with '','' (map (\<lambda>k. k @ ''='' @ the (map_of m k)) (sort (map fst m)))"

definition labelKey :: "string list \<Rightarrow> string" where
  "labelKey pairs = labelKeyFromMap (labelMap pairs)"

subsection \<open>One metric\<close>

definition Inc :: "metric \<Rightarrow> metric" where
  "Inc m = m\<lparr>self := self m + 1\<rparr>"

definition Metric_Add :: "rat \<Rightarrow> metric \<Rightarrow> metric" where
  "Metric_Add v m = m\<lparr>self := self m + v\<rparr>"

definition Metric_Set :: "rat \<Rightarrow> metric \<Rightarrow> metric" where
  "Metric_Set v m = m\<lparr>self := v\<rparr>"

text \<open>The loop both labelled operations share: the first series with the key is changed by
  \<open>upd\<close>, and a new one starts with \<open>v\<close> if there is none.\<close>

fun update_series :: "string \<Rightarrow> (rat \<Rightarrow> rat) \<Rightarrow> labeledValue \<Rightarrow> labeledValue list \<Rightarrow> labeledValue list" where
  "update_series key upd fresh [] = [fresh]"
| "update_series key upd fresh (lv # lvs) =
     (if labelKeyFromMap (labels lv) = key then lv\<lparr>label_value := upd (label_value lv)\<rparr> # lvs
      else lv # update_series key upd fresh lvs)"

definition IncWithLabels :: "string list \<Rightarrow> metric \<Rightarrow> metric" where
  "IncWithLabels pairs m =
     m\<lparr>labeled := update_series (labelKey pairs) (\<lambda>x. x + 1)
        \<lparr>labels = labelMap pairs, label_value = 1\<rparr> (labeled m)\<rparr>"

definition SetWithLabels :: "rat \<Rightarrow> string list \<Rightarrow> metric \<Rightarrow> metric" where
  "SetWithLabels v pairs m =
     m\<lparr>labeled := update_series (labelKey pairs) (\<lambda>x. v)
        \<lparr>labels = labelMap pairs, label_value = v\<rparr> (labeled m)\<rparr>"

subsection \<open>Rendering\<close>

text \<open>\<open>%q\<close>: a quoted string; bytes from 128 on are left alone.\<close>

definition hex_digits :: "nat \<Rightarrow> string" where
  "hex_digits n = [''0123456789abcdef'' ! (n div 16), ''0123456789abcdef'' ! (n mod 16)]"

definition quote_char :: "char \<Rightarrow> string" where
  "quote_char c =
     (let n = (of_char c :: nat) in
      if n = 34 then [CHR 0x5C, CHR 0x22] else if n = 92 then [CHR 0x5C, CHR 0x5C]
      else if n = 7 then CHR 0x5C # ''a'' else if n = 8 then CHR 0x5C # ''b''
      else if n = 12 then CHR 0x5C # ''f'' else if n = 10 then CHR 0x5C # ''n''
      else if n = 13 then CHR 0x5C # ''r'' else if n = 9 then CHR 0x5C # ''t''
      else if n = 11 then CHR 0x5C # ''v''
      else if n < 32 \<or> n = 127 then CHR 0x5C # ''x'' @ hex_digits n else [c])"

definition quote :: "string \<Rightarrow> string" where
  "quote s = [CHR 0x22] @ concat (map quote_char s) @ [CHR 0x22]"

definition newline :: string where
  "newline = [CHR 0x0A]"

definition renderValue :: "(rat \<Rightarrow> string) \<Rightarrow> string \<Rightarrow> (string \<times> string) list \<Rightarrow> rat \<Rightarrow> string" where
  "renderValue fmt_g name ls v =
     (if length ls = 0 then name @ '' '' @ fmt_g v @ newline
      else name @ ''{'' @ join_with '','' (map (\<lambda>k. k @ ''='' @ quote (the (map_of ls k))) (sort (map fst ls)))
             @ ''} '' @ fmt_g v @ newline)"

definition render :: "(rat \<Rightarrow> string) \<Rightarrow> metric \<Rightarrow> string" where
  "render fmt_g m =
     ''# HELP '' @ metric_name m @ '' '' @ metric_help m @ newline @
     ''# TYPE '' @ metric_name m @ '' '' @ metricType_String (mtype m) @ newline @
     (if self m \<noteq> 0 \<or> length (labeled m) = 0 then renderValue fmt_g (metric_name m) [] (self m) else []) @
     concat (map (\<lambda>lv. renderValue fmt_g (metric_name m) (labels lv) (label_value lv)) (labeled m))"

subsection \<open>The registry\<close>

type_synonym Registry = "metric list"

fun find_metric :: "string \<Rightarrow> Registry \<Rightarrow> nat option" where
  "find_metric name [] = None"
| "find_metric name (m # ms) =
     (if metric_name m = name then Some 0 else map_option Suc (find_metric name ms))"

definition newMetric :: "string \<Rightarrow> string \<Rightarrow> metricType \<Rightarrow> Registry \<Rightarrow> nat \<times> Registry" where
  "newMetric name h mt r =
     (case find_metric name r of
        Some k \<Rightarrow> (k, r)
      | None \<Rightarrow> (length r, r @ [\<lparr>metric_name = name, metric_help = h, mtype = mt, self = 0, labeled = []\<rparr>]))"

definition NewCounter :: "string \<Rightarrow> string \<Rightarrow> Registry \<Rightarrow> nat \<times> Registry" where
  "NewCounter name h r = newMetric name h TypeCounter r"

definition NewGauge :: "string \<Rightarrow> string \<Rightarrow> Registry \<Rightarrow> nat \<times> Registry" where
  "NewGauge name h r = newMetric name h TypeGauge r"

definition Registry_Render :: "(rat \<Rightarrow> string) \<Rightarrow> Registry \<Rightarrow> string" where
  "Registry_Render fmt_g r = concat (map (render fmt_g) r)"

definition on_metric :: "nat \<Rightarrow> (metric \<Rightarrow> metric) \<Rightarrow> Registry \<Rightarrow> Registry" where
  "on_metric k f r = r[k := f (r ! k)]"

subsection \<open>The program's metrics\<close>

record SplitterMetrics =
  InstancesTotal :: nat
  InstancesActive :: nat
  InstanceState :: nat
  InstanceCountry :: nat
  CircuitsTotal :: nat
  CircuitRenewalsTotal :: nat
  ErrorsTotal :: nat
  BootstrapProgress :: nat

definition NewSplitterMetrics :: "Registry \<Rightarrow> SplitterMetrics \<times> Registry" where
  "NewSplitterMetrics r0 =
     (let (a, r1) = NewGauge ''splitter_instances_total'' ''Total number of tor instances'' r0;
          (b, r2) = NewGauge ''splitter_instances_active'' ''Number of instances in ready state'' r1;
          (c, r3) = NewGauge ''splitter_instance_state'' ''Per-instance state (1=current state)'' r2;
          (d, r4) = NewGauge ''splitter_instance_country'' ''Per-instance country assignment'' r3;
          (e, r5) = NewCounter ''splitter_circuits_total'' ''Total circuits created'' r4;
          (f, r6) = NewCounter ''splitter_circuit_renewals_total'' ''Per-instance NEWNYM count'' r5;
          (g, r7) = NewCounter ''splitter_errors_total'' ''Total errors encountered'' r6;
          (h, r8) = NewGauge ''splitter_bootstrap_progress'' ''Per-instance bootstrap progress 0-100'' r7
      in (\<lparr>InstancesTotal = a, InstancesActive = b, InstanceState = c, InstanceCountry = d,
           CircuitsTotal = e, CircuitRenewalsTotal = f, ErrorsTotal = g, BootstrapProgress = h\<rparr>, r8))"

definition SetInstanceCount :: "SplitterMetrics \<Rightarrow> int \<Rightarrow> int \<Rightarrow> Registry \<Rightarrow> Registry" where
  "SetInstanceCount sm n_total n_active r =
     on_metric (InstancesActive sm) (Metric_Set (of_int n_active))
       (on_metric (InstancesTotal sm) (Metric_Set (of_int n_total)) r)"

definition SetInstanceState :: "SplitterMetrics \<Rightarrow> string \<Rightarrow> string \<Rightarrow> Registry \<Rightarrow> Registry" where
  "SetInstanceState sm instanceID state r =
     on_metric (InstanceState sm) (SetWithLabels 1 [''instance_id'', instanceID, ''state'', state]) r"

definition SetInstanceCountry :: "SplitterMetrics \<Rightarrow> string \<Rightarrow> string \<Rightarrow> Registry \<Rightarrow> Registry" where
  "SetInstanceCountry sm instanceID country r =
     on_metric (InstanceCountry sm) (SetWithLabels 1 [''instance_id'', instanceID, ''country'', country]) r"

definition IncCircuits :: "SplitterMetrics \<Rightarrow> Registry \<Rightarrow> Registry" where
  "IncCircuits sm r = on_metric (CircuitsTotal sm) Inc r"

definition IncCircuitRenewal :: "SplitterMetrics \<Rightarrow> string \<Rightarrow> Registry \<Rightarrow> Registry" where
  "IncCircuitRenewal sm instanceID r =
     on_metric (CircuitRenewalsTotal sm) (IncWithLabels [''instance_id'', instanceID]) r"

definition IncErrors :: "SplitterMetrics \<Rightarrow> Registry \<Rightarrow> Registry" where
  "IncErrors sm r = on_metric (ErrorsTotal sm) Inc r"

definition SetBootstrapProgress :: "SplitterMetrics \<Rightarrow> string \<Rightarrow> rat \<Rightarrow> Registry \<Rightarrow> Registry" where
  "SetBootstrapProgress sm instanceID progress r =
     on_metric (BootstrapProgress sm) (SetWithLabels progress [''instance_id'', instanceID]) r"

subsection \<open>Counting by instance\<close>

definition by_id :: "string \<Rightarrow> rat \<Rightarrow> labeledValue" where
  "by_id i n = \<lparr>labels = [(''instance_id'', i)], label_value = n\<rparr>"

lemma id_labels [simp]: "labelMap [''instance_id'', i] = [(''instance_id'', i)]"
  by (simp add: labelMap_def)

lemma id_key: "labelKeyFromMap [(''instance_id'', i)] = ''instance_id='' @ i"
  by (simp add: labelKeyFromMap_def)

text \<open>Each name once, in the order of its first appearance.\<close>

fun first_seen :: "string list \<Rightarrow> string list" where
  "first_seen ids = rev (remdups (rev ids))"

lemma set_first_seen [simp]: "set (first_seen ids) = set ids"
  by simp

lemma first_seen_snoc:
  "first_seen (ids @ [i]) = (if i \<in> set ids then first_seen ids else first_seen ids @ [i])"
  by simp

declare first_seen.simps [simp del]

lemma update_by_id:
  assumes "distinct xs"
  shows "update_series (''instance_id='' @ i) (\<lambda>x. x + 1) (by_id i 1) (map (\<lambda>j. by_id j (f j)) xs) =
    (if i \<in> set xs then map (\<lambda>j. by_id j (if j = i then f j + 1 else f j)) xs
     else map (\<lambda>j. by_id j (f j)) xs @ [by_id i 1])"
  using assms
proof (induction xs)
  case (Cons x xs)
  have key: "labelKeyFromMap (labels (by_id x (f x))) = ''instance_id='' @ x"
    by (simp add: by_id_def id_key)
  show ?case
  proof (cases "x = i")
    case True
    with Cons.prems have "map (\<lambda>j. by_id j (if j = i then f j + 1 else f j)) xs = map (\<lambda>j. by_id j (f j)) xs"
      by auto
    with True key show ?thesis by (simp add: by_id_def)
  next
    case False
    with Cons key show ?thesis by auto
  qed
qed simp

lemma distinct_first_seen: "distinct (first_seen ids)"
  by (simp add: first_seen.simps)

text \<open>However many renewals of however many instances are counted, the metric has one series for each
  instance that had any, in the order of their first renewal, and its value is the number of
  renewals of that instance; the metric's own value stays as it was.\<close>

theorem renewals_counted:
  "let m = foldl (\<lambda>m i. IncWithLabels [''instance_id'', i] m)
        \<lparr>metric_name = name, metric_help = h, mtype = TypeCounter, self = 0, labeled = []\<rparr> ids
   in labeled m = map (\<lambda>i. \<lparr>labels = [(''instance_id'', i)], label_value = of_nat (count_list ids i)\<rparr>) (first_seen ids)
      \<and> self m = 0"
proof -
  let ?m0 = "\<lparr>metric_name = name, metric_help = h, mtype = TypeCounter, self = 0, labeled = []\<rparr>"
  let ?f = "foldl (\<lambda>m i. IncWithLabels [''instance_id'', i] m) ?m0"
  have "labeled (?f ids) = map (\<lambda>i. by_id i (of_nat (count_list ids i))) (first_seen ids) \<and> self (?f ids) = 0"
  proof (induction ids rule: rev_induct)
    case (snoc i ids)
    have count: "count_list (ids @ [i]) j = (if j = i then Suc (count_list ids j) else count_list ids j)" for j
      by simp
    have "labeled (?f (ids @ [i])) = update_series (''instance_id='' @ i) (\<lambda>x. x + 1) (by_id i 1)
        (map (\<lambda>j. by_id j (of_nat (count_list ids j))) (first_seen ids))"
      using snoc by (simp add: IncWithLabels_def labelKey_def id_key by_id_def)
    also have "\<dots> = map (\<lambda>j. by_id j (of_nat (count_list (ids @ [i]) j))) (first_seen (ids @ [i]))"
    proof (cases "i \<in> set ids")
      case True
      then show ?thesis
        unfolding update_by_id [OF distinct_first_seen] first_seen_snoc
        by (simp add: count)
    next
      case False
      then have "map (\<lambda>j. by_id j (of_nat (count_list (ids @ [i]) j))) (first_seen ids)
          = map (\<lambda>j. by_id j (of_nat (count_list ids j))) (first_seen ids)"
        by (intro map_cong) auto
      with False show ?thesis
        unfolding update_by_id [OF distinct_first_seen] first_seen_snoc
        by (simp add: count_list_0_iff)
    qed
    finally show ?case using snoc by (simp add: IncWithLabels_def)
  qed (simp add: first_seen.simps)
  then show ?thesis by (simp add: by_id_def Let_def)
qed

subsection \<open>States that are no longer current\<close>

lemma SplitterMetrics_fresh:
  "InstanceState (fst (NewSplitterMetrics [])) = 2 \<and> length (snd (NewSplitterMetrics [])) = 8 \<and>
   labeled (snd (NewSplitterMetrics []) ! 2) = []"
  by (simp add: NewSplitterMetrics_def NewGauge_def NewCounter_def newMetric_def)

lemma state_labels:
  "labelMap [''instance_id'', i, ''state'', s] = [(''instance_id'', i), (''state'', s)]"
  "labelKeyFromMap [(''instance_id'', i), (''state'', s)] = ''instance_id='' @ i @ '',state='' @ s"
proof -
  show "labelMap [''instance_id'', i, ''state'', s] = [(''instance_id'', i), (''state'', s)]"
    by (simp add: labelMap_def)
  have "''instance_id'' \<le> ''state''" by code_simp
  then show "labelKeyFromMap [(''instance_id'', i), (''state'', s)] = ''instance_id='' @ i @ '',state='' @ s"
    by (simp add: labelKeyFromMap_def)
qed

text \<open>The state metric is said to be 1 for the current state, but a series is never taken back: after
  an instance went from one state to another both series stand at 1, and they are the only ones.\<close>

theorem old_state_stays_current:
  assumes "st1 \<noteq> st2" and "(sm, r0) = NewSplitterMetrics []"
  shows "labeled (SetInstanceState sm i st2 (SetInstanceState sm i st1 r0) ! InstanceState sm) =
    [\<lparr>labels = [(''instance_id'', i), (''state'', st1)], label_value = 1\<rparr>,
     \<lparr>labels = [(''instance_id'', i), (''state'', st2)], label_value = 1\<rparr>]"
proof -
  have "InstanceState sm = 2" "length r0 = 8" "labeled (r0 ! 2) = []"
    using SplitterMetrics_fresh assms(2) by (metis fst_conv snd_conv)+
  with assms(1) show ?thesis
    by (simp add: SetInstanceState_def on_metric_def SetWithLabels_def labelKey_def state_labels)
qed

lemma old_state_stays_current_witness:
  "let (sm, r0) = NewSplitterMetrics [] in
   map label_value (labeled (SetInstanceState sm ''1'' ''failed'' (SetInstanceState sm ''1'' ''ready'' r0) ! InstanceState sm))
     = [1, 1]"
  using old_state_stays_current [of "''ready''" "''failed''" "fst (NewSplitterMetrics [])" "snd (NewSplitterMetrics [])" "''1''"]
  by (simp add: case_prod_beta)

end
