(* ===== verification/Config_Text.thy ===== *)
theory Config_Text
  imports Go_Prelude
begin

section \<open>Configuration files as lines of text\<close>

text \<open>
  The three programs that splitter starts read line-based configuration files, which splitter
  writes with \<open>text/template\<close>. A template is a list of lines here: an action with a trimming
  dash (\<open>{{- if ..}}\<close>) takes away the line break before it, so a conditional block is a list of
  whole lines. The lemmas say how such a file is read back.
\<close>

definition newline_char :: char where
  "newline_char = CHR 0x0A"

definition file_of :: "string list \<Rightarrow> string" where
  "file_of ls = concat (map (\<lambda>l. l @ [newline_char]) ls)"

text \<open>The lines of a file whose last line is ended too.\<close>

definition lines_of :: "string \<Rightarrow> string list" where
  "lines_of s = butlast (split_on newline_char s)"

definition unbroken :: "string \<Rightarrow> bool" where
  "unbroken s \<longleftrightarrow> newline_char \<notin> set s"

lemma split_on_file_of:
  "list_all unbroken ls \<Longrightarrow> split_on newline_char (file_of ls) = ls @ [[]]"
  by (induction ls) (simp_all add: file_of_def unbroken_def split_on_append)

lemma lines_of_file_of: "list_all unbroken ls \<Longrightarrow> lines_of (file_of ls) = ls"
  by (simp add: lines_of_def split_on_file_of)

lemma unbroken_simps [simp]:
  "unbroken []" "unbroken (c # s) \<longleftrightarrow> c \<noteq> newline_char \<and> unbroken s"
  "unbroken (s @ t) \<longleftrightarrow> unbroken s \<and> unbroken t"
  by (auto simp: unbroken_def)

lemma newline_neq [simp]: "c \<noteq> CHR 0x0A \<Longrightarrow> c \<noteq> newline_char"
  by (simp add: newline_char_def)

lemma unbroken_itoa [simp]: "unbroken (itoa i)"
proof -
  have "\<not> is_digit (CHR 0x0A)" by (simp add: is_digit_def go_eval)
  then show ?thesis using itoa_chars by (fastforce simp: unbroken_def newline_char_def)
qed

lemma unbroken_join: "unbroken sep \<Longrightarrow> list_all unbroken xs \<Longrightarrow> unbroken (join_with sep xs)"
  by (induction sep xs rule: join_with.induct) simp_all

text \<open>The package functions that render a template given as a string: parsed, then executed on the data.\<close>

datatype render_error = RenderParse string | RenderExecute string

definition render_text ::
  "(string \<Rightarrow> string + 't) \<Rightarrow> ('t \<Rightarrow> 'd \<Rightarrow> string + string) \<Rightarrow> 'd \<Rightarrow> string \<Rightarrow> render_error + string" where
  "render_text tmpl_Parse tmpl_Execute data tmplStr =
     (case tmpl_Parse tmplStr of
        Inl err \<Rightarrow> Inl (RenderParse err)
      | Inr tmpl \<Rightarrow> (case tmpl_Execute tmpl data of Inl err \<Rightarrow> Inl (RenderExecute err) | Inr out \<Rightarrow> Inr out))"

subsection \<open>Settings: a keyword, a blank and a value\<close>

text \<open>All the values that a file gives a keyword, in order.\<close>

fun settings :: "string \<Rightarrow> string list \<Rightarrow> string list" where
  "settings key [] = []"
| "settings key (l # ls) =
     (if hasPrefix l (key @ '' '') then drop (length key + 1) l # settings key ls else settings key ls)"

lemma settings_append [simp]: "settings key (xs @ ys) = settings key xs @ settings key ys"
  by (induction xs) simp_all

lemma settings_none: "list_all (\<lambda>l. \<not> hasPrefix l (key @ '' '')) ls \<Longrightarrow> settings key ls = []"
  by (induction ls) simp_all

lemma hasPrefix_Cons [simp]:
  "hasPrefix s []" "\<not> hasPrefix [] (c # p)" "hasPrefix (d # s) (c # p) \<longleftrightarrow> d = c \<and> hasPrefix s p"
  by (auto simp: hasPrefix_def)

lemma hasPrefix_keyword:
  "CHR '' '' \<notin> set key \<Longrightarrow> CHR '' '' \<notin> set kw \<Longrightarrow>
   hasPrefix (kw @ CHR '' '' # v) (key @ '' '') \<longleftrightarrow> key = kw"
proof (induction key arbitrary: kw)
  case Nil
  then show ?case by (cases kw) auto
next
  case (Cons c key)
  then show ?case by (cases kw) auto
qed

end
