(* ===== verification/Torrc.thy ===== *)
theory Torrc
  imports Tor_Manager Config_Text
begin

section \<open>The torrc of an instance (templates/torrc.gotmpl)\<close>

text \<open>
  The template is written out as the lines it produces, and the file of an instance is read back the
  way Tor reads it: one keyword and its value per line. An integer counts as true in a template
  when it is not 0, a string when it is not empty.
\<close>

text \<open>U+2014 in UTF-8.\<close>

definition em_dash :: string where
  "em_dash = [CHR 0xE2, CHR 0x80, CHR 0x94]"

text \<open>The comment at the top, the settings before the relay restriction, the restriction, and the rest.\<close>

definition torrc_head :: "InstanceConfig \<Rightarrow> string list" where
  "torrc_head ic =
     [''# SPLITTER Tor Instance '' @ itoa (ic_InstanceID ic),
      ''# Country: '' @ ic_Country ic,
      ''# Generated automatically - do not edit'']"

definition torrc_network :: "InstanceConfig \<Rightarrow> string list" where
  "torrc_network ic =
     [[],
      ''RunAsDaemon 0'',
      ''SafeLogging 1'',
      ''Log notice stderr'',
      [],
      ''# Network''] @
     (if ic_StreamIsolation ic then [''SocksPort '' @ itoa (ic_SocksPort ic) @ '' IsolateSOCKSAuth'']
      else [''SocksPort '' @ itoa (ic_SocksPort ic)]) @
     [''ControlPort '' @ itoa (ic_ControlPort ic)] @
     (if ic_HTTPTunnelPort ic \<noteq> 0 then [''HTTPTunnelPort '' @ itoa (ic_HTTPTunnelPort ic)]
      else []) @
     [[],
      ''# Auth'',
      ''CookieAuthentication 1'',
      ''CookieAuthFile '' @ ic_DataDir ic @ ''/control_auth_cookie'',
      [],
      ''# Paths'',
      ''DataDirectory '' @ ic_DataDir ic,
      ''GeoIPFile /usr/share/tor/geoip'',
      ''GeoIPv6File /usr/share/tor/geoip6'',
      [],
      ''# Circuit'',
      ''CircuitBuildTimeout '' @ itoa (ic_CircuitBuildTimeout ic),
      ''CircuitStreamTimeout '' @ itoa (ic_CircuitStreamTimeout ic),
      ''MaxCircuitDirtiness '' @ itoa (ic_MaxCircuitDirtiness ic),
      ''NewCircuitPeriod '' @ itoa (ic_NewCircuitPeriod ic),
      ''LearnCircuitBuildTimeout '' @ itoa (ic_LearnCircuitBuildTimeout ic),
      [],
      ''# Performance''] @
     (if ic_CongestionControlAuto ic then [''CongestionControlAuto 1'']
      else []) @
     (if ic_ConfluxEnabled ic then [''ConfluxEnabled 1'']
      else []) @
     [[],
      [],
      ''# Security'',
      ''ClientOnly '' @ itoa (ic_ClientOnly ic),
      ''SafeSocks '' @ itoa (ic_SafeSocks ic),
      ''TestSocks '' @ itoa (ic_TestSocks ic),
      ''ClientRejectInternalAddresses '' @ itoa (ic_ClientRejectInternalAddresses ic),
      ''StrictNodes '' @ itoa (ic_StrictNodes ic),
      ''GeoIPExcludeUnknown '' @ itoa (ic_GeoIPExcludeUnknown ic),
      ''ClientUseIPv4 1''] @
     (if ic_ClientUseIPv6 ic then [''ClientUseIPv6 1'']
      else [''ClientUseIPv6 0'']) @
     [''EnforceDistinctSubnets 1'',
      ''DisableDebuggerAttachment 1'',
      ''NoExec 1'',
      [],
      ''# Firewall'',
      ''FascistFirewall '' @ itoa (ic_FascistFirewall ic)] @
     (if ic_FascistFirewall ic \<noteq> 0 then [''FirewallPorts '' @ join_with '','' (map itoa (ic_FirewallPorts ic))]
      else []) @
     [''LongLivedPorts '' @ join_with '','' (map itoa (ic_LongLivedPorts ic)),
      [],
      ''# Circuit tuning'',
      ''MaxClientCircuitsPending '' @ itoa (ic_MaxClientCircuitsPending ic),
      ''SocksTimeout '' @ itoa (ic_SocksTimeout ic),
      ''TrackHostExitsExpire '' @ itoa (ic_TrackHostExitsExpire ic),
      ''UseEntryGuards '' @ itoa (ic_UseEntryGuards ic),
      ''NumEntryGuards '' @ itoa (ic_NumEntryGuards ic),
      ''KeepalivePeriod '' @ itoa (ic_KeepalivePeriod ic),
      []]"

definition torrc_relay :: "InstanceConfig \<Rightarrow> string list" where
  "torrc_relay ic =
     [''# Relay enforcement''] @
     (if ic_RelayEnforce ic = ''entry'' then [''EntryNodes '' @ ic_Country ic]
      else if ic_RelayEnforce ic = ''exit'' then [''ExitNodes '' @ ic_Country ic]
      else [''# speed mode - no country restriction''])"

definition torrc_rest :: "InstanceConfig \<Rightarrow> string list" where
  "torrc_rest ic =
     [[],
      ''# Hidden service''] @
     (if ic_HiddenServiceEnabled ic then [''HiddenServiceDir '' @ ic_HiddenServiceDir ic,
      ''HiddenServicePort '' @ itoa (ic_HiddenServicePort ic)]
      else []) @
     [[],
      ''# Padding'',
      ''ConnectionPadding '' @ itoa (ic_ConnectionPadding ic),
      ''ReducedConnectionPadding '' @ itoa (ic_ReducedConnectionPadding ic),
      [],
      ''# Misc'',
      ''AutomapHostsSuffixes '' @ ic_AutomapHostsSuffixes ic,
      ''WarnPlaintextPorts '' @ ic_WarnPlaintextPorts ic] @
     (if 0 < length (ic_RejectPlaintextPorts ic) then [''RejectPlaintextPorts '' @ ic_RejectPlaintextPorts ic]
      else []) @
     [[],
      ''# Bridge''] @
     (if ic_UseBridges ic then [''UseBridges 1''] @
     ic_BridgeLines ic @
     [''ClientTransportPlugin '' @ ic_ClientTransport ic @ '' exec /usr/bin/lyrebird'']
      else []) @
     [[],
      ''# Post-quantum key exchange (ML-KEM768)''] @
     (if ic_PostQuantumAvailable ic then [''# PQ status: Tor version supports post-quantum key exchange (automatic, no config needed)'']
      else [''# PQ status: Post-quantum key exchange not available (requires Tor >= 0.4.8.17 with OpenSSL 3.5.0+)'']) @
     [[],
      ''# Happy Families (Tor >= 0.4.9, proposal 321)''] @
     (if ic_HappyFamiliesAware ic then [''# Happy Families: enabled automatically by Tor 0.4.9+ '' @ em_dash @ '' relays from the same operator'',
      ''# are grouped to avoid assigning multiple circuit hops to the same family.'']
      else [''# Happy Families: not available (requires Tor >= 0.4.9)'']) @
     [[],
      ''# TLS 1.3 (Tor >= 0.4.9 recommends TLS 1.3)''] @
     (if ic_TLS13Recommended ic then [''# TLS 1.3: recommended and supported by Tor 0.4.9+ '' @ em_dash @ '' ensure the system OpenSSL'',
      ''# library supports TLS 1.3 for optimal link encryption (automatic, no config needed).'']
      else [''# TLS 1.3: not recommended for this Tor version (requires Tor >= 0.4.9)'']) @
     [[],
      ''# Sandbox (seccomp-bpf, Linux only)''] @
     (if ic_SandboxEnabled ic then [''Sandbox 1'']
      else [''# Sandbox: disabled (enable with --sandbox or use stealth profile; adds ~5%% latency)''])"

definition torrc_lines :: "InstanceConfig \<Rightarrow> string list" where
  "torrc_lines ic = torrc_head ic @ torrc_network ic @ torrc_relay ic @ torrc_rest ic"

lemmas torrc_defs = torrc_lines_def torrc_head_def torrc_network_def torrc_relay_def torrc_rest_def

definition torrc_file :: "InstanceConfig \<Rightarrow> string" where
  "torrc_file ic = file_of (torrc_lines ic)"

subsection \<open>Reading it back\<close>

definition RenderTorrc ::
  "(string \<Rightarrow> string + 't) \<Rightarrow> ('t \<Rightarrow> InstanceConfig \<Rightarrow> string + string) \<Rightarrow> InstanceConfig \<Rightarrow> string
    \<Rightarrow> render_error + string" where
  "RenderTorrc tmpl_Parse tmpl_Execute ic tmplStr = render_text tmpl_Parse tmpl_Execute ic tmplStr"

text \<open>No value brings a line break of its own, and bridge lines are bridge lines.\<close>

definition ic_unbroken :: "InstanceConfig \<Rightarrow> bool" where
  "ic_unbroken ic \<longleftrightarrow> list_all unbroken
     ([ic_Country ic, ic_DataDir ic, ic_HiddenServiceDir ic, ic_AutomapHostsSuffixes ic,
       ic_WarnPlaintextPorts ic, ic_RejectPlaintextPorts ic, ic_ClientTransport ic] @ ic_BridgeLines ic)"

definition bridge_lines_only :: "InstanceConfig \<Rightarrow> bool" where
  "bridge_lines_only ic \<longleftrightarrow> list_all (\<lambda>l. hasPrefix l ''Bridge '') (ic_BridgeLines ic)"

lemma unbroken_ints [simp]: "unbroken (join_with '','' (map itoa ns))"
  by (rule unbroken_join) (simp_all add: newline_char_def list_all_iff)

lemma torrc_lines_unbroken: "ic_unbroken ic \<Longrightarrow> list_all unbroken (torrc_lines ic)"
  by (simp add: torrc_defs ic_unbroken_def newline_char_def em_dash_def)

lemma torrc_file_lines: "ic_unbroken ic \<Longrightarrow> lines_of (torrc_file ic) = torrc_lines ic"
  by (simp add: torrc_file_def lines_of_file_of torrc_lines_unbroken)

text \<open>A keyword that is not a bridge's has no value among the bridge lines.\<close>

lemma settings_bridges:
  assumes "bridge_lines_only ic" and "\<And>r. \<not> hasPrefix (''Bridge '' @ r) (key @ '' '')"
  shows "settings key (ic_BridgeLines ic) = []"
proof (rule settings_none, unfold list_all_iff, rule ballI)
  fix l assume "l \<in> set (ic_BridgeLines ic)"
  then obtain r where "l = ''Bridge '' @ r"
    using assms(1) by (auto simp: bridge_lines_only_def list_all_iff hasPrefix_ex)
  with assms(2) show "\<not> hasPrefix l (key @ '' '')" by simp
qed

lemmas torrc_reading = torrc_defs settings_bridges if_distrib [of "settings _"]

lemma torrc_ports:
  assumes "bridge_lines_only ic"
  shows "settings ''SocksPort'' (torrc_lines ic) =
      [itoa (ic_SocksPort ic) @ (if ic_StreamIsolation ic then '' IsolateSOCKSAuth'' else [])]"
    and "settings ''ControlPort'' (torrc_lines ic) = [itoa (ic_ControlPort ic)]"
    and "settings ''HTTPTunnelPort'' (torrc_lines ic) =
      (if ic_HTTPTunnelPort ic \<noteq> 0 then [itoa (ic_HTTPTunnelPort ic)] else [])"
  using assms by (simp_all add: torrc_reading)

lemma torrc_paths:
  assumes "bridge_lines_only ic"
  shows "settings ''DataDirectory'' (torrc_lines ic) = [ic_DataDir ic]"
    and "settings ''CookieAuthentication'' (torrc_lines ic) = [''1'']"
    and "settings ''CookieAuthFile'' (torrc_lines ic) = [ic_DataDir ic @ ''/control_auth_cookie'']"
  using assms by (simp_all add: torrc_reading)

lemma torrc_countries:
  assumes "bridge_lines_only ic"
  shows "settings ''EntryNodes'' (torrc_lines ic) =
      (if ic_RelayEnforce ic = ''entry'' then [ic_Country ic] else [])"
    and "settings ''ExitNodes'' (torrc_lines ic) =
      (if ic_RelayEnforce ic = ''exit'' then [ic_Country ic] else [])"
  using assms by (simp_all add: torrc_reading)

lemma torrc_bridges:
  "settings ''Bridge'' (torrc_lines ic) =
     (if ic_UseBridges ic then settings ''Bridge'' (ic_BridgeLines ic) else [])"
  by (simp add: torrc_reading)

subsection \<open>What Tor is told about an instance\<close>

lemma buildInstanceConfig_fields:
  assumes "buildInstanceConfig sys cfg inst w = (ic, w')"
  shows "ic_SocksPort ic = inst_SocksPort inst" "ic_ControlPort ic = inst_ControlPort inst"
    and "ic_HTTPTunnelPort ic = inst_HTTPPort inst" "ic_Country ic = inst_Country inst"
    and "ic_DataDir ic = data_dir cfg inst" "ic_RelayEnforce ic = Enforce (Relay cfg)"
    and "ic_StreamIsolation ic = StreamIsolation (Tor cfg)"
    and "ic_BridgeLines ic = bridgeLines inst" "ic_UseBridges ic \<longleftrightarrow> bridgeLines inst \<noteq> []"
    and "ic_ClientTransport ic = bridgeTransport inst"
    and "ic_HiddenServiceDir ic = BasePath (HiddenService (Tor cfg)) @ itoa (inst_ID inst)"
    and "ic_AutomapHostsSuffixes ic = AutomapHostsSuffixes (Tor cfg)"
    and "ic_WarnPlaintextPorts ic = WarnPlaintextPorts (Tor cfg)"
    and "ic_RejectPlaintextPorts ic = RejectPlaintextPorts (Tor cfg)"
  using assms by (auto simp: buildInstanceConfig_def Let_def split: prod.splits if_splits)

text \<open>The strings that reach the file come from the configuration, the country and the bridges.\<close>

definition torrc_strings :: "Config \<Rightarrow> Instance \<Rightarrow> string list" where
  "torrc_strings cfg inst =
     [inst_Country inst, data_dir cfg inst, BasePath (HiddenService (Tor cfg)), AutomapHostsSuffixes (Tor cfg),
      WarnPlaintextPorts (Tor cfg), RejectPlaintextPorts (Tor cfg), bridgeTransport inst] @ bridgeLines inst"

text \<open>C15. Tor reads from the file written for an instance exactly one SOCKS and one control port,
  those of the instance, its HTTP tunnel port if it has one, the data directory and the cookie file
  in it, and the country of the instance as entry or exit node as the relay mode says, in no other
  mode; nothing else in the file sets one of these.\<close>

theorem torrc_read_back:
  assumes "buildInstanceConfig sys cfg inst w = (ic, w')"
    and "list_all unbroken (torrc_strings cfg inst)"
    and "list_all (\<lambda>l. hasPrefix l ''Bridge '') (bridgeLines inst)"
    and "ls = lines_of (torrc_file ic)"
  shows "settings ''SocksPort'' ls =
      [itoa (inst_SocksPort inst) @ (if StreamIsolation (Tor cfg) then '' IsolateSOCKSAuth'' else [])] \<and>
    settings ''ControlPort'' ls = [itoa (inst_ControlPort inst)] \<and>
    settings ''HTTPTunnelPort'' ls = (if inst_HTTPPort inst = 0 then [] else [itoa (inst_HTTPPort inst)]) \<and>
    settings ''DataDirectory'' ls = [data_dir cfg inst] \<and>
    settings ''CookieAuthentication'' ls = [''1''] \<and>
    settings ''CookieAuthFile'' ls = [data_dir cfg inst @ ''/control_auth_cookie''] \<and>
    settings ''EntryNodes'' ls = (if Enforce (Relay cfg) = ''entry'' then [inst_Country inst] else []) \<and>
    settings ''ExitNodes'' ls = (if Enforce (Relay cfg) = ''exit'' then [inst_Country inst] else [])"
proof -
  note fields = buildInstanceConfig_fields [OF assms(1)]
  have "ic_unbroken ic"
    using assms(2) by (simp add: ic_unbroken_def torrc_strings_def fields)
  then have ls: "ls = torrc_lines ic"
    by (simp add: assms(4) torrc_file_lines)
  have "bridge_lines_only ic"
    using assms(3) by (simp add: bridge_lines_only_def fields)
  then show ?thesis
    by (simp only: ls torrc_ports torrc_paths torrc_countries fields) simp
qed


text \<open>The file of an instance with bridges tells Tor to run a transport program and, on every instance,
  never to run a program: by Tor's manual the second wins, so bridges that need the program are
  not reached.\<close>

theorem torrc_bridges_without_exec:
  assumes "ic_unbroken ic" and "bridge_lines_only ic" and "ls = lines_of (torrc_file ic)"
  shows "settings ''NoExec'' ls = [''1''] \<and>
    settings ''ClientTransportPlugin'' ls =
      (if ic_UseBridges ic then [ic_ClientTransport ic @ '' exec /usr/bin/lyrebird''] else [])"
  using assms(2) by (simp add: assms(3) torrc_file_lines [OF assms(1)] torrc_reading)

text \<open>An instance in Germany, behind one bridge, on the default configuration.\<close>

definition demo_instance :: Instance where
  "demo_instance = (NewInstance 0 ''{DE}'' (Version 0 4 8 17))
     \<lparr>inst_SocksPort := 4999, inst_ControlPort := 5399, inst_HTTPPort := 5199,
      bridgeLines := [''Bridge obfs4 192.0.2.4:443'']\<rparr>"

definition demo_ic :: InstanceConfig where
  "demo_ic = fst (buildInstanceConfig demo_tor_sys Defaults demo_instance 0)"

lemma torrc_read_back_witness:
  "settings ''CookieAuthFile'' (lines_of (torrc_file demo_ic)) =
     [data_dir Defaults demo_instance @ ''/control_auth_cookie''] \<and>
   settings ''ControlPort'' (lines_of (torrc_file demo_ic)) = [''5399'']"
proof -
  obtain w' where b: "buildInstanceConfig demo_tor_sys Defaults demo_instance 0 = (demo_ic, w')"
    unfolding demo_ic_def by (metis prod.collapse)
  have "list_all unbroken (torrc_strings Defaults demo_instance)"
    by (simp add: torrc_strings_def demo_instance_def NewInstance_def data_dir_def Defaults_def
      filepath_Join_def path_clean_def clean_step.simps itoa_def decimal.simps digit_char_def go_eval newline_char_def)
  moreover have "list_all (\<lambda>l. hasPrefix l ''Bridge '') (bridgeLines demo_instance)"
    by (simp add: demo_instance_def)
  ultimately show ?thesis
    using torrc_read_back [OF b _ _ refl]
    by (simp add: demo_instance_def itoa_def decimal.simps digit_char_def go_eval)
qed

lemma torrc_bridges_without_exec_witness:
  "settings ''ClientTransportPlugin'' (lines_of (torrc_file (demo_ic\<lparr>ic_Country := [], ic_DataDir := [],
     ic_HiddenServiceDir := [], ic_ClientTransport := ''obfs4''\<rparr>))) = [''obfs4 exec /usr/bin/lyrebird'']"
proof -
  obtain w' where b: "buildInstanceConfig demo_tor_sys Defaults demo_instance 0 = (demo_ic, w')"
    unfolding demo_ic_def by (metis prod.collapse)
  let ?ic = "demo_ic\<lparr>ic_Country := [], ic_DataDir := [], ic_HiddenServiceDir := [], ic_ClientTransport := ''obfs4''\<rparr>"
  have "ic_unbroken ?ic" and "bridge_lines_only ?ic" and "ic_UseBridges ?ic"
    using buildInstanceConfig_fields [OF b]
    by (simp_all add: ic_unbroken_def bridge_lines_only_def demo_instance_def Defaults_def newline_char_def)
  with torrc_bridges_without_exec [OF this(1,2) refl] show ?thesis by simp
qed


end
