(* ===== verification/Proxy_Files.thy ===== *)
theory Proxy_Files
  imports Haproxy Proxy Config_Text
begin

section \<open>The files of HAProxy and Privoxy (templates/haproxy.cfg.gotmpl, internal/proxy/legacy.go)\<close>

text \<open>
  The two templates written out as lines, and how the files are read: HAProxy's file consists of
  sections, a line at the margin followed by indented lines, and a server line of a section names
  a backend with its address and port.
\<close>

definition server_line :: "Backend \<Rightarrow> string" where
  "server_line b =
     ''    server '' @ backend_Name b @ '' '' @ backend_Address b @ '':'' @ itoa (backend_Port b) @
     '' check inter '' @ itoa (backend_CheckInterval b) @ ''s fall '' @ itoa (backend_MaxFail b) @
     '' rise '' @ itoa (backend_MinSuccess b)"

definition haproxy_front :: "ConfigData \<Rightarrow> string list" where
  "haproxy_front d =
     [''# SPLITTER HAProxy Configuration'', ''# Generated automatically - do not edit'', [],
      ''global'', ''    log /dev/log local0'', ''    log /dev/log local1 notice'', ''    maxconn 4096'',
      ''    daemon'', [],
      ''defaults'', ''    log     global'', ''    mode    http'', ''    option  httplog'',
      ''    option  dontlognull'', ''    timeout connect 5s'',
      ''    timeout client  '' @ itoa (data_ClientTimeout d) @ ''s'',
      ''    timeout server  '' @ itoa (data_ServerTimeout d) @ ''s'',
      ''    retries '' @ itoa (data_Retries d), [],
      ''listen stats'', ''    bind '' @ data_StatsListen d @ '':'' @ itoa (data_StatsPort d),
      ''    mode http'', ''    stats enable'', ''    stats uri '' @ data_StatsURI d,
      ''    stats realm SPLITTER'', ''    stats auth admin:'' @ data_StatsPassword d,
      ''    stats admin if TRUE'', [],
      ''frontend http_in'', ''    bind '' @ data_Listen d @ '':'' @ itoa (data_HTTPPort d),
      ''    mode http'', ''    default_backend tor_http'', [],
      ''frontend socks_in'', ''    bind '' @ data_Listen d @ '':'' @ itoa (data_SOCKSPort d),
      ''    mode tcp'', ''    option tcplog'', ''    default_backend tor_socks'', []]"

definition haproxy_lines :: "ConfigData \<Rightarrow> string list" where
  "haproxy_lines d =
     haproxy_front d @
     [''backend tor_http'', ''    balance '' @ data_BalanceAlgorithm d, ''    option tcp-check'',
      ''    tcp-check connect''] @
     map server_line (HTTPBackends d) @
     [[],
      ''backend tor_socks'', ''    mode tcp'', ''    balance '' @ data_BalanceAlgorithm d,
      ''    option tcp-check'', ''    tcp-check connect''] @
     map server_line (SOCKSBackends d)"

definition haproxy_file :: "ConfigData \<Rightarrow> string" where
  "haproxy_file d = file_of (haproxy_lines d)"

definition privoxy_lines :: "privoxyConfigData \<Rightarrow> string list" where
  "privoxy_lines d =
     [''# SPLITTER Privoxy Config - Instance '' @ itoa (pd_InstanceID d),
      ''# Generated automatically - do not edit'', [],
      ''listen-address '' @ pd_ListenAddr d @ '':'' @ itoa (pd_Port d),
      ''forward-socks5t / 127.0.0.1:'' @ itoa (pd_SocksPort d) @ '' .'',
      ''forward         168.192.0.0/16 .'', ''forward         10.0.0.0/8 .'',
      ''forward         172.16.0.0/12 .'', ''forward         192.168.0.0/16 .'',
      ''forward         127.0.0.0/8 .'', ''forward         0.0.0.0/8 .'',
      ''forward         169.254.0.0/16 .'', [],
      ''# Security'', ''toggle  1'', ''enable-remote-toggle 0'', ''enable-edit-actions 0'',
      ''enforce-blocks 1'', [],
      ''# Logging (off by default)'', ''logfile /dev/null'', [],
      ''# Misc'', ''buffer-limit 4096'']"

definition privoxy_file :: "privoxyConfigData \<Rightarrow> string" where
  "privoxy_file d = file_of (privoxy_lines d)"

definition RenderConfig ::
  "(string \<Rightarrow> string + 't) \<Rightarrow> ('t \<Rightarrow> ConfigData \<Rightarrow> string + string) \<Rightarrow> ConfigData \<Rightarrow> string
    \<Rightarrow> render_error + string" where
  "RenderConfig tmpl_Parse tmpl_Execute data tmplStr = render_text tmpl_Parse tmpl_Execute data tmplStr"

definition RenderPrivoxyConfig ::
  "(string \<Rightarrow> string + 't) \<Rightarrow> ('t \<Rightarrow> privoxyConfigData \<Rightarrow> string + string) \<Rightarrow> privoxyConfigData \<Rightarrow> string
    \<Rightarrow> render_error + string" where
  "RenderPrivoxyConfig tmpl_Parse tmpl_Execute data tmplStr = render_text tmpl_Parse tmpl_Execute data tmplStr"

subsection \<open>Reading HAProxy's file\<close>

definition indented :: "string \<Rightarrow> bool" where
  "indented l \<longleftrightarrow> hasPrefix l '' ''"

text \<open>The indented lines after the heading of a section.\<close>

fun section_body :: "string \<Rightarrow> string list \<Rightarrow> string list" where
  "section_body heading [] = []"
| "section_body heading (l # ls) =
     (if l = heading then takeWhile indented ls else section_body heading ls)"

text \<open>The name, address and port of a server line.\<close>

fun read_server :: "string \<Rightarrow> (string \<times> string \<times> string) option" where
  "read_server l =
     (if hasPrefix l ''    server '' then
        (case cut (CHR '' '') (drop 11 l) of
           (name, Some rest) \<Rightarrow>
             (case cut (CHR '':'') rest of
                (address, Some rest') \<Rightarrow> Some (name, address, fst (cut (CHR '' '') rest'))
              | _ \<Rightarrow> None)
         | _ \<Rightarrow> None)
      else None)"

definition read_servers :: "string \<Rightarrow> string list \<Rightarrow> (string \<times> string \<times> string) list" where
  "read_servers heading ls = List.map_filter read_server (section_body heading ls)"

text \<open>A backend that can be read back: a name and an address without separators.\<close>

definition plain_backend :: "Backend \<Rightarrow> bool" where
  "plain_backend b \<longleftrightarrow> CHR '' '' \<notin> set (backend_Name b) \<and> CHR '':'' \<notin> set (backend_Address b) \<and>
     unbroken (backend_Name b) \<and> unbroken (backend_Address b)"

lemma itoa_no_blank [simp]: "CHR '' '' \<notin> set (itoa i)"
  using itoa_chars [of "CHR '' ''" i] by (auto simp: is_digit_def go_eval)

declare read_server.simps [simp del]

lemma read_server_line:
  assumes "plain_backend b"
  shows "read_server (server_line b) = Some (backend_Name b, backend_Address b, itoa (backend_Port b))"
  using assms cut_append [of "CHR '' ''" "backend_Name b"] cut_append [of "CHR '':''" "backend_Address b"]
    cut_append [of "CHR '' ''" "itoa (backend_Port b)"]
  by (simp add: read_server.simps server_line_def plain_backend_def)

lemma server_line_indented [simp]: "indented (server_line b)"
  by (simp add: indented_def server_line_def)

lemma read_servers_lines:
  "list_all plain_backend bs \<Longrightarrow>
   List.map_filter read_server (map server_line bs) =
     map (\<lambda>b. (backend_Name b, backend_Address b, itoa (backend_Port b))) bs"
  by (induction bs) (simp_all add: List.map_filter_simps read_server_line)

lemma takeWhile_servers: "takeWhile indented (map server_line bs @ [] # ls) = map server_line bs"
  by (induction bs) (simp_all add: indented_def hasPrefix_def server_line_def)

subsection \<open>HAProxy balances over the instances\<close>

definition data_unbroken :: "ConfigData \<Rightarrow> bool" where
  "data_unbroken d \<longleftrightarrow> list_all unbroken
     [data_StatsListen d, data_StatsURI d, data_StatsPassword d, data_Listen d, data_BalanceAlgorithm d]"

lemma server_line_unbroken: "plain_backend b \<Longrightarrow> unbroken (server_line b)"
  by (simp add: server_line_def plain_backend_def)

lemma haproxy_file_lines:
  assumes "data_unbroken d" and "list_all plain_backend (HTTPBackends d)" and "list_all plain_backend (SOCKSBackends d)"
  shows "lines_of (haproxy_file d) = haproxy_lines d"
proof -
  have "list_all unbroken (map server_line bs)" if "list_all plain_backend bs" for bs
    using that by (auto simp: list_all_iff server_line_unbroken)
  with assms have "list_all unbroken (haproxy_lines d)"
    by (simp add: haproxy_lines_def haproxy_front_def data_unbroken_def)
  then show ?thesis by (simp add: haproxy_file_def lines_of_file_of)
qed

lemma section_body_skip:
  "heading \<notin> set ls \<Longrightarrow> section_body heading (ls @ ms) = section_body heading ms"
  by (induction ls) auto

lemma server_line_not_heading [simp]: "''backend tor_socks'' \<notin> set (map server_line bs)"
  by (auto simp: server_line_def)

lemma sections:
  "section_body ''backend tor_http'' (haproxy_lines d) =
     [''    balance '' @ data_BalanceAlgorithm d, ''    option tcp-check'', ''    tcp-check connect''] @
     map server_line (HTTPBackends d)"
  "section_body ''backend tor_socks'' (haproxy_lines d) =
     [''    mode tcp'', ''    balance '' @ data_BalanceAlgorithm d, ''    option tcp-check'',
      ''    tcp-check connect''] @ map server_line (SOCKSBackends d)"
proof -
  have front: "''backend tor_http'' \<notin> set (haproxy_front d)" "''backend tor_socks'' \<notin> set (haproxy_front d)"
    by (simp_all add: haproxy_front_def)
  have "takeWhile indented (map server_line bs) = map server_line bs" for bs
    by (induction bs) simp_all
  then show "section_body ''backend tor_http'' (haproxy_lines d) =
     [''    balance '' @ data_BalanceAlgorithm d, ''    option tcp-check'', ''    tcp-check connect''] @
     map server_line (HTTPBackends d)"
    "section_body ''backend tor_socks'' (haproxy_lines d) =
     [''    mode tcp'', ''    balance '' @ data_BalanceAlgorithm d, ''    option tcp-check'',
      ''    tcp-check connect''] @ map server_line (SOCKSBackends d)"
    using takeWhile_servers
    by (simp_all add: haproxy_lines_def section_body_skip [OF front(1)] section_body_skip [OF front(2)]
        section_body_skip [OF server_line_not_heading] indented_def)
qed

lemma global_section: "section_body ''global'' (haproxy_lines d) =
    [''    log /dev/log local0'', ''    log /dev/log local1 notice'', ''    maxconn 4096'', ''    daemon'']"
  by (simp add: haproxy_lines_def haproxy_front_def indented_def)

lemma no_server:
  "read_server (''    balance '' @ x) = None" "read_server ''    option tcp-check'' = None"
  "read_server ''    tcp-check connect'' = None" "read_server ''    mode tcp'' = None"
  by (simp_all add: read_server.simps)

lemma read_servers_config:
  assumes "list_all plain_backend (HTTPBackends d)" and "list_all plain_backend (SOCKSBackends d)"
  shows "read_servers ''backend tor_http'' (haproxy_lines d) =
      map (\<lambda>b. (backend_Name b, backend_Address b, itoa (backend_Port b))) (HTTPBackends d)"
    and "read_servers ''backend tor_socks'' (haproxy_lines d) =
      map (\<lambda>b. (backend_Name b, backend_Address b, itoa (backend_Port b))) (SOCKSBackends d)"
  using assms no_server(1) [of "data_BalanceAlgorithm d"]
  by (simp_all add: read_servers_def sections List.map_filter_simps no_server read_servers_lines)

lemma instance_backends_plain:
  "plain_backend (socks_backend cfg i)" "plain_backend (http_backend cfg i)"
  by (simp_all add: plain_backend_def socks_backend_def http_backend_def backend_def newline_char_def)

lemma backend_fields:
  "backend_Address (socks_backend cfg i) = ''127.0.0.1''" "backend_Address (http_backend cfg i) = ''127.0.0.1''"
  "backend_Port (http_backend cfg i) =
     (if ProxyMode cfg = ''native'' then inst_HTTPPort i else add64 (Privoxy_StartPort (Privoxy cfg)) (inst_ID i))"
  by (simp_all add: socks_backend_def http_backend_def backend_def)

text \<open>What an instance is as a server: name, address and port.\<close>

definition socks_server :: "Instance \<Rightarrow> string \<times> string \<times> string" where
  "socks_server i = (''tor_socks_'' @ itoa (inst_ID i), ''127.0.0.1'', itoa (inst_SocksPort i))"

definition http_server :: "Config \<Rightarrow> Instance \<Rightarrow> string \<times> string \<times> string" where
  "http_server cfg i =
     (if ProxyMode cfg = ''native''
      then (''tor_http_'' @ itoa (inst_ID i), ''127.0.0.1'', itoa (inst_HTTPPort i))
      else (''privoxy_'' @ itoa (inst_ID i), ''127.0.0.1'', itoa (add64 (Privoxy_StartPort (Privoxy cfg)) (inst_ID i))))"

lemma read_backends:
  "(backend_Name (socks_backend cfg i), backend_Address (socks_backend cfg i), itoa (backend_Port (socks_backend cfg i)))
     = socks_server i"
  "(backend_Name (http_backend cfg i), backend_Address (http_backend cfg i), itoa (backend_Port (http_backend cfg i)))
     = http_server cfg i"
  by (simp_all add: backend_names backend_fields socks_server_def http_server_def)

lemma haproxy_servers:
  assumes "BuildConfigData cfg insts pw s1 s2 = Some d" and "data_unbroken d"
    and "ls = lines_of (haproxy_file d)"
  shows "mset (read_servers ''backend tor_socks'' ls) =
      mset (map socks_server insts)"
    and "mset (read_servers ''backend tor_http'' ls) =
      mset (map (http_server cfg) (filter (has_http cfg) insts))"
    and "section_body ''global'' ls =
      [''    log /dev/log local0'', ''    log /dev/log local1 notice'', ''    maxconn 4096'', ''    daemon'']"
proof -
  have http: "mset (HTTPBackends d) = mset (map (http_backend cfg) (filter (has_http cfg) insts))"
    and socks: "mset (SOCKSBackends d) = mset (map (socks_backend cfg) insts)"
    using assms(1) apply_swaps_mset
    by (fastforce simp: BuildConfigData_def backends_loop_closed split: bind_splits)+
  have plain: "list_all plain_backend (HTTPBackends d)" "list_all plain_backend (SOCKSBackends d)"
    using mset_eq_setD [OF http] mset_eq_setD [OF socks] by (auto simp: list_all_iff instance_backends_plain)
  let ?read = "\<lambda>b. (backend_Name b, backend_Address b, itoa (backend_Port b))"
  have "ls = haproxy_lines d"
    using assms(3) haproxy_file_lines [OF assms(2) plain] by simp
  then show "section_body ''global'' ls =
      [''    log /dev/log local0'', ''    log /dev/log local1 notice'', ''    maxconn 4096'', ''    daemon'']"
    by (simp only: global_section)
  from \<open>ls = haproxy_lines d\<close>
  have "mset (read_servers ''backend tor_http'' ls) = image_mset ?read (mset (HTTPBackends d))"
    and "mset (read_servers ''backend tor_socks'' ls) = image_mset ?read (mset (SOCKSBackends d))"
    using read_servers_config [OF plain] by simp_all
  then show "mset (read_servers ''backend tor_socks'' ls) =
      mset (map socks_server insts)"
    and "mset (read_servers ''backend tor_http'' ls) =
      mset (map (http_server cfg) (filter (has_http cfg) insts))"
    unfolding http socks by (simp_all add: multiset.map_comp comp_def read_backends del: mset_filter)
qed



subsection \<open>What Privoxy sends past Tor\<close>

text \<open>The file written for an instance's Privoxy makes it listen on the instance's HTTP port and
  forward to the SOCKS port of that instance. It also excepts the block 168.192.0.0/16, which is not
  private, from the forwarding: requests to those addresses leave without Tor.\<close>

theorem privoxy_file_read_back:
  assumes "unbroken (pd_ListenAddr d)" and "ls = lines_of (privoxy_file d)"
  shows "settings ''listen-address'' ls = [pd_ListenAddr d @ '':'' @ itoa (pd_Port d)] \<and>
    settings ''forward-socks5t'' ls = [''/ 127.0.0.1:'' @ itoa (pd_SocksPort d) @ '' .''] \<and>
    ''168.192.0.0/16 .'' \<in> set (map (dropWhile (\<lambda>c. c = CHR '' '')) (settings ''forward'' ls))"
proof -
  have "list_all unbroken (privoxy_lines d)"
    using assms(1) by (simp add: privoxy_lines_def)
  then have "ls = privoxy_lines d"
    using assms(2) by (simp add: privoxy_file_def lines_of_file_of)
  then show ?thesis by (simp add: privoxy_lines_def)
qed

lemma privoxy_file_read_back_witness:
  "settings ''listen-address'' (lines_of (privoxy_file
     \<lparr>pd_InstanceID = 0, pd_ListenAddr = ''127.0.0.1'', pd_Port = 6199, pd_SocksPort = 4999\<rparr>)) = [''127.0.0.1:6199'']"
  using privoxy_file_read_back [OF _ refl, of "\<lparr>pd_InstanceID = 0, pd_ListenAddr = ''127.0.0.1'', pd_Port = 6199, pd_SocksPort = 4999\<rparr>"]
  by (simp add: itoa_def decimal.simps digit_char_def go_eval newline_char_def)

end
