(* ===== verification/Cmd_Program.thy ===== *)
theory Cmd_Program
  imports Cmd_Run
begin

section \<open>The running program\<close>

text \<open>
  After a successful start the program is a set of goroutines over the objects that the run
  command made: the supervisors of the Tor instances, the country daemon, the loop of the run
  command that reloads on SIGHUP, and the world outside. This theory puts them into one step
  relation. The supervisors' events are those of \<open>supervise\<close>; a cycle of the daemon is taken
  apart into the choice of its instances and, for each, the stop and the start of
  \<open>RotateInstance\<close>, so that everything else may happen in between; a reload is \<open>handleReload\<close> on
  the state that it shares. Invariants of all reachable states are shown: which component holds
  which process, what the renewal and HAProxy point to, which countries an instance can be in.
  That the mutex of the Tor manager keeps a reload out of the middle of \<open>RotateInstance\<close> is not
  used: the relation allows more than the program does.
\<close>

text \<open>A cycle of \<open>rotateOnce\<close> under way: what it copied at its beginning, the indices left, and
  the country for the first of them once that instance has been stopped.\<close>

record rotation =
  rot_snapshot :: "InstanceInfo list"
  rot_accepted :: "string list"
  rot_blacklisted :: "string list"
  rot_left :: "nat list"
  rot_moving :: "string option"

record 'o running =
  run_cfg :: Config
  run_prog :: "'o program"
  run_rotation :: "rotation option"

abbreviation run_world :: "'o running \<Rightarrow> 'o tor_world" where
  "run_world s \<equiv> prog_world (run_prog s)"

abbreviation insts_of :: "'o tor_world \<Rightarrow> Instance list" where
  "insts_of w \<equiv> instances (torMgr w)"

definition with_world :: "'o tor_world \<Rightarrow> 'o running \<Rightarrow> 'o running" where
  "with_world w s = s\<lparr>run_prog := (run_prog s)\<lparr>prog_world := w\<rparr>\<rparr>"

text \<open>The first part of \<open>rotateOnce\<close>; \<open>None\<close> where it returns at once, or panics.\<close>

definition begin_rotation :: "Config \<Rightarrow> InstanceInfo list \<Rightarrow> (nat \<times> nat) list \<Rightarrow> rotation option" where
  "begin_rotation cfg insts shuffle =
     (let totalToChange = TotalToChange (Rotation (Country cfg))
      in if length insts = 0 \<or> totalToChange \<le> 0 then None
         else (let total = (if int (length insts) < totalToChange
                            then int (length insts) else totalToChange)
               in map_option (\<lambda>indices.
                    \<lparr>rot_snapshot = insts, rot_accepted = Accepted (Country cfg),
                     rot_blacklisted = Blacklisted (Country cfg), rot_left = take (nat total) indices,
                     rot_moving = None\<rparr>) (apply_swaps [0..<length insts] shuffle)))"

definition turn_choice :: "rotation \<Rightarrow> nat \<Rightarrow> (nat \<Rightarrow> nat) \<Rightarrow> (country_error + string) option" where
  "turn_choice r idx draw =
     (if length (rot_snapshot r) \<le> idx then None
      else pickDifferentCountry (info_Country (rot_snapshot r ! idx)) (rot_accepted r) (rot_blacklisted r) draw)"

definition turn_instance :: "rotation \<Rightarrow> nat \<Rightarrow> 'o tor_world \<Rightarrow> nat option" where
  "turn_instance r idx w = find_instance (info_ID (rot_snapshot r ! idx)) (insts_of w)"

text \<open>What \<open>handleReload\<close> shares with the rest.\<close>

definition to_run_state :: "'o running \<Rightarrow> 'o run_state" where
  "to_run_state s =
     \<lparr>appCfg = run_cfg s, run_instances = insts_of (run_world s), run_daemon = prog_daemon (run_prog s),
      run_haproxy = prog_haproxy (run_prog s), run_procs = procMgr (run_world s),
      run_outside = outside (run_world s)\<rparr>"

definition from_run_state :: "'o run_state \<Rightarrow> 'o running \<Rightarrow> 'o running" where
  "from_run_state rs s =
     s\<lparr>run_cfg := appCfg rs,
       run_prog := (run_prog s)\<lparr>prog_daemon := run_daemon rs, prog_haproxy := run_haproxy rs,
         prog_world := (run_world s)\<lparr>procMgr := run_procs rs, outside := run_outside rs\<rparr>\<rparr>\<rparr>"

datatype run_event =
    EvOutside
  | EvSupervisor supervisor_event
  | EvTimer
  | EvTurn
  | EvCycleEnd
  | EvReload load_env

inductive run_step ::
  "'o tor_sys \<Rightarrow> 'o hap_sys \<Rightarrow> 'o running \<Rightarrow> run_event \<Rightarrow> 'o running \<Rightarrow> bool" for sys hap where
  outside: "run_step sys hap s EvOutside (with_world ((run_world s)\<lparr>outside := v\<rparr>) s)"
| supervisor: "run_step sys hap s (EvSupervisor ev)
    (with_world (supervise sys (run_cfg s) [ev] (run_world s)) s)"
| timer: "\<lbrakk>run_alive (prog_daemon (run_prog s)); run_rotation s = None;
     begin_rotation (daemon_cfg (prog_daemon (run_prog s))) (infos (run_world s)) shuffle = Some r\<rbrakk>
   \<Longrightarrow> run_step sys hap s EvTimer (s\<lparr>run_rotation := Some r\<rparr>)"
| skip: "\<lbrakk>run_rotation s = Some r; rot_moving r = None; rot_left r = idx # idxs;
     turn_choice r idx draw = Some (Inl e)\<rbrakk>
   \<Longrightarrow> run_step sys hap s EvTurn (s\<lparr>run_rotation := Some (r\<lparr>rot_left := idxs\<rparr>)\<rparr>)"
| missing: "\<lbrakk>run_rotation s = Some r; rot_moving r = None; rot_left r = idx # idxs;
     turn_choice r idx draw = Some (Inr c); turn_instance r idx (run_world s) = None\<rbrakk>
   \<Longrightarrow> run_step sys hap s EvTurn (s\<lparr>run_rotation := Some (r\<lparr>rot_left := idxs\<rparr>)\<rparr>)"
| leave: "\<lbrakk>run_rotation s = Some r; rot_moving r = None; rot_left r = idx # idxs;
     turn_choice r idx draw = Some (Inr c); turn_instance r idx (run_world s) = Some k;
     stop_at sys k (run_world s) = (e, w)\<rbrakk>
   \<Longrightarrow> run_step sys hap s EvTurn (with_world w (s\<lparr>run_rotation := Some (r\<lparr>rot_moving := Some c\<rparr>)\<rparr>))"
| move: "\<lbrakk>run_rotation s = Some r; rot_moving r = Some c; rot_left r = idx # idxs;
     turn_instance r idx (run_world s) = Some k;
     start_at sys (run_cfg s) k (set_country k c (run_world s)) = (e, w)\<rbrakk>
   \<Longrightarrow> run_step sys hap s EvTurn
         (with_world w (s\<lparr>run_rotation := Some (r\<lparr>rot_left := idxs, rot_moving := None\<rparr>)\<rparr>))"
| finish: "\<lbrakk>run_rotation s = Some r; rot_left r = []\<rbrakk>
   \<Longrightarrow> run_step sys hap s EvCycleEnd (s\<lparr>run_rotation := None\<rparr>)"
| reload: "handleReload env hap (to_run_state s) = Some (res, rs)
   \<Longrightarrow> run_step sys hap s (EvReload env) (from_run_state rs s)"

text \<open>The configurations seen so far: the one of the start and those that reloads have loaded.\<close>

definition seen :: "run_event \<Rightarrow> Config list" where
  "seen ev = (case ev of
     EvReload env \<Rightarrow> (case Load env reload_options of Inl e \<Rightarrow> [] | Inr c \<Rightarrow> [c]) | _ \<Rightarrow> [])"

inductive run_reach :: "'o run_inputs \<Rightarrow> Config \<Rightarrow> Config list \<Rightarrow> 'o running \<Rightarrow> bool" for inp cfg where
  start: "startup inp cfg v = Some (Inr p, w)
    \<Longrightarrow> run_reach inp cfg [cfg] \<lparr>run_cfg = cfg, run_prog = p, run_rotation = None\<rparr>"
| step: "\<lbrakk>run_reach inp cfg cs s; run_step (in_tor inp) (in_hap inp) s ev s'\<rbrakk>
    \<Longrightarrow> run_reach inp cfg (seen ev @ cs) s'"

lemma with_world_simps [simp]:
  "run_cfg (with_world w s) = run_cfg s" "run_rotation (with_world w s) = run_rotation s"
  "run_world (with_world w s) = w"
  "prog_daemon (run_prog (with_world w s)) = prog_daemon (run_prog s)"
  "prog_haproxy (run_prog (with_world w s)) = prog_haproxy (run_prog s)"
  "prog_renewer (run_prog (with_world w s)) = prog_renewer (run_prog s)"
  by (simp_all add: with_world_def)

subsection \<open>A cycle without interruption\<close>

text \<open>The steps of the daemon alone, one after the other.\<close>

inductive daemon_turns :: "'o tor_sys \<Rightarrow> 'o hap_sys \<Rightarrow> 'o running \<Rightarrow> 'o running \<Rightarrow> bool" for sys hap where
  no_turn: "daemon_turns sys hap s s"
| turn: "\<lbrakk>run_step sys hap s EvTurn s'; daemon_turns sys hap s' s''\<rbrakk> \<Longrightarrow> daemon_turns sys hap s s''"

lemma find_instance_ids:
  "map inst_ID xs = map inst_ID ys \<Longrightarrow> find_instance n xs = find_instance n ys"
proof (induction xs arbitrary: ys)
  case (Cons x xs)
  then show ?case by (cases ys) auto
qed simp

lemma stop_at_ids:
  assumes "stop_at sys k w = (e, w')" and "k < length (insts_of w)"
  shows "map inst_ID (insts_of w') = map inst_ID (insts_of w)"
proof (rule nth_equalityI)
  note stop = stop_at_effect [OF assms]
  fix i assume "i < length (map inst_ID (insts_of w'))"
  then show "map inst_ID (insts_of w') ! i = map inst_ID (insts_of w) ! i"
    using stop(2,3,4) by (cases "i = k") (auto simp: identity_def)
qed (use stop_at_effect(2) [OF assms] in simp)

abbreviation left_with :: "rotation \<Rightarrow> nat list \<Rightarrow> 'o tor_world \<Rightarrow> 'o running \<Rightarrow> 'o running" where
  "left_with r idxs w s \<equiv> with_world w (s\<lparr>run_rotation := Some (r\<lparr>rot_left := idxs\<rparr>)\<rparr>)"

lemma left_same [simp]:
  "left_with r idxs (run_world s) s = s\<lparr>run_rotation := Some (r\<lparr>rot_left := idxs\<rparr>)\<rparr>"
  by (simp add: with_world_def)

text \<open>\<open>RotateInstance\<close> is the two steps of its instance.\<close>

lemma rotated_turn:
  assumes "run_rotation s = Some r" and "rot_moving r = None" and "rot_left r = idx # idxs"
    and "turn_choice r idx draw = Some (Inr c)"
    and rot: "Tor_RotateInstance sys (run_cfg s) (info_ID (rot_snapshot r ! idx)) c (run_world s) = (e, w)"
    and rest: "daemon_turns sys hap (left_with r idxs w s) t"
  shows "daemon_turns sys hap s t"
proof (cases "turn_instance r idx (run_world s)")
  case None
  then have "w = run_world s"
    using rot rotate_missing [of _ "run_world s"] by (simp add: turn_instance_def)
  moreover note run_step.missing [OF assms(1-4) None, of sys hap]
  ultimately show ?thesis using rest by (auto intro: daemon_turns.turn)
next
  case (Some k)
  then have k: "find_instance (info_ID (rot_snapshot r ! idx)) (insts_of (run_world s)) = Some k"
    by (simp add: turn_instance_def)
  then have "k < length (insts_of (run_world s))" using find_instance_Some by blast
  obtain e1 w1 where st: "stop_at sys k (run_world s) = (e1, w1)" by fastforce
  obtain e2 where sa: "start_at sys (run_cfg s) k (set_country k c w1) = (e2, w)"
    using rot k st stop_at_effect(1) [OF st \<open>k < _\<close>]
    by (auto simp: Tor_RotateInstance_def split: option.splits prod.splits)
  let ?s1 = "with_world w1 (s\<lparr>run_rotation := Some (r\<lparr>rot_moving := Some c\<rparr>)\<rparr>)"
  have "turn_instance (r\<lparr>rot_moving := Some c\<rparr>) idx (run_world ?s1) = Some k"
    using k find_instance_ids [OF stop_at_ids [OF st \<open>k < _\<close>]] by (simp add: turn_instance_def)
  then have "run_step sys hap ?s1 EvTurn (with_world w (?s1\<lparr>run_rotation := Some
      (r\<lparr>rot_moving := Some c, rot_left := idxs, rot_moving := None\<rparr>)\<rparr>))"
    using run_step.move [of ?s1 "r\<lparr>rot_moving := Some c\<rparr>" c idx idxs k sys e2 w] assms(3) sa by simp
  moreover have "with_world w (?s1\<lparr>run_rotation := Some
      (r\<lparr>rot_moving := Some c, rot_left := idxs, rot_moving := None\<rparr>)\<rparr>) = left_with r idxs w s"
    using assms(2) by (simp add: with_world_def)
  ultimately show ?thesis
    using run_step.leave [OF assms(1-4) Some st] rest by (metis daemon_turns.turn)
qed

lemma rotate_turns:
  assumes "rotate_loop (torRotator sys (run_cfg s)) (rot_snapshot r) (rot_accepted r) (rot_blacklisted r)
      (rot_left r) draws n (run_world s) = Some w'"
    and "run_rotation s = Some r" and "rot_moving r = None"
  shows "daemon_turns sys hap s (left_with r [] w' s)"
  using assms
proof (induction "rot_left r" arbitrary: s r n)
  case Nil
  then have "w' = run_world s" and "r\<lparr>rot_left := []\<rparr> = r" by auto
  with Nil(3) have "left_with r [] w' s = s" by (simp add: with_world_def)
  then show ?case by (simp add: daemon_turns.no_turn)
next
  case (Cons idx idxs)
  note left = Cons.hyps(2) [symmetric] and at = Cons.prems(2,3)
  have loop: "rotate_loop (torRotator sys (run_cfg s)) (rot_snapshot r) (rot_accepted r) (rot_blacklisted r)
      (idx # idxs) draws n (run_world s) = Some w'"
    using Cons.prems(1) left by simp
  then have idx: "idx < length (rot_snapshot r)" by (simp split: if_splits)
  have rec: "daemon_turns sys hap (left_with r idxs w s) (left_with r [] w' s)"
    if "rotate_loop (torRotator sys (run_cfg s)) (rot_snapshot r) (rot_accepted r) (rot_blacklisted r)
      idxs draws (Suc n) w = Some w'" for w
    using Cons.hyps(1) [where r = "r\<lparr>rot_left := idxs\<rparr>" and s = "left_with r idxs w s" and n = "Suc n"] that Cons.prems
    by (simp add: with_world_def)
  consider (panic) "turn_choice r idx (draws n) = None" | (skip) e where "turn_choice r idx (draws n) = Some (Inl e)"
    | (go) c where "turn_choice r idx (draws n) = Some (Inr c)"
    by (metis old.sum.exhaust option.exhaust)
  then show ?case
  proof cases
    case panic
    then show ?thesis using loop idx by (simp add: turn_choice_def)
  next
    case skip
    with loop idx have "rotate_loop (torRotator sys (run_cfg s)) (rot_snapshot r) (rot_accepted r)
        (rot_blacklisted r) idxs draws (Suc n) (run_world s) = Some w'"
      by (simp add: turn_choice_def)
    from rec [OF this] run_step.skip [OF at left skip, of sys hap] show ?thesis
      by (auto intro: daemon_turns.turn)
  next
    case go
    obtain e w where r1: "Tor_RotateInstance sys (run_cfg s) (info_ID (rot_snapshot r ! idx)) c (run_world s) = (e, w)"
      by fastforce
    with loop go idx have "rotate_loop (torRotator sys (run_cfg s)) (rot_snapshot r) (rot_accepted r)
        (rot_blacklisted r) idxs draws (Suc n) w = Some w'"
      by (simp add: turn_choice_def)
    from rotated_turn [OF at left go r1 rec [OF this]] show ?thesis .
  qed
qed

lemma infos_Nil: "infos w = [] \<longleftrightarrow> insts_of w = []"
  by (simp add: infos_def GetInstanceInfos_def)

text \<open>C8. A cycle as the daemon's own model has it, \<open>rotateOnce\<close> on the Tor manager, is a run of the
  daemon's steps that nothing interrupts: the timer, its turns and the end. Where there is nothing to
  rotate it leaves the Tor manager and the world as they are.\<close>

theorem cycle_is_turns:
  assumes "run_alive (prog_daemon (run_prog s))" and "run_rotation s = None"
    and "rotateOnce (torRotator sys (run_cfg s)) (daemon_cfg (prog_daemon (run_prog s))) shuffle draws (run_world s)
      = Some w'"
  shows "(begin_rotation (daemon_cfg (prog_daemon (run_prog s))) (infos (run_world s)) shuffle = None \<and>
       w' = run_world s) \<or>
    (\<exists>t t'. run_step sys hap s EvTimer t \<and> daemon_turns sys hap t t' \<and>
       run_step sys hap t' EvCycleEnd (with_world w' s))"
proof (cases "begin_rotation (daemon_cfg (prog_daemon (run_prog s))) (infos (run_world s)) shuffle")
  case None
  then have "w' = run_world s"
    using assms(3) by (auto simp: begin_rotation_def rotateOnce_def Let_def split: if_splits option.splits)
  with None show ?thesis by simp
next
  case (Some r)
  let ?t = "s\<lparr>run_rotation := Some r\<rparr>"
  have "rot_moving r = None" and "rotate_loop (torRotator sys (run_cfg s)) (rot_snapshot r) (rot_accepted r)
      (rot_blacklisted r) (rot_left r) draws 0 (run_world s) = Some w'"
    using Some assms(3)
    by (auto simp: begin_rotation_def rotateOnce_def Let_def infos_Nil split: if_splits option.splits)
  then have "daemon_turns sys hap ?t (left_with r [] w' ?t)"
    by (intro rotate_turns [where draws = draws and n = 0]) simp_all
  moreover have "run_step sys hap s EvTimer ?t"
    using run_step.timer [OF assms(1,2) Some] .
  moreover have "left_with r [] w' ?t\<lparr>run_rotation := None\<rparr> = with_world w' s"
    using assms(2) by (simp add: with_world_def)
  then have "run_step sys hap (left_with r [] w' ?t) EvCycleEnd (with_world w' s)"
    using run_step.finish [of "left_with r [] w' ?t" "r\<lparr>rot_left := []\<rparr>" sys hap] by simp
  ultimately show ?thesis by blast
qed

lemma cycle_is_turns_witness:
  "\<exists>s w' t t'. run_world s = demo_world \<and>
     rotateOnce (torRotator demo_tor_sys Defaults) Defaults [(1, 0)] (\<lambda>k n. 0) demo_world = Some w' \<and>
     run_step demo_tor_sys demo_run_hap s EvTimer t \<and> daemon_turns demo_tor_sys demo_run_hap t t' \<and>
     run_step demo_tor_sys demo_run_hap t' EvCycleEnd (with_world w' s)"
proof -
  have "run_alive (the (Start (NewDaemon Defaults)))" "daemon_cfg (the (Start (NewDaemon Defaults))) = Defaults"
    by (simp_all add: Start_def NewDaemon_def Let_def) (simp add: Defaults_def)
  then obtain s where s: "run_world s = demo_world" "run_cfg s = Defaults" "run_rotation s = None"
      "run_alive (prog_daemon (run_prog s))" "daemon_cfg (prog_daemon (run_prog s)) = Defaults"
    using that [of "\<lparr>run_cfg = Defaults,
      run_prog = \<lparr>prog_world = demo_world, prog_renewer = make_renewer Defaults (insts_of demo_world),
        prog_haproxy = NewHAProxyManager Defaults (\<lambda>n. Some 0), prog_daemon = the (Start (NewDaemon Defaults))\<rparr>,
      run_rotation = None\<rparr>"] by simp
  have n: "length (infos demo_world) = 2"
    using demo_world_instances(2) by (simp add: infos_def GetInstanceInfos_def)
  obtain w' where run: "rotateOnce (torRotator demo_tor_sys Defaults) Defaults [(1, 0)] (\<lambda>k n. 0) demo_world = Some w'"
    using tor.rotateOnce_effect [of "\<lambda>k n. 0" demo_tor_sys Defaults demo_world "[(1, 0)]" Defaults] demo_world_instances n
    by (auto simp: draws_in_range_def swaps_in_range_def infos_def GetInstanceInfos_def)
  have "begin_rotation Defaults (infos demo_world) [(1, 0)] \<noteq> None"
    using n apply_swaps_total [of "[0..<2]" "[(1, 0)]"]
    by (auto simp: begin_rotation_def Let_def swaps_in_range_def Defaults_def)
  with cycle_is_turns [of s demo_tor_sys "[(1, 0)]" "\<lambda>k n. 0" w' demo_run_hap] run
  show ?thesis unfolding s using s by blast
qed

end
