(* ===== verification/Cmd_Running.thy ===== *)
theory Cmd_Running
  imports Cmd_Program
begin

section \<open>Invariants of the running program\<close>

text \<open>
  What holds in every state of \<open>run_reach\<close>: which component holds which process, what the
  renewal dials, which countries the instances can be in, and that the shared configuration stays
  valid. \<open>follows\<close> collects what all work on the Tor instances keeps; each step either
  follows, moves one instance to another country, or is a reload.
\<close>

subsection \<open>What no operation on the world disturbs\<close>

text \<open>Every process carries the name of the component that started it, and every record that
  holds a process holds one of its own name.\<close>

definition proc_names :: "Manager \<Rightarrow> string list" where
  "proc_names pm = map proc_Name (processes pm)"

definition holds :: "Manager \<Rightarrow> nat \<Rightarrow> string set \<Rightarrow> bool" where
  "holds pm h ns \<longleftrightarrow> h < length (proc_names pm) \<and> proc_names pm ! h \<in> ns"

definition handles_typed :: "'o tor_world \<Rightarrow> bool" where
  "handles_typed w \<longleftrightarrow> list_all (\<lambda>inst. case inst_proc inst of
     None \<Rightarrow> True | Some h \<Rightarrow> holds (procMgr w) h {processName inst}) (insts_of w)"

definition tor_names :: "'o tor_world \<Rightarrow> string set" where
  "tor_names w = processName ` set (insts_of w)"

lemma proc_names_add [simp]: "proc_names (add p pm) = proc_names pm @ [proc_Name p]"
  by (simp add: proc_names_def add_def)

lemma proc_names_on_process:
  "proc_Name (f (processes pm ! h)) = proc_Name (processes pm ! h) \<Longrightarrow> proc_names (on_process h f pm) = proc_names pm"
  by (simp add: proc_names_def on_process_def map_update list_update_same_conv)
     (metis list_update_beyond list_update_id map_update not_le_imp_less)

lemma proc_names_Stop [simp]: "proc_names (Stop h e pm) = proc_names pm"
  by (cases h) (auto simp: Stop_def Let_def intro!: proc_names_on_process)

lemma proc_names_reap [simp]: "proc_names (on_process h (reap e) pm) = proc_names pm"
  by (rule proc_names_on_process) simp

lemma holds_append: "holds pm h ns \<Longrightarrow> proc_names pm' = proc_names pm @ new \<Longrightarrow> holds pm' h ns"
  by (auto simp: holds_def nth_append)

lemma holds_last: "proc_names pm' = proc_names pm @ [n] \<Longrightarrow> holds pm' (length (processes pm)) {n}"
  by (simp add: holds_def nth_append proc_names_def)

text \<open>What an instance is made with and keeps.\<close>

definition made_part :: "Instance \<Rightarrow> int \<times> int \<times> int \<times> int \<times> Version \<times> string list \<times> string" where
  "made_part inst = (inst_ID inst, inst_SocksPort inst, inst_ControlPort inst, inst_HTTPPort inst,
     inst_version inst, bridgeLines inst, bridgeTransport inst)"

text \<open>\<open>w'\<close> follows \<open>w\<close> by work on the Tor instances.\<close>

definition follows :: "'o tor_world \<Rightarrow> 'o tor_world \<Rightarrow> bool" where
  "follows w w' \<longleftrightarrow> map made_part (insts_of w') = map made_part (insts_of w) \<and>
     (\<exists>new. proc_names (procMgr w') = proc_names (procMgr w) @ new \<and> set new \<subseteq> tor_names w) \<and>
     (handles_typed w \<longrightarrow> handles_typed w')"

lemma processName_made: "made_part i = made_part j \<Longrightarrow> processName i = processName j"
  by (simp add: made_part_def processName_def)

lemma tor_names_follows:
  assumes "follows w w'"
  shows "tor_names w' = tor_names w"
proof -
  have "processName ` set (insts_of v) = (\<lambda>(i, _). ''tor-'' @ itoa i) ` set (map made_part (insts_of v))"
    for v :: "'a tor_world"
    by (force simp: processName_def made_part_def)
  with assms show ?thesis by (simp only: follows_def tor_names_def)
qed

lemma follows_refl [intro]: "follows w w"
  by (simp add: follows_def)

lemma follows_trans [trans]: "follows u v \<Longrightarrow> follows v w \<Longrightarrow> follows u w"
  using tor_names_follows [of u v] by (auto simp: follows_def)

lemma follows_outside [intro]: "follows w (w\<lparr>outside := v\<rparr>)"
  by (simp add: follows_def handles_typed_def cong: option.case_cong)

text \<open>An instance replaced by one of the same fixed part that holds what it held, or a process
  added under its own name.\<close>

lemma follows_set_instance:
  assumes "k < length (insts_of w)" and "made_part inst = made_part (insts_of w ! k)"
    and "proc_names pm = proc_names (procMgr w) @ new" and "set new \<subseteq> {processName inst}"
    and "inst_proc inst = inst_proc (insts_of w ! k) \<or>
      (\<exists>h. inst_proc inst = Some h \<and> holds pm h {processName inst})"
  shows "follows w (set_instance k inst (w\<lparr>procMgr := pm, outside := v\<rparr>))"
proof -
  have name: "processName inst = processName (insts_of w ! k)"
    using assms(2) by (rule processName_made)
  have "processName (insts_of w ! k) \<in> tor_names w"
    using assms(1) by (simp add: tor_names_def)
  moreover have "map made_part ((insts_of w)[k := inst]) = map made_part (insts_of w)"
    using assms(1,2) by (simp add: map_update list_update_same_conv)
  moreover have "handles_typed (set_instance k inst (w\<lparr>procMgr := pm, outside := v\<rparr>))" if t: "handles_typed w"
    unfolding handles_typed_def list_all_length
  proof (intro allI impI)
    fix i assume "i < length (insts_of (set_instance k inst (w\<lparr>procMgr := pm, outside := v\<rparr>)))"
    then have i: "i < length (insts_of w)" by (simp add: set_instance_def)
    have old: "case inst_proc (insts_of w ! j) of None \<Rightarrow> True | Some h \<Rightarrow> holds pm h {processName (insts_of w ! j)}"
      if "j < length (insts_of w)" for j
      using t that holds_append [OF _ assms(3)] by (auto simp: handles_typed_def list_all_length split: option.splits)
    show "case inst_proc (insts_of (set_instance k inst (w\<lparr>procMgr := pm, outside := v\<rparr>)) ! i) of None \<Rightarrow> True
      | Some h \<Rightarrow> holds (procMgr (set_instance k inst (w\<lparr>procMgr := pm, outside := v\<rparr>))) h
          {processName (insts_of (set_instance k inst (w\<lparr>procMgr := pm, outside := v\<rparr>)) ! i)}"
      using old [OF i] old [OF assms(1)] assms(5) name i
      by (cases "i = k") (auto simp: set_instance_def split: option.splits)
  qed
  ultimately show ?thesis
    using assms(3,4) name by (auto simp: follows_def set_instance_def)
qed

lemma made_of_identity:
  "identity i = identity j \<Longrightarrow> bridgeLines i = bridgeLines j \<Longrightarrow> bridgeTransport i = bridgeTransport j \<Longrightarrow>
   made_part i = made_part j"
  by (simp add: identity_def made_part_def)

lemma Instance_Start_bridges:
  "Instance_Start sys cfg inst pm v = (e, inst', pm', v') \<Longrightarrow>
   bridgeLines inst' = bridgeLines inst \<and> bridgeTransport inst' = bridgeTransport inst"
  by (auto simp: Instance_Start_def setState_def Let_def split: prod.splits sum.splits)

lemma start_at_follows:
  assumes "k < length (insts_of w)" and "start_at sys cfg k w = (e, w')"
  shows "follows w w'"
proof -
  obtain e' inst pm v where s: "Instance_Start sys cfg (insts_of w ! k) (procMgr w) (outside w) = (e', inst, pm, v)"
    by (metis prod_cases4)
  then have w': "w' = set_instance k inst (w\<lparr>procMgr := pm, outside := v\<rparr>)"
    using assms(2) by (simp add: start_at_def)
  note bridges = Instance_Start_bridges [OF s]
  have same: "follows w w'" if "pm = procMgr w" "inst_proc inst = inst_proc (insts_of w ! k)"
    "identity inst = identity (insts_of w ! k)"
    unfolding w' using that made_of_identity [OF that(3)] bridges
    by (intro follows_set_instance [OF assms(1), where new = "[]"]) simp_all
  from s show ?thesis
  proof (cases rule: Instance_Start_cases)
    case (ok p)
    then have "proc_names pm = proc_names (procMgr w) @ [processName inst]"
      by (simp add: processName_def identity_def)
    moreover from this have "holds pm (length (processes (procMgr w))) {processName inst}"
      by (rule holds_last)
    moreover have "made_part inst = made_part (insts_of w ! k)"
      using ok bridges by (intro made_of_identity) simp_all
    ultimately show ?thesis
      unfolding w' using ok
      by (intro follows_set_instance [OF assms(1), where new = "[processName inst]"]) simp_all
  qed (use same in simp_all)
qed

lemma stop_at_follows:
  assumes "k < length (insts_of w)" and "stop_at sys k w = (e, w')"
  shows "follows w w'"
proof -
  obtain e' inst pm v where s: "Instance_Stop sys (insts_of w ! k) (procMgr w) (outside w) = (e', inst, pm, v)"
    by (metis prod_cases4)
  then have "w' = set_instance k inst (w\<lparr>procMgr := pm, outside := v\<rparr>)"
    using assms(2) by (simp add: stop_at_def)
  moreover have "proc_names pm = proc_names (procMgr w)" and "inst_proc inst = inst_proc (insts_of w ! k)"
    and "made_part inst = made_part (insts_of w ! k)"
    using s by (auto simp: Instance_Stop_def setState_def made_part_def Let_def
        split: option.splits prod.splits if_splits)
  ultimately show ?thesis
    by (auto intro: follows_set_instance [OF assms(1), where new = "[]"])
qed

lemma set_in_place: "set_instance k inst (w\<lparr>procMgr := procMgr w, outside := outside w\<rparr>) = set_instance k inst w"
  by simp

lemma set_country_follows:
  assumes "k < length (insts_of w)"
  shows "follows w (set_country k c w)"
  using follows_set_instance [OF assms, of "(insts_of w ! k)\<lparr>inst_Country := c\<rparr>" "procMgr w" "[]" "outside w"]
  by (simp add: set_country_def made_part_def)

lemma launch_at_follows:
  assumes "k < length (insts_of w)" and "launch_at sys cfg k w = (e, w')"
  shows "follows w w'"
proof -
  let ?i = "setState StateBootstrapping ((insts_of w ! k)\<lparr>inst_cancelFunc := CancelSet\<rparr>)"
  have "follows w (set_instance k ?i w)"
    using follows_set_instance [OF assms(1), of ?i "procMgr w" "[]" "outside w"]
    by (simp add: setState_def made_part_def)
  moreover have "follows (set_instance k ?i w) w'"
    using assms by (intro start_at_follows [of k]) (simp_all add: set_instance_def launch_at_def)
  ultimately show ?thesis by (rule follows_trans)
qed

lemma supervise_follows: "follows w (supervise sys cfg evs w)"
proof (induction sys cfg evs w rule: supervise.induct)
  case (2 sys cfg k evs w)
  have "follows w (snd (launch_at sys cfg k w))" if "k < length (insts_of w)"
    using launch_at_follows [OF that] by (metis prod.collapse)
  with 2 show ?case by (auto intro: follows_trans)
next
  case (3 sys cfg k st evs w)
  have "follows w (set_instance k (setState st (insts_of w ! k)) w)" if "k < length (insts_of w)"
    using follows_set_instance [OF that, of "setState st (insts_of w ! k)" "procMgr w" "[]" "outside w"]
    by (simp add: setState_def made_part_def)
  with 3 show ?case by (auto intro: follows_trans)
next
  case (4 sys cfg h err evs w)
  have "follows w (w\<lparr>procMgr := on_process h (reap err) (procMgr w)\<rparr>)"
    by (simp add: follows_def handles_typed_def holds_def cong: option.case_cong)
  with 4 show ?case by (auto intro: follows_trans)
qed auto

subsection \<open>What a reload does to the rest\<close>

definition hap_names :: "string set" where
  "hap_names = {''haproxy'', ''haproxy-reload''}"

lemma Hap_Reload_cases:
  assumes "Hap_Reload hap cfg m pm v = (e, m', pm', v')"
  obtains (same) "m' = m" and "pm' = pm"
    | (new) p where "pm' = add p pm" and "proc_Name p = ''haproxy-reload''"
      and "hap_proc m' = Some (length (processes pm))"
proof (cases "hap_proc m")
  case None
  with assms show thesis by (intro same) (simp_all add: Hap_Reload_def)
next
  case (Some old)
  obtain r pm1 v1 where sp: "hap_spawn hap ''haproxy-reload'' (HAProxy_BinaryPath (HAProxy cfg))
      [''-f'', configFile m, ''-sf'', itoa (int (Pid pm old))] pm v = (r, pm1, v1)" by (metis prod_cases3)
  from sp show thesis
  proof (cases rule: hap_spawn_cases)
    case (failed err)
    with assms Some sp show thesis
      by (intro same) (auto simp: Hap_Reload_def Let_def split: if_splits)
  next
    case (ok p)
    with assms Some sp show thesis
      by (cases "Pid pm old = 0") (auto simp: Hap_Reload_def intro: same new [of p])
  qed
qed

lemma reload_haproxy_cases:
  assumes "reload_haproxy hap d c rs = Some (r, rs')"
  obtains (same) "run_haproxy rs' = run_haproxy rs" and "run_procs rs' = run_procs rs"
    | (new) p where "run_procs rs' = add p (run_procs rs)" and "proc_Name p = ''haproxy-reload''"
      and "hap_proc (run_haproxy rs') = Some (length (processes (run_procs rs)))"
proof (cases "HAProxyChanged d")
  case False
  with assms show thesis by (intro same) (simp_all add: reload_haproxy_def)
next
  case True
  let ?cfg = "adopt_haproxy c (appCfg rs)"
  obtain e1 v1 where g: "GenerateConfig hap ?cfg (run_instances rs) (run_haproxy rs) (run_outside rs) = Some (e1, v1)"
    using assms True by (auto simp: reload_haproxy_def Let_def split: option.splits)
  show thesis
  proof (cases e1)
    case (Some err)
    with assms True g show thesis by (intro same) (auto simp: reload_haproxy_def)
  next
    case None
    obtain e m pm v where h: "Hap_Reload hap ?cfg (run_haproxy rs) (run_procs rs) v1 = (e, m, pm, v)"
      by (metis prod_cases4)
    have "run_haproxy rs' = m" and "run_procs rs' = pm"
      using assms True g None h by (auto simp: reload_haproxy_def)
    with h show thesis by (cases rule: Hap_Reload_cases) (auto intro: same new)
  qed
qed

lemma handleReload_cases:
  assumes "handleReload env hap rs = Some (res, rs')"
  obtains (bad) e where "Load env reload_options = Inl e" and "rs' = rs"
    | (loaded) c where "Load env reload_options = Inr c" and "appCfg rs' = adopted c (appCfg rs)"
      and "run_daemon rs' = (let d = diffConfig (appCfg rs) c
            in if CountryListChanged d \<or> RotationChanged d then UpdateConfig c (run_daemon rs) else run_daemon rs)"
proof (cases "Load env reload_options")
  case (Inl e)
  with assms show thesis by (intro bad) (simp_all add: handleReload_def)
next
  case (Inr c)
  let ?d = "diffConfig (appCfg rs) c"
  obtain r1 where h: "reload_haproxy hap ?d c (reload_country ?d c rs) = Some (r1, rs')"
    using assms Inr by (auto simp: handleReload_def Let_def split: option.splits)
  have "run_daemon rs' = run_daemon (reload_country ?d c rs)"
    using appCfg_reload_haproxy [OF h] by simp
  with handleReload_adopts [OF Inr assms] Inr show thesis
    by (intro loaded) (auto simp: reload_country_def Let_def)
qed

lemma handleReload_procs:
  assumes "handleReload env hap rs = Some (res, rs')"
  obtains (same) "run_haproxy rs' = run_haproxy rs" and "run_procs rs' = run_procs rs"
    | (new) p where "run_procs rs' = add p (run_procs rs)" and "proc_Name p = ''haproxy-reload''"
      and "hap_proc (run_haproxy rs') = Some (length (processes (run_procs rs)))"
proof (cases "Load env reload_options")
  case (Inl e)
  with assms show thesis by (intro same) (simp_all add: handleReload_def)
next
  case (Inr c)
  let ?d = "diffConfig (appCfg rs) c"
  obtain r1 where h: "reload_haproxy hap ?d c (reload_country ?d c rs) = Some (r1, rs')"
    using assms Inr by (auto simp: handleReload_def Let_def split: option.splits)
  then show thesis by (cases rule: reload_haproxy_cases) (auto intro: same new)
qed

subsection \<open>Which component holds which process\<close>

definition typed_inv :: "(int \<times> int \<times> int \<times> int \<times> Version \<times> string list \<times> string) list \<Rightarrow> circuitInstance list \<Rightarrow> 'o running \<Rightarrow> bool" where
  "typed_inv made renewed s \<longleftrightarrow>
     (let w = run_world s; pm = procMgr w in
      map made_part (insts_of w) = made \<and> r_instances (prog_renewer (run_prog s)) = renewed \<and>
      handles_typed w \<and> set (proc_names pm) \<subseteq> tor_names w \<union> hap_names \<and>
      (\<exists>h. hap_proc (prog_haproxy (run_prog s)) = Some h \<and> holds pm h hap_names))"

lemma typed_inv_follows:
  assumes "typed_inv made renewed s" and "follows (run_world s) w"
  shows "typed_inv made renewed (with_world w s)"
  using assms tor_names_follows [OF assms(2)]
  by (auto simp: typed_inv_def follows_def Let_def intro: holds_append)

lemma typed_inv_rotation [simp]: "typed_inv made renewed (s\<lparr>run_rotation := r\<rparr>) = typed_inv made renewed s"
  by (simp add: typed_inv_def)

lemma typed_inv_reload:
  assumes inv: "typed_inv made renewed s" and h: "handleReload env hap (to_run_state s) = Some (res, rs)"
  shows "typed_inv made renewed (from_run_state rs s)"
  using h
proof (cases rule: handleReload_procs)
  case same
  with inv show ?thesis
    by (simp add: typed_inv_def from_run_state_def to_run_state_def handles_typed_def tor_names_def Let_def
        cong: option.case_cong)
next
  case (new p)
  let ?pm = "add p (procMgr (run_world s))"
  have names: "proc_names ?pm = proc_names (procMgr (run_world s)) @ [''haproxy-reload'']"
    using new(2) by simp
  have "handles_typed ((run_world s)\<lparr>procMgr := ?pm, outside := run_outside rs\<rparr>)"
    using inv holds_append [OF _ names]
    by (auto simp: typed_inv_def handles_typed_def list_all_iff Let_def split: option.splits)
  moreover have "holds ?pm (length (processes (procMgr (run_world s)))) hap_names"
    using holds_last [OF names] by (auto simp: holds_def hap_names_def)
  ultimately show ?thesis
    using inv new names
    by (auto simp: typed_inv_def from_run_state_def to_run_state_def tor_names_def hap_names_def Let_def)
qed

lemma turn_in_range:
  "turn_instance r idx w = Some k \<Longrightarrow> k < length (insts_of w)"
  using find_instance_Some by (fastforce simp: turn_instance_def)

lemma set_country_length [simp]: "length (insts_of (set_country k c w)) = length (insts_of w)"
  by (simp add: set_country_def set_instance_def)

lemma typed_inv_step:
  assumes "run_step sys hap s ev s'" and "typed_inv made renewed s"
  shows "typed_inv made renewed s'"
  using assms
proof (induction rule: run_step.induct)
  case (leave s r idx idxs draw c k e w)
  from stop_at_follows [OF turn_in_range [OF leave(5)] leave(6)] leave(7) show ?case
    by (intro typed_inv_follows) simp_all
next
  case (move s r c idx idxs k e w)
  note k = turn_in_range [OF move(4)]
  have "follows (set_country k c (run_world s)) w"
    using start_at_follows [OF _ move(5)] k by simp
  with set_country_follows [OF k] have "follows (run_world s) w" by (rule follows_trans)
  with move(6) show ?case by (intro typed_inv_follows) simp_all
qed (auto intro: typed_inv_follows supervise_follows typed_inv_reload)

subsection \<open>Countries and the shared configuration\<close>

text \<open>Every country that a configuration seen so far allows.\<close>

definition allowed_by :: "Config list \<Rightarrow> string set" where
  "allowed_by cs = (\<Union>c \<in> set cs. set (Accepted (Country c)) - set (Blacklisted (Country c)))"

definition rotation_ok :: "Config list \<Rightarrow> rotation \<Rightarrow> bool" where
  "rotation_ok cs r \<longleftrightarrow> set (rot_accepted r) - set (rot_blacklisted r) \<subseteq> allowed_by cs \<and>
     (\<forall>c. rot_moving r = Some c \<longrightarrow> c \<in> allowed_by cs)"

definition country_inv :: "Config list \<Rightarrow> 'o running \<Rightarrow> bool" where
  "country_inv cs s \<longleftrightarrow>
     inst_Country ` set (insts_of (run_world s)) \<subseteq> allowed_by cs \<and>
     daemon_cfg (prog_daemon (run_prog s)) \<in> set cs \<and>
     Country (daemon_cfg (prog_daemon (run_prog s))) = Country (run_cfg s) \<and>
     (\<forall>r. run_rotation s = Some r \<longrightarrow> rotation_ok cs r)"

lemma allowed_by_mono: "set cs \<subseteq> set cs' \<Longrightarrow> allowed_by cs \<subseteq> allowed_by cs'"
  by (auto simp: allowed_by_def)

lemma rotation_ok_more: "rotation_ok cs r \<Longrightarrow> rotation_ok (new @ cs) r"
  using allowed_by_mono [of cs "new @ cs"] by (auto simp: rotation_ok_def)

lemma pick_allowed:
  assumes "pickDifferentCountry cur accepted blacklisted draw = Some (Inr c)"
  shows "c \<in> set accepted - set blacklisted"
proof -
  let ?cs = "filter (\<lambda>c. c \<noteq> cur) (allowed accepted blacklisted)"
  have "c \<in> set ?cs"
    using assms unfolding pickDifferentCountry_def pickDifferentCountry_candidates Let_def
    by (auto simp del: set_filter split: if_splits)
  then show ?thesis by (simp add: allowed_def)
qed

lemma turn_choice_allowed:
  "turn_choice r idx draw = Some (Inr c) \<Longrightarrow> rotation_ok cs r \<Longrightarrow> c \<in> allowed_by cs"
  using pick_allowed by (fastforce simp: turn_choice_def rotation_ok_def split: if_splits)

lemma same_countries:
  "map identity (insts_of w') = map identity (insts_of w) \<Longrightarrow>
   inst_Country ` set (insts_of w') = inst_Country ` set (insts_of w)"
  using identity_eq_maps(2) by (metis list.set_map)

lemma at_identity:
  assumes "length xs' = length xs" and "\<And>i. i \<noteq> k \<Longrightarrow> xs' ! i = xs ! i"
    and "identity (xs' ! k) = identity (xs ! k)"
  shows "map identity xs' = map identity xs"
  using assms by (intro nth_equalityI) (auto, metis)

lemma start_at_identity:
  "start_at sys cfg k w = (e, w') \<Longrightarrow> k < length (insts_of w) \<Longrightarrow>
   map identity (insts_of w') = map identity (insts_of w)"
  by (rule at_identity [where k = k]) (fact start_at_effect)+

lemma stop_at_identity:
  "stop_at sys k w = (e, w') \<Longrightarrow> k < length (insts_of w) \<Longrightarrow>
   map identity (insts_of w') = map identity (insts_of w)"
  by (rule at_identity [where k = k]) (fact stop_at_effect)+

lemma set_country_countries:
  "inst_Country ` set (insts_of (set_country k c w)) \<subseteq> insert c (inst_Country ` set (insts_of w))"
  using set_update_subset_insert [of "insts_of w" k "(insts_of w ! k)\<lparr>inst_Country := c\<rparr>"]
  by (auto simp: set_country_def set_instance_def)

lemma country_inv_world:
  assumes "country_inv cs s" and "map identity (insts_of w) = map identity (insts_of (run_world s))"
  shows "country_inv cs (with_world w s)"
  using assms same_countries [OF assms(2)] by (simp add: country_inv_def)

lemma country_inv_rotation:
  "country_inv cs s \<Longrightarrow> rotation_ok cs r \<Longrightarrow> country_inv cs (s\<lparr>run_rotation := Some r\<rparr>)"
  "country_inv cs s \<Longrightarrow> country_inv cs (s\<lparr>run_rotation := None\<rparr>)"
  by (simp_all add: country_inv_def)

lemma begin_rotation_ok:
  "begin_rotation cfg snap shuffle = Some r \<Longrightarrow> cfg \<in> set cs \<Longrightarrow> rotation_ok cs r"
  by (auto simp: begin_rotation_def rotation_ok_def allowed_by_def Let_def split: if_splits)

lemma country_inv_reload:
  assumes inv: "country_inv cs s" and h: "handleReload env hap (to_run_state s) = Some (res, rs)"
  shows "country_inv (seen (EvReload env) @ cs) (from_run_state rs s)"
  using h
proof (cases rule: handleReload_cases)
  case (bad e)
  with inv show ?thesis
    by (simp add: country_inv_def from_run_state_def to_run_state_def seen_def)
next
  case (loaded c)
  have "Country (adopted c (run_cfg s)) = (let d = diffConfig (run_cfg s) c
      in if CountryListChanged d \<or> RotationChanged d then Country c else Country (run_cfg s))"
    by (auto simp: adopted_def adopt_haproxy_def Let_def)
  with loaded inv show ?thesis
    using allowed_by_mono [of cs "c # cs"] rotation_ok_more [of cs _ "[c]"]
    by (auto simp: country_inv_def from_run_state_def to_run_state_def seen_def UpdateConfig_def Let_def)
qed

lemma country_inv_step:
  assumes "run_step sys hap s ev s'" and "country_inv cs s"
  shows "country_inv (seen ev @ cs) s'"
  using assms
proof (induction rule: run_step.induct)
  case (timer s shuffle r)
  have "rotation_ok cs r"
    using begin_rotation_ok [OF timer(3)] timer(4) by (simp add: country_inv_def)
  with timer(4) show ?case by (simp add: seen_def country_inv_rotation)
next
  case (skip s r idx idxs draw e)
  then have "rotation_ok cs r" by (simp add: country_inv_def)
  with skip(5) show ?case by (simp add: seen_def country_inv_rotation rotation_ok_def)
next
  case (missing s r idx idxs draw c)
  then have "rotation_ok cs r" by (simp add: country_inv_def)
  with missing(6) show ?case by (simp add: seen_def country_inv_rotation rotation_ok_def)
next
  case (leave s r idx idxs draw c k e w)
  then have r: "rotation_ok cs r" by (simp add: country_inv_def)
  with turn_choice_allowed [OF leave(4)] have "rotation_ok cs (r\<lparr>rot_moving := Some c\<rparr>)"
    by (simp add: rotation_ok_def)
  with leave(7) have "country_inv cs (s\<lparr>run_rotation := Some (r\<lparr>rot_moving := Some c\<rparr>)\<rparr>)"
    by (intro country_inv_rotation) simp_all
  with stop_at_identity [OF leave(6) turn_in_range [OF leave(5)]] show ?case
    by (simp add: seen_def country_inv_world)
next
  case (move s r c idx idxs k e w)
  then have r: "rotation_ok cs r" by (simp add: country_inv_def)
  have "map identity (insts_of w) = map identity (insts_of (set_country k c (run_world s)))"
    using start_at_identity [OF move(5)] turn_in_range [OF move(4)] by simp
  from same_countries [OF this] set_country_countries [of k c "run_world s"]
  have "inst_Country ` set (insts_of w) \<subseteq> insert c (inst_Country ` set (insts_of (run_world s)))" by simp
  with r move(2,6) show ?case
    by (auto simp: seen_def country_inv_def rotation_ok_def)
next
  case (supervisor s ev)
  then show ?case by (simp add: seen_def country_inv_world supervise_identity)
next
  case (reload env s res rs)
  then show ?case by (rule country_inv_reload [rotated])
qed (simp_all add: seen_def country_inv_world country_inv_rotation)

text \<open>What reloads leave of the configuration the program was started with.\<close>

definition config_inv :: "Config \<Rightarrow> 'o running \<Rightarrow> bool" where
  "config_inv cfg s \<longleftrightarrow> Validate (run_cfg s) = None \<and> Tor (run_cfg s) = Tor cfg \<and>
     Relay (run_cfg s) = Relay cfg \<and> Paths (run_cfg s) = Paths cfg \<and>
     PerCountry (Instances (run_cfg s)) = PerCountry (Instances cfg) \<and>
     Countries (Instances (run_cfg s)) = Countries (Instances cfg)"

lemma Load_Inr_valid: "Load env opts = Inr c \<Longrightarrow> Validate c = None"
  by (elim Load_InrE)

lemma adopted_sections:
  "Tor (adopted c cfg) = Tor cfg" "Relay (adopted c cfg) = Relay cfg" "Paths (adopted c cfg) = Paths cfg"
  "PerCountry (Instances (adopted c cfg)) = PerCountry (Instances cfg)"
  "Countries (Instances (adopted c cfg)) = Countries (Instances cfg)"
  "Proxy (adopted c cfg) \<in> {Proxy cfg, Proxy c}" "Privoxy (adopted c cfg) \<in> {Privoxy cfg, Privoxy c}"
  "ProxyMode (adopted c cfg) \<in> {ProxyMode cfg, ProxyMode c}" "DNS (adopted c cfg) = DNS cfg"
  "BridgeType (adopted c cfg) = BridgeType cfg" "Profile (adopted c cfg) = Profile cfg"
  "LogLevel (adopted c cfg) = LogLevel cfg" "Logging (adopted c cfg) = Logging cfg"
  by (auto simp: adopted_def adopt_haproxy_def Let_def)

lemma port_sections:
  "snd ` set (port_fields cfg) =
     {Privoxy_StartPort (Privoxy cfg), DistPort (DNS cfg)} \<union>
     (\<lambda>t. {StartSocksPort t, StartControlPort t, StartHTTPPort t, StartTransportPort t, StartDNSPort t,
         HS_StartPort (HiddenService t)}) (Tor cfg) \<union>
     (\<lambda>p. {Master_Port (Master p), SocksPort (Master p), HTTPPort (Master p), TransparentPort (Master p),
         Stats_Port (Stats p)}) (Proxy cfg)"
  by (simp add: port_fields_def)

text \<open>Validation looks at each section by itself, apart from the instances and their ports, which no
  reload changes: a mixture of two valid configurations is valid.\<close>

lemma adopted_valid:
  assumes "Validate cfg = None" and "Validate c = None"
  shows "Validate (adopted c cfg) = None"
proof -
  note old = iffD1 [OF Validate_None_iff assms(1)] and new = iffD1 [OF Validate_None_iff assms(2)]
  have ports: "validatePorts (adopted c cfg) = None"
    using old new adopted_sections(6,7) [of c cfg]
    unfolding ports_in_range_iff port_sections adopted_sections(1,9) by (elim insertE emptyE) simp_all
  have mode: "ProxyMode (adopted c cfg) \<in> {''native'', ''legacy''}"
    using old new adopted_sections(8) [of c cfg] by (elim insertE emptyE) simp_all
  show ?thesis
    unfolding Validate_None_iff adopted_sections(1-5,9-13)
    using old ports mode by (elim conjE) (intro conjI; assumption)
qed

lemma config_inv_step:
  assumes "run_step sys hap s ev s'" and "config_inv cfg s"
  shows "config_inv cfg s'"
  using assms
proof (induction rule: run_step.induct)
  case (reload env s res rs)
  from reload(1) show ?case
  proof (cases rule: handleReload_cases)
    case (bad e)
    with reload(2) show ?thesis by (simp add: config_inv_def from_run_state_def to_run_state_def)
  next
    case (loaded c)
    with reload(2) adopted_valid [OF _ Load_Inr_valid [OF loaded(1)]] show ?thesis
      by (simp add: config_inv_def from_run_state_def to_run_state_def adopted_sections)
  qed
qed (simp_all add: config_inv_def)

subsection \<open>Every reachable state\<close>

lemma start_services_full:
  assumes "start_services inp cfg w = Some (Inr p, w')"
  shows "prog_world p = w'" and "torMgr w' = torMgr w"
    and "r_instances (prog_renewer p) = r_instances (make_renewer cfg (insts_of w))"
    and "proc_names (procMgr w') = proc_names (procMgr w) @ [''haproxy'']"
    and "hap_proc (prog_haproxy p) = Some (length (processes (procMgr w)))"
    and "daemon_cfg (prog_daemon p) = cfg"
proof -
  let ?hm = "NewHAProxyManager cfg (in_password inp)"
  obtain o1 hm' pm o2 d where h: "Hap_Start (in_hap inp) cfg ?hm (procMgr w) o1 = (None, hm', pm, o2)"
    and p: "p = \<lparr>prog_world = w', prog_renewer = (make_renewer cfg (insts_of w))\<lparr>r_started := True\<rparr>,
          prog_haproxy = hm', prog_daemon = d\<rparr>"
    and w': "w' = w\<lparr>procMgr := pm, outside := o2\<rparr>" and d: "Start (NewDaemon cfg) = Some d"
    using assms
    by (auto simp: start_services_def Renewer_Start_def Let_def split: if_splits option.splits prod.splits)
  obtain r pm1 o3 where s: "hap_spawn (in_hap inp) ''haproxy'' (HAProxy_BinaryPath (HAProxy cfg))
      [''-f'', configFile ?hm] (procMgr w) o1 = (r, pm1, o3)" by (metis prod_cases3)
  have "daemon_cfg d = cfg"
    using d by (auto simp: Start_def NewDaemon_def Let_def split: if_splits option.splits)
  with p show "daemon_cfg (prog_daemon p) = cfg" by simp
  show "prog_world p = w'" and "torMgr w' = torMgr w"
    and "r_instances (prog_renewer p) = r_instances (make_renewer cfg (insts_of w))"
    using p w' by simp_all
  from s have "proc_names pm = proc_names (procMgr w) @ [''haproxy''] \<and>
      hap_proc hm' = Some (length (processes (procMgr w)))"
  proof (cases rule: hap_spawn_cases)
    case (failed err)
    with s h show ?thesis by (simp add: Hap_Start_def)
  next
    case (ok q)
    with s h show ?thesis by (auto simp: Hap_Start_def)
  qed
  with p w' show "proc_names (procMgr w') = proc_names (procMgr w) @ [''haproxy'']"
    and "hap_proc (prog_haproxy p) = Some (length (processes (procMgr w)))" by simp_all
qed

lemma created_unheld:
  "0 < PerCountry (Instances cfg) \<Longrightarrow> DetectAndCreate cfg det countries NewTorManager = (None, tm) \<Longrightarrow>
   i \<in> set (instances tm) \<Longrightarrow> inst_proc i = None"
  using created_closed [of cfg] by (auto simp: created_def DetectAndCreate_def split: sum.splits)

lemma startup_typed:
  assumes "startup inp cfg v = Some (Inr p, w)" and "Validate cfg = None"
  shows "typed_inv (map made_part (insts_of w)) (r_instances (make_renewer cfg (insts_of w)))
    \<lparr>run_cfg = cfg, run_prog = p, run_rotation = None\<rparr>"
proof -
  from startup_services [OF assms(1)] obtain countries tm u where
    create: "DetectAndCreate cfg (in_detected inp) countries NewTorManager = (None, tm)"
    and run: "start_services inp cfg (supervise (in_tor inp) cfg (in_supervisors inp)
       \<lparr>torMgr = tm, procMgr = NewManager (TempFiles (Paths cfg)), outside = u\<rparr>) = Some (Inr p, w)"
    by blast
  let ?w0 = "\<lparr>torMgr = tm, procMgr = NewManager (TempFiles (Paths cfg)), outside = u\<rparr>"
  let ?w1 = "supervise (in_tor inp) cfg (in_supervisors inp) ?w0"
  have "0 < PerCountry (Instances cfg)" using assms(2) by (simp add: Validate_None_iff)
  with created_unheld [OF _ create] have "handles_typed ?w0"
    by (simp add: handles_typed_def list_all_iff)
  moreover have "proc_names (procMgr ?w0) = []" by (simp add: proc_names_def NewManager_def)
  moreover have f: "follows ?w0 ?w1" by (rule supervise_follows)
  ultimately have t1: "handles_typed ?w1" and n1: "set (proc_names (procMgr ?w1)) \<subseteq> tor_names ?w1"
    using tor_names_follows [OF f] by (auto simp: follows_def)
  note full = start_services_full [OF run]
  have "handles_typed w"
    using t1 holds_append [OF _ full(4)] full(2)
    by (auto simp: handles_typed_def list_all_iff split: option.splits)
  moreover have "holds (procMgr w) (length (processes (procMgr ?w1))) hap_names"
    using holds_last [OF full(4)] by (auto simp: holds_def hap_names_def)
  ultimately show ?thesis
    using full n1 by (auto simp: typed_inv_def tor_names_def hap_names_def Let_def)
qed

lemma startup_country:
  assumes "startup inp cfg v = Some (Inr p, w)" and "Validate cfg = None"
  shows "country_inv [cfg] \<lparr>run_cfg = cfg, run_prog = p, run_rotation = None\<rparr>"
proof -
  from startup_services [OF assms(1)] obtain w1 where run: "start_services inp cfg w1 = Some (Inr p, w)"
    by blast
  show ?thesis
    using startup_instances(3) [OF assms] start_services_full(1,6) [OF run]
    by (auto simp: country_inv_def allowed_by_def)
qed

lemma run_reach_inv:
  assumes "run_reach inp cfg cs s" and "Validate cfg = None"
  obtains v p w where "startup inp cfg v = Some (Inr p, w)"
    and "typed_inv (map made_part (insts_of w)) (r_instances (make_renewer cfg (insts_of w))) s"
    and "country_inv cs s" and "config_inv cfg s"
proof -
  have "\<exists>v p w. startup inp cfg v = Some (Inr p, w) \<and>
      typed_inv (map made_part (insts_of w)) (r_instances (make_renewer cfg (insts_of w))) s \<and>
      country_inv cs s \<and> config_inv cfg s"
    using assms(1)
  proof (induction rule: run_reach.induct)
    case (start v p w)
    then show ?case
      using startup_typed [OF start assms(2)] startup_country [OF start assms(2)] assms(2)
      by (auto simp: config_inv_def)
  next
    case (step cs s ev s')
    then show ?case
      by (blast intro: typed_inv_step country_inv_step config_inv_step)
  qed
  then show thesis using that by blast
qed

subsection \<open>A running program, a process that exits and a reload\<close>

lemma handleReload_same:
  "Load env reload_options = Inr (appCfg rs) \<Longrightarrow> \<exists>res. handleReload env hap rs = Some (res, rs)"
  by (simp add: handleReload_def reload_country_def reload_haproxy_def diffConfig_def Let_def)

lemma demo_reach: "\<exists>s. run_reach demo_inputs Defaults [Defaults, Defaults] s \<and> run_cfg s = Defaults"
proof -
  obtain p w where "startup demo_inputs Defaults 7 = Some (Inr p, w)" using demo_startup by blast
  note r0 = run_reach.start [OF this]
  let ?s = "\<lparr>run_cfg = Defaults, run_prog = p, run_rotation = None\<rparr>"
  let ?s1 = "with_world (supervise demo_tor_sys Defaults [SupExit 0 (Some ''signal: killed'')] w) ?s"
  have "run_step demo_tor_sys demo_run_hap ?s (EvSupervisor (SupExit 0 (Some ''signal: killed'')))
      (with_world (supervise demo_tor_sys (run_cfg ?s) [SupExit 0 (Some ''signal: killed'')] (run_world ?s)) ?s)"
    by (rule run_step.supervisor)
  then obtain s1 where "run_step (in_tor demo_inputs) (in_hap demo_inputs) ?s
      (EvSupervisor (SupExit 0 (Some ''signal: killed''))) s1" and c1: "run_cfg s1 = Defaults"
    by (auto simp: demo_inputs_def)
  from run_reach.step [OF r0 this(1)] have r1: "run_reach demo_inputs Defaults [Defaults] s1"
    by (simp add: seen_def)
  from c1 obtain res where "handleReload bare_env (in_hap demo_inputs) (to_run_state s1) = Some (res, to_run_state s1)"
    using handleReload_same [of bare_env "to_run_state s1"] by (auto simp: to_run_state_def reload_bare)
  from run_reach.step [OF r1 run_step.reload [OF this]]
  have "run_reach demo_inputs Defaults [Defaults, Defaults] (from_run_state (to_run_state s1) s1)"
    by (simp add: seen_def reload_bare)
  moreover have "run_cfg (from_run_state (to_run_state s1) s1) = Defaults"
    using c1 by (simp add: from_run_state_def to_run_state_def)
  ultimately show ?thesis by blast
qed

subsection \<open>The properties of the running program\<close>

lemma startup_created:
  assumes "startup inp cfg v = Some (Inr p, w)" and "Validate cfg = None"
  obtains ver countries where "map made_part (insts_of w) = map made_part (created cfg ver countries)"
proof -
  from startup_services [OF assms(1)] obtain countries tm u where
    create: "DetectAndCreate cfg (in_detected inp) countries NewTorManager = (None, tm)"
    and run: "start_services inp cfg (supervise (in_tor inp) cfg (in_supervisors inp)
       \<lparr>torMgr = tm, procMgr = NewManager (TempFiles (Paths cfg)), outside = u\<rparr>) = Some (Inr p, w)"
    by blast
  from create obtain ver where "instances tm = created cfg ver countries"
    by (auto simp: created_def DetectAndCreate_def split: sum.splits)
  with start_services_full(2) [OF run]
    supervise_follows [of "\<lparr>torMgr = tm, procMgr = NewManager (TempFiles (Paths cfg)), outside = u\<rparr>"
      "in_tor inp" cfg "in_supervisors inp"]
  show thesis by (intro that [of ver countries]) (simp add: follows_def)
qed

lemma running_made:
  assumes "run_reach inp cfg cs s" and "Validate cfg = None" and "insts = insts_of (run_world s)"
  shows "map inst_ID insts = map int [0..<length insts]"
    and "length insts = nat (Countries (Instances cfg)) * nat (PerCountry (Instances cfg))"
    and "map inst_SocksPort insts = map (\<lambda>k. add64 (StartSocksPort (Tor cfg)) (int k)) [0..<length insts]"
    and "map inst_ControlPort insts = map (\<lambda>k. add64 (StartControlPort (Tor cfg)) (int k)) [0..<length insts]"
proof -
  from run_reach_inv [OF assms(1,2)] obtain v p w where st: "startup inp cfg v = Some (Inr p, w)"
    and t: "typed_inv (map made_part (insts_of w)) (r_instances (make_renewer cfg (insts_of w))) s" by blast
  from startup_created [OF st assms(2)] obtain ver countries where
    w: "map made_part (insts_of w) = map made_part (created cfg ver countries)" .
  with t assms(3) have f: "map made_part insts = map made_part (created cfg ver countries)"
    by (simp add: typed_inv_def Let_def)
  have "length insts = length (insts_of w)"
    using f w by (metis length_map)
  with startup_instances(1) [OF st assms(2)]
  show "length insts = nat (Countries (Instances cfg)) * nat (PerCountry (Instances cfg))" by simp
  have len: "length insts = length (created cfg ver countries)" using f by (metis length_map)
  have "0 < PerCountry (Instances cfg)" using assms(2) by (simp add: Validate_None_iff)
  note made = created_closed [OF this, of ver countries]
  have parts: "map g insts = map g (created cfg ver countries)" if "\<And>i. g i = h (made_part i)" for g :: "Instance \<Rightarrow> int" and h
  proof -
    have "g = h \<circ> made_part" using that by auto
    with f show ?thesis by (metis map_map)
  qed
  have len': "length insts = length countries * nat (PerCountry (Instances cfg))"
    using len made by simp
  show "map inst_ID insts = map int [0..<length insts]"
    using parts [of inst_ID fst] made len' by (simp add: made_part_def comp_def)
  show "map inst_SocksPort insts = map (\<lambda>k. add64 (StartSocksPort (Tor cfg)) (int k)) [0..<length insts]"
    using parts [of inst_SocksPort "fst \<circ> snd"] made len' by (simp add: made_part_def comp_def)
  show "map inst_ControlPort insts = map (\<lambda>k. add64 (StartControlPort (Tor cfg)) (int k)) [0..<length insts]"
    using parts [of inst_ControlPort "fst \<circ> snd \<circ> snd"] made len' by (simp add: made_part_def comp_def)
qed

lemma nth_id:
  assumes "map inst_ID insts = map int [0..<length insts]" and "k < length insts"
  shows "processName (insts ! k) = ''tor-'' @ itoa (int k)"
  using arg_cong [OF assms(1), of "\<lambda>xs. xs ! k"] assms(2) by (simp add: processName_def)

text \<open>C2. Handles are typed: in every state the running program can reach, whatever its supervisors, the
  rotation and reloads did, an instance that holds a process holds one that was started for its own
  number, HAProxy's manager holds a process of HAProxy, no two of them hold the same one, and the
  process manager knows no other kind of process.\<close>

theorem running_typed:
  assumes "run_reach inp cfg cs s" and "Validate cfg = None"
    and "insts = insts_of (run_world s)" and "procs = processes (procMgr (run_world s))"
  shows "(\<forall>k h. k < length insts \<and> inst_proc (insts ! k) = Some h \<longrightarrow>
       h < length procs \<and> proc_Name (procs ! h) = ''tor-'' @ itoa (int k) \<and>
       hap_proc (prog_haproxy (run_prog s)) \<noteq> Some h \<and>
       (\<forall>j < length insts. inst_proc (insts ! j) = Some h \<longrightarrow> j = k)) \<and>
    (\<exists>h < length procs. hap_proc (prog_haproxy (run_prog s)) = Some h \<and>
       proc_Name (procs ! h) \<in> {''haproxy'', ''haproxy-reload''}) \<and>
    proc_Name ` set procs \<subseteq> {''haproxy'', ''haproxy-reload''} \<union> (\<lambda>k. ''tor-'' @ itoa (int k)) ` {..<length insts}"
proof -
  from run_reach_inv [OF assms(1,2)] obtain made renewed where t: "typed_inv made renewed s" by blast
  note ids = running_made(1) [OF assms(1-3)]
  have own: "h < length procs \<and> proc_Name (procs ! h) = ''tor-'' @ itoa (int k)"
    if "k < length insts" "inst_proc (insts ! k) = Some h" for k h
  proof -
    have "case inst_proc (insts ! k) of None \<Rightarrow> True
        | Some h \<Rightarrow> holds (procMgr (run_world s)) h {processName (insts ! k)}"
      using t that(1) unfolding assms(3) by (simp add: typed_inv_def handles_typed_def list_all_length Let_def)
    with that show ?thesis
      using nth_id [OF ids that(1)] assms(4) by (auto simp: holds_def proc_names_def)
  qed
  obtain h where h: "hap_proc (prog_haproxy (run_prog s)) = Some h" "h < length procs"
    "proc_Name (procs ! h) \<in> {''haproxy'', ''haproxy-reload''}"
    using t assms(4) by (auto simp: typed_inv_def holds_def proc_names_def hap_names_def Let_def)
  have "proc_Name ` set procs \<subseteq> hap_names \<union> tor_names (run_world s)"
    using t assms(4) by (auto simp: typed_inv_def proc_names_def Let_def)
  moreover have "tor_names (run_world s) = (\<lambda>k. ''tor-'' @ itoa (int k)) ` {..<length insts}"
    using nth_id [OF ids] assms(3) by (force simp: tor_names_def in_set_conv_nth)
  ultimately have kinds: "proc_Name ` set procs \<subseteq>
      {''haproxy'', ''haproxy-reload''} \<union> (\<lambda>k. ''tor-'' @ itoa (int k)) ` {..<length insts}"
    by (simp add: hap_names_def)
  have apart: "hap_proc (prog_haproxy (run_prog s)) \<noteq> Some h'" if "k < length insts" "inst_proc (insts ! k) = Some h'" for k h'
    using own [OF that] h by auto
  have alone: "j = k" if "k < length insts" "inst_proc (insts ! k) = Some h'"
    "j < length insts" "inst_proc (insts ! j) = Some h'" for j k h'
    using own [OF that(1,2)] own [OF that(3,4)] by simp
  show ?thesis
  proof (intro conjI)
    show "\<exists>h < length procs. hap_proc (prog_haproxy (run_prog s)) = Some h \<and>
        proc_Name (procs ! h) \<in> {''haproxy'', ''haproxy-reload''}"
      using h by blast
  qed (use own apart alone kinds in auto)
qed

lemma running_typed_witness:
  "\<exists>s. run_reach demo_inputs Defaults [Defaults, Defaults] s \<and>
     (\<exists>h < length (processes (procMgr (run_world s))). hap_proc (prog_haproxy (run_prog s)) = Some h)"
  using demo_reach running_typed [OF _ Validate_Defaults refl refl] by blast



text \<open>C3. In every reachable state each instance is in a country that some configuration seen so far, the
  first or a reloaded one, accepts and does not blacklist; the daemon rotates by the country
  section that the other components share; and the shared configuration, which reloads put
  together from several files' settings, is valid and keeps the first one's Tor, relay and path
  settings.\<close>

theorem running_countries:
  assumes "run_reach inp cfg cs s" and "Validate cfg = None"
  shows "inst_Country ` set (insts_of (run_world s)) \<subseteq> allowed_by cs \<and>
    daemon_cfg (prog_daemon (run_prog s)) \<in> set cs \<and>
    Country (daemon_cfg (prog_daemon (run_prog s))) = Country (run_cfg s) \<and>
    Validate (run_cfg s) = None \<and> Tor (run_cfg s) = Tor cfg \<and> Relay (run_cfg s) = Relay cfg \<and>
    Paths (run_cfg s) = Paths cfg"
proof -
  from run_reach_inv [OF assms] obtain "country_inv cs s" and "config_inv cfg s" by blast
  then show ?thesis by (simp add: country_inv_def config_inv_def)
qed

lemma running_countries_witness:
  "\<exists>s. run_reach demo_inputs Defaults [Defaults, Defaults] s \<and> Validate (run_cfg s) = None \<and>
     inst_Country ` set (insts_of (run_world s)) \<subseteq> set (Accepted (Country Defaults))"
proof -
  obtain s where "run_reach demo_inputs Defaults [Defaults, Defaults] s" using demo_reach by blast
  moreover have "allowed_by [Defaults, Defaults] \<subseteq> set (Accepted (Country Defaults))"
    by (auto simp: allowed_by_def)
  ultimately show ?thesis
    using running_countries [OF _ Validate_Defaults] by blast
qed

end
