(* ===== verification/Cmd_Files.thy ===== *)
theory Cmd_Files
  imports Cmd_Running Torrc Proxy_Files
begin

section \<open>The files of a running program agree\<close>

text \<open>
  What Tor is told about an instance, what HAProxy balances over and what the renewal of circuits
  dials come from three places of the program. Read back from the files they would be written to
  in any reachable state, they agree.
\<close>

subsection \<open>Strings without line breaks\<close>

lemma unbroken_split_on: "unbroken s \<Longrightarrow> list_all unbroken (split_on sep s)"
  by (induction s) (auto split: list.splits)

lemma unbroken_clean_step:
  "unbroken c \<Longrightarrow> list_all unbroken st \<Longrightarrow> list_all unbroken (clean_step rooted st c)"
  by (auto simp: clean_step.simps newline_char_def split: list.splits)

lemma unbroken_clean:
  "list_all unbroken cs \<Longrightarrow> list_all unbroken st \<Longrightarrow> list_all unbroken (foldl (clean_step rooted) st cs)"
  by (induction cs arbitrary: st) (simp_all add: unbroken_clean_step)

lemma unbroken_dir_prefix: "unbroken dir \<Longrightarrow> unbroken (dir_prefix dir)"
  by (simp add: dir_prefix_def Let_def newline_char_def unbroken_join unbroken_clean unbroken_split_on)

lemma unbroken_data_dir: "unbroken (TempFiles (Paths cfg)) \<Longrightarrow> unbroken (data_dir cfg inst)"
  unfolding data_dir_def filepath_Join_plain [OF plain_data_name]
  by (simp add: unbroken_dir_prefix newline_char_def)

definition config_unbroken :: "Config \<Rightarrow> bool" where
  "config_unbroken cfg \<longleftrightarrow> list_all unbroken
     ([TempFiles (Paths cfg), BasePath (HiddenService (Tor cfg)), AutomapHostsSuffixes (Tor cfg),
       WarnPlaintextPorts (Tor cfg), RejectPlaintextPorts (Tor cfg)])"

definition countries_unbroken :: "Config list \<Rightarrow> bool" where
  "countries_unbroken cs \<longleftrightarrow> list_all (\<lambda>c. list_all unbroken (Accepted (Country c))) cs"

lemma typed_inv_made: "typed_inv made renewed s \<Longrightarrow> map made_part (insts_of (run_world s)) = made"
  by (simp add: typed_inv_def Let_def)

text \<open>No bridges are ever set on the instances of a running program.\<close>

lemma running_no_bridges:
  assumes "run_reach inp cfg cs s" and "Validate cfg = None" and "inst \<in> set (insts_of (run_world s))"
  shows "bridgeLines inst = []" and "bridgeTransport inst = []"
proof -
  from run_reach_inv [OF assms(1,2)] obtain v p w where st: "startup inp cfg v = Some (Inr p, w)"
    and t: "typed_inv (map made_part (insts_of w)) (r_instances (make_renewer cfg (insts_of w))) s"
    and "country_inv cs s" and "config_inv cfg s" .
  from startup_created [OF st assms(2)] obtain ver countries where
    "map made_part (insts_of w) = map made_part (created cfg ver countries)" .
  with typed_inv_made [OF t]
  have "set (map made_part (insts_of (run_world s))) = set (map made_part (created cfg ver countries))"
    by simp
  with assms(3) obtain i where i: "i \<in> set (created cfg ver countries)" "made_part inst = made_part i"
    by (fastforce simp: image_iff dest: equalityD1)
  have "0 < PerCountry (Instances cfg)" using assms(2) by (simp add: Validate_None_iff)
  with i(1) have "bridgeLines i = [] \<and> bridgeTransport i = []"
    by (auto simp: created_closed create_instance_def NewInstance_def Let_def)
  with i(2) show "bridgeLines inst = []" and "bridgeTransport inst = []"
    by (simp_all add: made_part_def)
qed

lemma running_strings:
  assumes "run_reach inp cfg cs s" and "Validate cfg = None" and "inst \<in> set (insts_of (run_world s))"
    and "config_unbroken cfg" and "countries_unbroken cs"
  shows "list_all unbroken (torrc_strings (run_cfg s) inst)"
proof -
  from run_reach_inv [OF assms(1,2)] obtain v p w where "startup inp cfg v = Some (Inr p, w)"
    and "typed_inv (map made_part (insts_of w)) (r_instances (make_renewer cfg (insts_of w))) s"
    and country: "country_inv cs s" and conf: "config_inv cfg s" .
  have "inst_Country inst \<in> allowed_by cs" using country assms(3) by (auto simp: country_inv_def)
  then have "unbroken (inst_Country inst)"
    using assms(5) by (auto simp: allowed_by_def countries_unbroken_def list_all_iff)
  with conf assms(4) running_no_bridges [OF assms(1-3)] show ?thesis
    by (simp add: torrc_strings_def config_inv_def config_unbroken_def unbroken_data_dir)
qed

subsection \<open>The files\<close>

text \<open>What Tor would read now for an instance; \<open>v\<close> decides the random circuit lifetime.\<close>

definition torrc_now :: "'o run_inputs \<Rightarrow> 'o running \<Rightarrow> Instance \<Rightarrow> 'o \<Rightarrow> string list" where
  "torrc_now inp s inst v =
     lines_of (torrc_file (fst (buildInstanceConfig (in_tor inp) (run_cfg s) inst v)))"

lemma torrc_now_reads:
  assumes "run_reach inp cfg cs s" and "Validate cfg = None" and "inst \<in> set (insts_of (run_world s))"
    and "config_unbroken cfg" and "countries_unbroken cs"
  shows "settings ''SocksPort'' (torrc_now inp s inst v) =
      [itoa (inst_SocksPort inst) @ (if StreamIsolation (Tor (run_cfg s)) then '' IsolateSOCKSAuth'' else [])]"
    and "settings ''ControlPort'' (torrc_now inp s inst v) = [itoa (inst_ControlPort inst)]"
    and "settings ''CookieAuthFile'' (torrc_now inp s inst v) = [data_dir (run_cfg s) inst @ ''/control_auth_cookie'']"
    and "settings ''UseBridges'' (torrc_now inp s inst v) = []"
    and "settings ''Bridge'' (torrc_now inp s inst v) = []"
proof -
  obtain ic v' where b: "buildInstanceConfig (in_tor inp) (run_cfg s) inst v = (ic, v')" by fastforce
  note fields = buildInstanceConfig_fields [OF b]
  note strings = running_strings [OF assms] and bridges = running_no_bridges [OF assms(1-3)]
  have only: "bridge_lines_only ic" by (simp add: bridge_lines_only_def fields bridges)
  have "ic_unbroken ic"
    using strings by (simp add: ic_unbroken_def torrc_strings_def fields)
  then have now: "torrc_now inp s inst v = torrc_lines ic"
    by (simp add: torrc_now_def b torrc_file_lines)
  show "settings ''SocksPort'' (torrc_now inp s inst v) =
      [itoa (inst_SocksPort inst) @ (if StreamIsolation (Tor (run_cfg s)) then '' IsolateSOCKSAuth'' else [])]"
    and "settings ''ControlPort'' (torrc_now inp s inst v) = [itoa (inst_ControlPort inst)]"
    and "settings ''CookieAuthFile'' (torrc_now inp s inst v) = [data_dir (run_cfg s) inst @ ''/control_auth_cookie'']"
    by (simp_all only: now torrc_ports torrc_paths only fields)
  show "settings ''UseBridges'' (torrc_now inp s inst v) = []"
    and "settings ''Bridge'' (torrc_now inp s inst v) = []"
    using bridges only by (simp_all add: now torrc_reading fields)
qed

text \<open>C6. In every reachable state, what is written for the three parties fits together: the renewal worker
  of an instance dials the control port that the instance's torrc opens and reads the cookie file
  that the torrc names, and HAProxy's SOCKS servers are, in some order, one for each instance,
  on the loopback address, with the SOCKS port that its torrc opens.\<close>

theorem running_files_agree:
  assumes "run_reach inp cfg cs s" and "Validate cfg = None"
    and "config_unbroken cfg" and "countries_unbroken cs"
    and "insts = insts_of (run_world s)" and "renewed = r_instances (prog_renewer (run_prog s))"
    and "BuildConfigData (run_cfg s) insts pw s1 s2 = Some d" and "data_unbroken d"
    and "socks_port = (\<lambda>i. fst (cut (CHR '' '') (hd (settings ''SocksPort'' (torrc_now inp s i (v i))))))"
  shows "length renewed = length insts \<and>
    (\<forall>k < length insts.
       (\<exists>port. settings ''ControlPort'' (torrc_now inp s (insts ! k) (v (insts ! k))) = [port] \<and>
          controlAddr (renewed ! k) = ''127.0.0.1:'' @ port) \<and>
       settings ''CookieAuthFile'' (torrc_now inp s (insts ! k) (v (insts ! k))) = [ci_cookiePath (renewed ! k)]) \<and>
    mset (read_servers ''backend tor_socks'' (lines_of (haproxy_file d))) =
      mset (map (\<lambda>i. (''tor_socks_'' @ itoa (inst_ID i), ''127.0.0.1'', socks_port i)) insts)"
proof -
  from run_reach_inv [OF assms(1,2)] obtain w p u where "startup inp cfg u = Some (Inr p, w)"
    and t: "typed_inv (map made_part (insts_of w)) (r_instances (make_renewer cfg (insts_of w))) s"
    and "country_inv cs s" and conf: "config_inv cfg s" .
  have made: "map made_part insts = map made_part (insts_of w)"
    and renewed: "renewed = r_instances (make_renewer cfg (insts_of w))"
    using t assms(5,6) by (simp_all add: typed_inv_def Let_def)
  have "length (insts_of w) = length insts" using made by (metis length_map)
  then have len: "length renewed = length insts" by (simp add: renewed make_renewer_instances)
  have reads: "settings ''SocksPort'' (torrc_now inp s i u) =
      [itoa (inst_SocksPort i) @ (if StreamIsolation (Tor (run_cfg s)) then '' IsolateSOCKSAuth'' else [])]"
    "settings ''ControlPort'' (torrc_now inp s i u) = [itoa (inst_ControlPort i)]"
    "settings ''CookieAuthFile'' (torrc_now inp s i u) = [data_dir (run_cfg s) i @ ''/control_auth_cookie'']"
    if "i \<in> set insts" for i u
    using torrc_now_reads(1-3) [OF assms(1,2) _ assms(3,4)] that assms(5) by simp_all
  have dialled: "controlAddr (renewed ! k) = ''127.0.0.1:'' @ itoa (inst_ControlPort (insts ! k)) \<and>
      ci_cookiePath (renewed ! k) = data_dir (run_cfg s) (insts ! k) @ ''/control_auth_cookie''"
    if "k < length insts" for k
  proof -
    have "made_part (insts ! k) = made_part (insts_of w ! k)" "k < length (insts_of w)"
      using that made by (metis length_map nth_map)+
    with conf show ?thesis
      unfolding renewed make_renewer_instances
      by (simp add: made_part_def cookie_path_in_data_dir data_dir_def config_inv_def)
  qed
  have port: "socks_port i = itoa (inst_SocksPort i)" if "i \<in> set insts" for i
    using reads(1) [OF that] cut_append [of "CHR '' ''" "itoa (inst_SocksPort i)"]
    by (simp add: assms(9) cut_no_sep)
  have "mset (map (\<lambda>i. (''tor_socks_'' @ itoa (inst_ID i), ''127.0.0.1'', socks_port i)) insts) =
      mset (map socks_server insts)"
    using port by (intro arg_cong [of _ _ mset] map_cong) (simp_all add: socks_server_def)
  with len reads dialled port show ?thesis
    using haproxy_servers(1) [OF assms(7,8) refl] by simp
qed

lemma running_files_agree_witness:
  "\<exists>s d. run_reach demo_inputs Defaults [Defaults, Defaults] s \<and>
     BuildConfigData (run_cfg s) (insts_of (run_world s)) ''secret'' [] [] = Some d \<and>
     size (mset (read_servers ''backend tor_socks'' (lines_of (haproxy_file d)))) = 12"
proof -
  obtain s where s: "run_reach demo_inputs Defaults [Defaults, Defaults] s" "run_cfg s = Defaults"
    using demo_reach by blast
  have strings: "config_unbroken Defaults" "countries_unbroken [Defaults, Defaults]"
    by (simp_all add: config_unbroken_def countries_unbroken_def Defaults_def newline_char_def)
  obtain d where d: "BuildConfigData (run_cfg s) (insts_of (run_world s)) ''secret'' [] [] = Some d"
    by (auto simp: BuildConfigData_def backends_loop_closed)
  then have "data_unbroken d"
    by (auto simp: s(2) BuildConfigData_def data_unbroken_def Defaults_def newline_char_def split: bind_splits prod.splits)
  have "nat (Countries (Instances Defaults)) * nat (PerCountry (Instances Defaults)) = 12"
    by (simp add: Defaults_def)
  then have "length (insts_of (run_world s)) = 12"
    using running_made(2) [OF s(1) Validate_Defaults refl] by simp
  with running_files_agree [OF s(1) Validate_Defaults strings refl refl d \<open>data_unbroken d\<close> refl, of "\<lambda>i. 0"] s d
  show ?thesis by (intro exI [of _ s] exI [of _ d]) simp
qed

text \<open>C39. Bridges never reach Tor: whatever bridge type the configuration or a flag asks for, the torrc of
  every instance of a running program has no \<open>UseBridges\<close> and no \<open>Bridge\<close> setting.\<close>

theorem running_without_bridges:
  assumes "run_reach inp cfg cs s" and "Validate cfg = None" and "inst \<in> set (insts_of (run_world s))"
    and "config_unbroken cfg" and "countries_unbroken cs"
  shows "settings ''UseBridges'' (torrc_now inp s inst v) = [] \<and> settings ''Bridge'' (torrc_now inp s inst v) = []"
  using torrc_now_reads(4,5) [OF assms] by blast

lemma running_without_bridges_witness:
  "\<exists>s. run_reach demo_inputs Defaults [Defaults, Defaults] s \<and>
     settings ''Bridge'' (torrc_now demo_inputs s (insts_of (run_world s) ! 0) 5) = []"
proof -
  obtain s where s: "run_reach demo_inputs Defaults [Defaults, Defaults] s" using demo_reach by blast
  have strings: "config_unbroken Defaults" "countries_unbroken [Defaults, Defaults]"
    by (simp_all add: config_unbroken_def countries_unbroken_def Defaults_def newline_char_def)
  have "nat (Countries (Instances Defaults)) * nat (PerCountry (Instances Defaults)) = 12"
    by (simp add: Defaults_def)
  then have "insts_of (run_world s) ! 0 \<in> set (insts_of (run_world s))"
    using running_made(2) [OF s Validate_Defaults refl] by (intro nth_mem) simp
  from running_without_bridges [OF s Validate_Defaults this strings] s show ?thesis by blast
qed

end
