(* ===== verification/Http_Server.thy ===== *)
theory Http_Server
  imports Cmd_Status Metrics_Registry
begin

section \<open>HTTP endpoints (health/status.go, metrics/handler.go and server.go, cmd/run.go)\<close>

text \<open>
  Two servers, the one that \<open>splitter run\<close> starts for its status and the one for metrics. A
  handler is a function to a response; \<open>http.ServeMux\<close> sends a request to the handler registered
  for its path and answers 404 otherwise. Request paths are taken to be clean, as the mux
  redirects others to their clean form. The JSON encoder and decoder are parameters.
\<close>

record response =
  resp_status :: int
  resp_header :: "(string \<times> string) list"
  resp_body :: string

definition not_found :: response where
  "not_found = \<lparr>resp_status = 404,
     resp_header = [(''Content-Type'', ''text/plain; charset=utf-8''), (''X-Content-Type-Options'', ''nosniff'')],
     resp_body = ''404 page not found'' @ nl\<rparr>"

definition serve_mux :: "(string \<times> response) list \<Rightarrow> string \<Rightarrow> response" where
  "serve_mux routes path = (case map_of routes path of None \<Rightarrow> not_found | Some r \<Rightarrow> r)"

subsection \<open>The handlers\<close>

text \<open>\<open>Encode\<close> writes nothing when it fails, so that \<open>http.Error\<close> still sets the status.\<close>

definition StatusHandler ::
  "(SystemStatus \<Rightarrow> string + string) \<Rightarrow> string \<Rightarrow> TorManager \<Rightarrow> (State \<times> State) list \<Rightarrow> Manager \<Rightarrow> response" where
  "StatusHandler encode now tm states pm =
     (let status = CollectStatus now tm states pm
      in case encode status of
           Inl err \<Rightarrow>
             \<lparr>resp_status = 500,
              resp_header = [(''Content-Type'', ''text/plain; charset=utf-8''), (''X-Content-Type-Options'', ''nosniff'')],
              resp_body = ''StatusHandler: '' @ err @ nl\<rparr>
         | Inr body \<Rightarrow>
             \<lparr>resp_status = 200, resp_header = [(''Content-Type'', ''application/json'')], resp_body = body\<rparr>)"

definition ServeHTTP :: "(rat \<Rightarrow> string) \<Rightarrow> Registry \<Rightarrow> response" where
  "ServeHTTP fmt_g registry =
     \<lparr>resp_status = 200, resp_header = [(''Content-Type'', ''text/plain; version=0.0.4; charset=utf-8'')],
      resp_body = Registry_Render fmt_g registry\<rparr>"

text \<open>What \<open>Encode\<close> writes for the map with the one entry \<open>status\<close>.\<close>

definition Healthz :: response where
  "Healthz =
     (let q = [CHR 0x22]
      in \<lparr>resp_status = 200, resp_header = [(''Content-Type'', ''application/json'')],
          resp_body = ''{'' @ q @ ''status'' @ q @ '':'' @ q @ ''ok'' @ q @ ''}'' @ nl\<rparr>)"

subsection \<open>The servers\<close>

definition status_server ::
  "(SystemStatus \<Rightarrow> string + string) \<Rightarrow> string \<Rightarrow> TorManager \<Rightarrow> (State \<times> State) list \<Rightarrow> Manager \<Rightarrow> string \<Rightarrow> response" where
  "status_server encode now tm states pm = serve_mux [(''/status'', StatusHandler encode now tm states pm)]"

definition NewServer :: "(rat \<Rightarrow> string) \<Rightarrow> Registry \<Rightarrow> string \<Rightarrow> response" where
  "NewServer fmt_g registry =
     serve_mux [(''/metrics'', ServeHTTP fmt_g registry), (''/healthz'', Healthz)]"

text \<open>How \<open>ListenAndServe\<close> ends, and what becomes of it: the status server logs an error, \<open>Start\<close> of the
  metrics server returns it.\<close>

datatype serve_error = ErrServerClosed | ServeError string

definition status_server_logs :: "serve_error \<Rightarrow> string option" where
  "status_server_logs err = (case err of ErrServerClosed \<Rightarrow> None | ServeError e \<Rightarrow> Some (''status server error '' @ e))"

definition Metrics_Start :: "serve_error option \<Rightarrow> string option" where
  "Metrics_Start err =
     (case err of Some (ServeError e) \<Rightarrow> Some (''metrics server: '' @ e) | _ \<Rightarrow> None)"

text \<open>The status server is started only for a positive port; the result are the servers that listen.\<close>

definition DefaultStatusPort :: int where
  "DefaultStatusPort = 63540"

definition startStatusServer :: "int \<Rightarrow> 'mux \<Rightarrow> (string \<times> 'mux) list" where
  "startStatusServer port mux = (if 0 < port then [('':'' @ itoa port, mux)] else [])"

definition default_status_url :: string where
  "default_status_url = ''http://localhost:63540/status''"

subsection \<open>The client's side\<close>

text \<open>A request from the same machine to the servers that listen there.\<close>

fun local_get ::
  "(string \<times> (string \<Rightarrow> response)) list \<Rightarrow> (string \<Rightarrow> string + SystemStatus) \<Rightarrow> string
    \<Rightarrow> string + int \<times> string \<times> (string + SystemStatus)" where
  "local_get [] decode url = Inl ''connection refused''"
| "local_get ((addr, server) # servers) decode url =
     (let base = ''http://localhost'' @ addr
      in if hasPrefix url (base @ ''/'')
         then (let r = server (drop (length base) url) in Inr (resp_status r, resp_body r, decode (resp_body r)))
         else local_get servers decode url)"

lemma status_request:
  "local_get (startStatusServer DefaultStatusPort mux) decode default_status_url =
     (let r = mux ''/status'' in Inr (resp_status r, resp_body r, decode (resp_body r)))"
proof -
  have addr: "'':'' @ itoa DefaultStatusPort = '':63540''"
    by (simp add: DefaultStatusPort_def itoa_def decimal.simps digit_char_def go_eval)
  have "0 < DefaultStatusPort" by (simp add: DefaultStatusPort_def)
  then have "startStatusServer DefaultStatusPort mux = [('':63540'', mux)]"
    unfolding startStatusServer_def addr by simp
  then show ?thesis by (simp add: default_status_url_def hasPrefix_def)
qed

text \<open>C32. With the default flags \<open>splitter status\<close> shows the report of the \<open>splitter run\<close> on the same machine, as
  long as the decoder reads what the encoder wrote; a report that cannot be encoded is an error of
  the command with the server's text.\<close>

theorem status_reaches_run:
  assumes "\<forall>body. encode (CollectStatus now tm states pm) = Inr body \<longrightarrow>
      decode body = Inr (CollectStatus now tm states pm)"
    and "server = status_server encode now tm states pm"
  shows "runStatus (local_get (startStatusServer DefaultStatusPort server) decode) order default_status_url =
    (case encode (CollectStatus now tm states pm) of
       Inl err \<Rightarrow> Inl (StatusCode 500 (''StatusHandler: '' @ err @ nl))
     | Inr body \<Rightarrow> Inr (renderStatus order (CollectStatus now tm states pm)))"
  using assms
  by (cases "encode (CollectStatus now tm states pm)")
     (simp_all add: runStatus_def status_request status_server_def serve_mux_def StatusHandler_def Let_def)

lemma status_reaches_run_witness:
  "\<exists>out. runStatus (local_get (startStatusServer DefaultStatusPort
       (status_server (\<lambda>s. Inr ''report'') ''now'' NewTorManager [] (NewManager ''/tmp'')))
     (\<lambda>b. Inr (CollectStatus ''now'' NewTorManager [] (NewManager ''/tmp'')))) [] default_status_url = Inr out"
  using status_reaches_run [of "\<lambda>s. Inr ''report''" "''now''" NewTorManager "[]" "NewManager ''/tmp''"
      "\<lambda>b. Inr (CollectStatus ''now'' NewTorManager [] (NewManager ''/tmp''))" _ "[]"]
  by simp

text \<open>The status server has one path: \<open>/healthz\<close> and \<open>/metrics\<close>, which the README names for its port, are
  not found there. Only the metrics server has them, and the program never makes one.\<close>

theorem status_server_one_path:
  "resp_status (status_server encode now tm states pm ''/healthz'') = 404 \<and>
   resp_status (status_server encode now tm states pm ''/metrics'') = 404 \<and>
   resp_status (NewServer fmt_g registry ''/healthz'') = 200 \<and>
   resp_body (NewServer fmt_g registry ''/metrics'') = Registry_Render fmt_g registry"
  by (simp add: status_server_def NewServer_def serve_mux_def not_found_def Healthz_def ServeHTTP_def Let_def)

end
