(* ===== verification/Cmd_Root.thy ===== *)
theory Cmd_Root
  imports Cli Cmd_Running Http_Server
begin

section \<open>The command line program (main.go, cmd/root.go, run.go, version.go, test.go)\<close>

text \<open>
  \<open>Execute\<close> rewrites the arguments and hands them to cobra, which finds the subcommand, parses its
  flags and, for a command that can be run, calls \<open>PersistentPreRunE\<close> of the root and then the
  command's \<open>RunE\<close>. What cobra finds and the help it prints are parameters. The run
  command does not come back from a successful start: its outcome is the program then running,
  a state of \<open>run_reach\<close>.
\<close>

datatype command = CmdSplitter | CmdRun | CmdStatus | CmdTest | CmdTestDns | CmdTestReputation | CmdVersion

definition root_commands :: "(string list \<times> command) list" where
  "root_commands =
     [([], CmdSplitter), ([''run''], CmdRun), ([''status''], CmdStatus), ([''test''], CmdTest),
      ([''test'', ''dns''], CmdTestDns), ([''test'', ''exit-reputation''], CmdTestReputation),
      ([''version''], CmdVersion)]"

text \<open>The flags of \<open>run\<close> and \<open>status\<close>; an option is \<open>None\<close> for a flag that was not given.\<close>

record command_flags =
  flag_country_interval :: "int option"
  flag_load_balance :: "string option"
  flag_status_port :: int
  flag_status_url :: string

definition default_flags :: command_flags where
  "default_flags = \<lparr>flag_country_interval = None, flag_load_balance = None,
     flag_status_port = DefaultStatusPort, flag_status_url = default_status_url\<rparr>"

text \<open>The root and \<open>test\<close> have no \<open>RunE\<close>.\<close>

fun runnable :: "command \<Rightarrow> bool" where
  "runnable CmdSplitter = False"
| "runnable CmdTest = False"
| "runnable _ = True"

text \<open>What cobra makes of a command line: it refuses it, it prints a text of its own, as for a help flag or
  one of the commands that it adds, or it has found a command and its flags.\<close>

datatype found = Refused string | Answered string | Found command flag_reader command_flags

datatype root_error =
    UsageError string
  | ConfigError load_error
  | LoggerError string
  | RunError run_error
  | StatusError status_error

datatype 'o outcome =
    Failed root_error
  | Printed string
  | Running string "(string \<times> ('o tor_world \<Rightarrow> string \<Rightarrow> response)) list" "'o running"
  | Panicked

record 'o command_env =
  env_Find :: "string list \<Rightarrow> found"
  env_help :: "command \<Rightarrow> string"
  env_load :: load_env
  env_Getenv :: "string \<Rightarrow> string"
  env_run :: "'o run_inputs"
  env_outside :: 'o
  env_now :: "'o \<Rightarrow> string"
  env_encode :: "SystemStatus \<Rightarrow> string + string"
  env_get :: "string \<Rightarrow> string + int \<times> string \<times> (string + SystemStatus)"
  env_order :: "string list"

subsection \<open>Preparing a command\<close>

definition PersistentPreRunE :: "'o command_env \<Rightarrow> flag_reader \<Rightarrow> root_error + Config \<times> logger" where
  "PersistentPreRunE env flags =
     (case cli_Load (env_load env) flags of
        Inl err \<Rightarrow> Inl (ConfigError err)
      | Inr cfg \<Rightarrow>
          (case SetupLogger (env_Getenv env) cfg of
             Inl err \<Rightarrow> Inl (LoggerError err)
           | Inr logger \<Rightarrow> Inr (cfg, logger)))"

subsection \<open>The commands\<close>

definition show_bool :: "bool \<Rightarrow> string" where
  "show_bool b = (if b then ''true'' else ''false'')"

definition printStartupInfo :: "Config \<Rightarrow> TorManager \<Rightarrow> HAProxyManager \<Rightarrow> CheckResult option \<Rightarrow> string" where
  "printStartupInfo cfg tm hm check =
     ''=== SPLITTER ==='' @ nl @
     ''Tor instances: '' @ itoa (int (length (instances tm))) @ nl @
     ''SOCKS proxy:   '' @ Master_Listen (Master (Proxy cfg)) @ '':'' @ itoa (SocksPort (Master (Proxy cfg))) @ nl @
     ''HTTP proxy:    '' @ Master_Listen (Master (Proxy cfg)) @ '':'' @ itoa (HTTPPort (Master (Proxy cfg))) @ nl @
     ''HAProxy stats: '' @ Stats_Listen (Stats (Proxy cfg)) @ '':'' @ itoa (Stats_Port (Stats (Proxy cfg))) @
       Stats_URI (Stats (Proxy cfg)) @ '' (password: '' @ statsPassword hm @ '')'' @ nl @
     ''Relay enforce: '' @ Enforce (Relay cfg) @ nl @
     ''Proxy mode:    '' @ ProxyMode cfg @ nl @
     (case GetVersion tm of None \<Rightarrow> [] | Some v \<Rightarrow> ''Tor version:   '' @ Version_String v @ nl) @
     (case check of None \<Rightarrow> []
      | Some c \<Rightarrow>
          (let f = check_Features c
           in ''Features:      conflux='' @ show_bool (Feature_Conflux f) @ '' congestion='' @
                show_bool (Feature_CongestionControl f) @ '' http-tunnel='' @ show_bool (Feature_HTTPTunnel f) @
                '' cgo='' @ show_bool (Feature_CGO f) @ nl)) @
     ''================'' @ nl"

text \<open>The mux of the status server answers from the world at the time of the request.\<close>

definition status_mux :: "'o command_env \<Rightarrow> 'o tor_world \<Rightarrow> string \<Rightarrow> response" where
  "status_mux env w =
     status_server (env_encode env) (env_now env (outside w)) (torMgr w)
       (map (\<lambda>i. (inst_state i, inst_state i)) (instances (torMgr w))) (procMgr w)"

text \<open>The run command up to its loop: the flags of its own, the start, the banner and the status server.
  The result of the dependency check, which the banner shows, is computed again, as it has no effect.\<close>

definition run_command :: "'o command_env \<Rightarrow> command_flags \<Rightarrow> Config \<Rightarrow> 'o outcome" where
  "run_command env f loaded =
     (let inp = env_run env;
          cfg = run_flags (flag_country_interval f) (flag_load_balance f) loaded
      in case startup inp cfg (env_outside env) of
           None \<Rightarrow> Panicked
         | Some (Inl err, w) \<Rightarrow> Failed (RunError err)
         | Some (Inr p, w) \<Rightarrow>
             (let check = (case CheckDependencies (in_lookPath inp) (in_runVersion inp) cfg of
                             Inl e \<Rightarrow> None | Inr r \<Rightarrow> Some r)
              in Running (printStartupInfo cfg (torMgr w) (prog_haproxy p) check)
                   (startStatusServer (flag_status_port f) (status_mux env))
                   \<lparr>run_cfg = cfg, run_prog = p, run_rotation = None\<rparr>))"

definition status_command :: "'o command_env \<Rightarrow> command_flags \<Rightarrow> 'o outcome" where
  "status_command env f =
     (case runStatus (env_get env) (env_order env) (flag_status_url f) of
        Inl err \<Rightarrow> Failed (StatusError err) | Inr text' \<Rightarrow> Printed text')"

definition Version_var :: string where
  "Version_var = ''dev''"

definition version_command :: "'o outcome" where
  "version_command =
     Printed (''SPLITTER version: '' @ Version_var @ nl @
              ''Tor feature detection: not yet implemented (Phase 3.3)'' @ nl)"

definition test_dns_command :: "'o outcome" where
  "test_dns_command = Printed (''splitter test dns: placeholder (full implementation in Phase 7)'' @ nl)"

definition test_reputation_command :: "'o outcome" where
  "test_reputation_command =
     Printed (''splitter test exit-reputation: placeholder (full implementation in Phase 7)'' @ nl)"

fun RunE :: "'o command_env \<Rightarrow> command \<Rightarrow> command_flags \<Rightarrow> Config \<Rightarrow> 'o outcome" where
  "RunE env CmdRun f cfg = run_command env f cfg"
| "RunE env CmdStatus f cfg = status_command env f"
| "RunE env CmdSplitter f cfg = Printed (env_help env CmdSplitter)"
| "RunE env CmdTest f cfg = Printed (env_help env CmdTest)"
| "RunE env CmdTestDns f cfg = test_dns_command"
| "RunE env CmdTestReputation f cfg = test_reputation_command"
| "RunE env CmdVersion f cfg = version_command"

text \<open>For a command that cannot be run cobra prints the help without any preparation.\<close>

definition Execute :: "'o command_env \<Rightarrow> string list \<Rightarrow> 'o outcome" where
  "Execute env args =
     (case env_Find env (PreprocessArgs args) of
        Refused err \<Rightarrow> Failed (UsageError err)
      | Answered text' \<Rightarrow> Printed text'
      | Found cmd flags f \<Rightarrow>
          (if \<not> runnable cmd then Printed (env_help env cmd)
           else (case PersistentPreRunE env flags of
                   Inl err \<Rightarrow> Failed err
                 | Inr (cfg, logger) \<Rightarrow> RunE env cmd f cfg)))"

text \<open>\<open>main\<close>: the exit code and what was printed, \<open>None\<close> while the program runs. The root silences errors and
  \<open>main\<close> prints none; a panic ends with 2.\<close>

definition main_exit :: "'o outcome \<Rightarrow> (int \<times> string) option" where
  "main_exit out =
     (case out of Failed err \<Rightarrow> Some (1, []) | Printed s \<Rightarrow> Some (0, s) | Running b srv s \<Rightarrow> None
      | Panicked \<Rightarrow> Some (2, []))"

subsection \<open>From the command line to the running program\<close>

lemma run_flags_sections [simp]:
  "Instances (run_flags i b cfg) = Instances cfg" "Tor (run_flags i b cfg) = Tor cfg"
  "Relay (run_flags i b cfg) = Relay cfg" "Paths (run_flags i b cfg) = Paths cfg"
  "Master (Proxy (run_flags i b cfg)) = Master (Proxy cfg)" "Stats (Proxy (run_flags i b cfg)) = Stats (Proxy cfg)"
  "ProxyMode (run_flags i b cfg) = ProxyMode cfg" "BridgeType (run_flags i b cfg) = BridgeType cfg"
  "Profile (run_flags i b cfg) = Profile cfg" "LogLevel (run_flags i b cfg) = LogLevel cfg"
  "Logging (run_flags i b cfg) = Logging cfg" "Privoxy (run_flags i b cfg) = Privoxy cfg"
  "DNS (run_flags i b cfg) = DNS cfg"
  "Accepted (Country (run_flags i b cfg)) = Accepted (Country cfg)"
  "Blacklisted (Country (run_flags i b cfg)) = Blacklisted (Country cfg)"
  by (simp_all add: run_flags_def Let_def split: option.split)

text \<open>The flags set after validation touch nothing that validation looks at.\<close>

lemma run_flags_valid: "Validate (run_flags i b cfg) = Validate cfg"
proof -
  have "port_fields (run_flags i b cfg) = port_fields cfg" by (simp add: port_fields_def)
  then have "validatePorts (run_flags i b cfg) = validatePorts cfg" by (simp add: validatePorts_def)
  then show ?thesis by (simp only: Validate_def run_flags_sections)
qed

lemma PersistentPreRunE_Inr:
  "PersistentPreRunE env flags = Inr (cfg, logger) \<longleftrightarrow>
     cli_Load (env_load env) flags = Inr cfg \<and> SetupLogger (env_Getenv env) cfg = Inr logger"
  by (auto simp: PersistentPreRunE_def split: sum.splits)

lemma Execute_Running:
  assumes "Execute env args = Running banner servers s"
  obtains flags f loaded w where "env_Find env (PreprocessArgs args) = Found CmdRun flags f"
    and "cli_Load (env_load env) flags = Inr loaded"
    and "run_cfg s = run_flags (flag_country_interval f) (flag_load_balance f) loaded"
    and "startup (env_run env) (run_cfg s) (env_outside env) = Some (Inr (run_prog s), w)"
    and "run_rotation s = None"
proof -
  obtain cmd flags f where found: "env_Find env (PreprocessArgs args) = Found cmd flags f"
    using assms by (auto simp: Execute_def split: found.splits sum.splits if_splits)
  then obtain loaded logger where pre: "PersistentPreRunE env flags = Inr (loaded, logger)"
    and run: "RunE env cmd f loaded = Running banner servers s"
    using assms by (auto simp: Execute_def split: found.splits sum.splits if_splits)
  from run have cmd: "cmd = CmdRun"
    by (cases cmd) (auto simp: status_command_def version_command_def test_dns_command_def
        test_reputation_command_def split: sum.splits)
  with run have "run_command env f loaded = Running banner servers s" by simp
  then obtain p w where "startup (env_run env) (run_flags (flag_country_interval f) (flag_load_balance f) loaded)
        (env_outside env) = Some (Inr p, w)"
    and "s = \<lparr>run_cfg = run_flags (flag_country_interval f) (flag_load_balance f) loaded, run_prog = p,
        run_rotation = None\<rparr>"
    by (auto simp: run_command_def Let_def split: option.splits prod.splits sum.splits)
  with found pre cmd that [of flags f loaded w] show thesis
    by (simp add: PersistentPreRunE_Inr)
qed

text \<open>C13. A program that runs was started from a valid configuration, whatever the arguments and flags: it is a
  state from which all the properties of the running program hold.\<close>

theorem Execute_runs_valid:
  assumes "Execute env args = Running banner servers s"
  shows "run_reach (env_run env) (run_cfg s) [run_cfg s] s \<and> Validate (run_cfg s) = None \<and>
    (\<forall>addr mux. (addr, mux) \<in> set servers \<longrightarrow>
       (\<exists>port > 0. addr = '':'' @ itoa port) \<and> (\<forall>w. resp_status (mux w ''/status'') \<in> {200, 500}))"
proof -
  from Execute_Running [OF assms] obtain flags f loaded w where
    found: "env_Find env (PreprocessArgs args) = Found CmdRun flags f"
    and load: "cli_Load (env_load env) flags = Inr loaded"
    and cfg: "run_cfg s = run_flags (flag_country_interval f) (flag_load_balance f) loaded"
    and start: "startup (env_run env) (run_cfg s) (env_outside env) = Some (Inr (run_prog s), w)"
    and rot: "run_rotation s = None" .
  have "s = \<lparr>run_cfg = run_cfg s, run_prog = run_prog s, run_rotation = None\<rparr>" using rot by (cases s) simp
  with run_reach.start [OF start] have "run_reach (env_run env) (run_cfg s) [run_cfg s] s" by simp
  moreover have "Validate (run_cfg s) = None"
    using load Load_Inr_valid by (simp add: cfg run_flags_valid cli_Load_def)
  moreover have "(\<exists>port > 0. addr = '':'' @ itoa port) \<and> (\<forall>w. resp_status (mux w ''/status'') \<in> {200, 500})"
    if "(addr, mux) \<in> set servers" for addr mux
  proof -
    obtain loaded' where "run_command env f loaded' = Running banner servers s"
      using assms found by (auto simp: Execute_def split: found.splits sum.splits if_splits)
    with that have port: "0 < flag_status_port f" "addr = '':'' @ itoa (flag_status_port f)" and "mux = status_mux env"
      by (auto simp: run_command_def startStatusServer_def Let_def split: option.splits prod.splits sum.splits if_splits)
    then have "resp_status (mux w ''/status'') \<in> {200, 500}" for w
      by (auto simp: status_mux_def status_server_def serve_mux_def StatusHandler_def Let_def split: sum.splits)
    with port show ?thesis by blast
  qed
  ultimately show ?thesis by blast
qed


subsection \<open>Command lines\<close>

definition no_flags :: flag_reader where
  "no_flags = \<lparr>Changed = (\<lambda>n. False), GetInt = (\<lambda>n. Inl []), GetString = (\<lambda>n. Inl []), GetBool = (\<lambda>n. Inl [])\<rparr>"

text \<open>A cobra that knows the commands by name and no flags.\<close>

definition demo_env :: "load_env \<Rightarrow> int command_env" where
  "demo_env load =
     \<lparr>env_Find = (\<lambda>args. case map_of root_commands args of
         None \<Rightarrow> Refused ''unknown command'' | Some cmd \<Rightarrow> Found cmd no_flags default_flags),
      env_help = (\<lambda>cmd. ''Usage:''), env_load = load, env_Getenv = (\<lambda>v. []), env_run = demo_inputs, env_outside = 7,
      env_now = (\<lambda>v. ''now''), env_encode = (\<lambda>s. Inr ''report''), env_get = (\<lambda>u. Inl ''connection refused''),
      env_order = []\<rparr>"

lemma bare_env_no_flags: "cli_Load bare_env no_flags = Inr Defaults"
proof -
  have "applyFlags Defaults no_flags = Defaults"
    by (simp add: applyFlags_def no_flags_def flag_value_def on_flag_def Let_def)
  moreover have "\<not> Changed no_flags ''profile''" by (simp add: no_flags_def)
  ultimately show ?thesis
    using bare_env_loads [of "cli_options no_flags"]
    by (simp add: cli_Load_def cli_options_def normalise_Defaults Validate_Defaults)
qed

lemma Execute_runs_valid_witness:
  "\<exists>banner servers s. Execute (demo_env bare_env) [''run''] = Running banner servers s \<and>
     run_reach demo_inputs (run_cfg s) [run_cfg s] s \<and> Validate (run_cfg s) = None"
proof -
  obtain p w where start: "startup demo_inputs Defaults 7 = Some (Inr p, w)" using demo_startup by blast
  have "SetupLogger (\<lambda>v. []) Defaults = Inr (Discard LevelInfo)"
    by (simp add: SetupLogger_def Defaults_def)
  then have pre: "PersistentPreRunE (demo_env bare_env) no_flags = Inr (Defaults, Discard LevelInfo)"
    by (simp add: PersistentPreRunE_Inr demo_env_def bare_env_no_flags)
  have "run_flags None None Defaults = Defaults" by (simp add: run_flags_def)
  then have "\<exists>banner servers s. run_command (demo_env bare_env) default_flags Defaults = Running banner servers s"
    using start by (simp add: run_command_def demo_env_def default_flags_def Let_def)
  moreover have "env_Find (demo_env bare_env) (PreprocessArgs [''run'']) = Found CmdRun no_flags default_flags"
    by (simp add: demo_env_def root_commands_def)
  ultimately obtain banner servers s where run: "Execute (demo_env bare_env) [''run''] = Running banner servers s"
    using pre by (auto simp: Execute_def)
  moreover have "env_run (demo_env bare_env) = demo_inputs" by (simp add: demo_env_def)
  ultimately show ?thesis using Execute_runs_valid [OF run] by auto
qed

text \<open>A configuration file that is not YAML.\<close>

definition broken_file :: load_env where
  "broken_file = bare_env\<lparr>ReadFile := (\<lambda>p. Inr ''{''), UnmarshalConfig := (\<lambda>d c. Inl ''yaml: line 1'')\<rparr>"


end
