(* ===== verification/Profile_Package.thy ===== *)
theory Profile_Package
  imports Config_Load
begin

section \<open>The profile package (internal/profile/profile.go, loader.go)\<close>

text \<open>
  The package has a second set of types for the entries of \<open>profiles.yaml\<close>, with sections that are
  always there, and a loader of its own. \<open>internal/config\<close> reads the same file into \<open>profileEntry\<close>,
  where a section may be missing. The two readings of a file have the same effect on a
  configuration.
\<close>

record ProfileInstances =
  P_PerCountry :: "int option"
  P_Countries :: "int option"
  P_MaxConcurrentRequests :: "int option"
  P_Retries :: "int option"

record ProfileRelay =
  P_Enforce :: "string option"

record ProfileProxy =
  P_LoadBalanceAlgorithm :: "string option"
  P_HAProxyHTTPReuse :: "string option"

record ProfileTor =
  P_MaxCircuitDirtiness :: "int option"
  P_ConnectionPadding :: "int option"
  P_UseEntryGuards :: "int option"
  P_ReducedConnectionPadding :: "int option"
  P_StreamIsolation :: "bool option"
  P_IPv6 :: "bool option"
  P_ConfluxEnabled :: "bool option"
  P_CongestionControlAuto :: "bool option"
  P_Sandbox :: "bool option"
  P_CircuitFingerprintingResistance :: "bool option"

record ProfileLogging =
  P_Enabled :: "bool option"
  P_Level :: "string option"

record ProfileCountry =
  P_RotationInterval :: "int option"
  P_TotalToChange :: "int option"

record ProfileHealthCheck =
  P_ExitReputation :: "bool option"

record Profile =
  P_Description :: string
  P_Instances :: ProfileInstances
  P_Relay :: ProfileRelay
  P_Proxy :: ProfileProxy
  P_Tor :: ProfileTor
  P_Logging :: ProfileLogging
  P_Country :: ProfileCountry
  P_HealthCheck :: ProfileHealthCheck

datatype profile_error = ReadingFailed string os_error | ParsingFailed string string

definition profile_Load ::
  "(string \<Rightarrow> os_error + string) \<Rightarrow> (string \<Rightarrow> string + (string \<rightharpoonup> Profile)) \<Rightarrow> string
    \<Rightarrow> profile_error + (string \<rightharpoonup> Profile)" where
  "profile_Load os_ReadFile Unmarshal path =
     (case os_ReadFile path of
        Inl err \<Rightarrow> Inl (ReadingFailed path err)
      | Inr data \<Rightarrow>
          (case Unmarshal data of Inl err \<Rightarrow> Inl (ParsingFailed path err) | Inr profiles \<Rightarrow> Inr profiles))"

subsection \<open>The two readings of an entry\<close>

definition instances_of :: "ProfileInstances \<Rightarrow> profileInstances" where
  "instances_of s = \<lparr>p_PerCountry = P_PerCountry s, p_Countries = P_Countries s,
     p_MaxConcurrentRequests = P_MaxConcurrentRequests s, p_Retries = P_Retries s\<rparr>"

definition relay_of :: "ProfileRelay \<Rightarrow> profileRelay" where
  "relay_of s = \<lparr>p_Enforce = P_Enforce s\<rparr>"

definition proxy_of :: "ProfileProxy \<Rightarrow> profileProxy" where
  "proxy_of s = \<lparr>p_LoadBalanceAlgorithm = P_LoadBalanceAlgorithm s, p_HAProxyHTTPReuse = P_HAProxyHTTPReuse s\<rparr>"

definition tor_of :: "ProfileTor \<Rightarrow> profileTor" where
  "tor_of s = \<lparr>p_MaxCircuitDirtiness = P_MaxCircuitDirtiness s, p_ConnectionPadding = P_ConnectionPadding s,
     p_UseEntryGuards = P_UseEntryGuards s, p_ReducedConnectionPadding = P_ReducedConnectionPadding s,
     p_StreamIsolation = P_StreamIsolation s, p_IPv6 = P_IPv6 s, p_ConfluxEnabled = P_ConfluxEnabled s,
     p_CongestionControlAuto = P_CongestionControlAuto s, p_Sandbox = P_Sandbox s,
     p_CircuitFingerprintingResistance = P_CircuitFingerprintingResistance s\<rparr>"

definition logging_of :: "ProfileLogging \<Rightarrow> profileLogging" where
  "logging_of s = \<lparr>p_LoggingEnabled = P_Enabled s, p_LoggingLevel = P_Level s\<rparr>"

definition country_of :: "ProfileCountry \<Rightarrow> profileCountry" where
  "country_of s = \<lparr>p_RotationInterval = P_RotationInterval s, p_TotalToChange = P_TotalToChange s\<rparr>"

definition health_of :: "ProfileHealthCheck \<Rightarrow> profileHealthCheck" where
  "health_of s = \<lparr>p_ExitReputation = P_ExitReputation s\<rparr>"

text \<open>A section of the entry: the same fields, or none where the file does not have it.\<close>

definition reads_as :: "('s \<Rightarrow> 'p) \<Rightarrow> 'p \<Rightarrow> 's \<Rightarrow> 'p option \<Rightarrow> bool" where
  "reads_as conv blank s p \<longleftrightarrow> (case p of None \<Rightarrow> conv s = blank | Some q \<Rightarrow> conv s = q)"

definition same_reading :: "Profile \<Rightarrow> profileEntry \<Rightarrow> bool" where
  "same_reading p e \<longleftrightarrow>
     reads_as instances_of \<lparr>p_PerCountry = None, p_Countries = None, p_MaxConcurrentRequests = None, p_Retries = None\<rparr>
       (P_Instances p) (p_Instances e) \<and>
     reads_as relay_of \<lparr>p_Enforce = None\<rparr> (P_Relay p) (p_Relay e) \<and>
     reads_as proxy_of \<lparr>p_LoadBalanceAlgorithm = None, p_HAProxyHTTPReuse = None\<rparr> (P_Proxy p) (p_Proxy e) \<and>
     reads_as tor_of \<lparr>p_MaxCircuitDirtiness = None, p_ConnectionPadding = None, p_UseEntryGuards = None,
         p_ReducedConnectionPadding = None, p_StreamIsolation = None, p_IPv6 = None, p_ConfluxEnabled = None,
         p_CongestionControlAuto = None, p_Sandbox = None, p_CircuitFingerprintingResistance = None\<rparr>
       (P_Tor p) (p_Tor e) \<and>
     reads_as logging_of \<lparr>p_LoggingEnabled = None, p_LoggingLevel = None\<rparr> (P_Logging p) (p_Logging e) \<and>
     reads_as country_of \<lparr>p_RotationInterval = None, p_TotalToChange = None\<rparr> (P_Country p) (p_Country e) \<and>
     reads_as health_of \<lparr>p_ExitReputation = None\<rparr> (P_HealthCheck p) (p_HealthCheck e)"

definition entry_of :: "Profile \<Rightarrow> profileEntry" where
  "entry_of p =
     \<lparr>p_Description = P_Description p, p_Instances = Some (instances_of (P_Instances p)),
      p_Relay = Some (relay_of (P_Relay p)), p_Proxy = Some (proxy_of (P_Proxy p)), p_Tor = Some (tor_of (P_Tor p)),
      p_Logging = Some (logging_of (P_Logging p)), p_Country = Some (country_of (P_Country p)),
      p_HealthCheck = Some (health_of (P_HealthCheck p))\<rparr>"

lemma on_section_reads:
  assumes "reads_as conv blank s p" and "\<And>c. f blank c = c"
  shows "on_section f p = on_section f (Some (conv s))"
  using assms by (auto simp: reads_as_def on_section_def fun_eq_iff split: option.splits)

lemma overlay_empty:
  "overlay_instances \<lparr>p_PerCountry = None, p_Countries = None, p_MaxConcurrentRequests = None, p_Retries = None\<rparr> i = i"
  "overlay_relay \<lparr>p_Enforce = None\<rparr> r = r"
  "overlay_proxy \<lparr>p_LoadBalanceAlgorithm = None, p_HAProxyHTTPReuse = None\<rparr> x = x"
  "overlay_tor \<lparr>p_MaxCircuitDirtiness = None, p_ConnectionPadding = None, p_UseEntryGuards = None,
         p_ReducedConnectionPadding = None, p_StreamIsolation = None, p_IPv6 = None, p_ConfluxEnabled = None,
         p_CongestionControlAuto = None, p_Sandbox = None, p_CircuitFingerprintingResistance = None\<rparr> t = t"
  "overlay_logging \<lparr>p_LoggingEnabled = None, p_LoggingLevel = None\<rparr> l = l"
  "overlay_country \<lparr>p_RotationInterval = None, p_TotalToChange = None\<rparr> c = c"
  "overlay_reputation \<lparr>p_ExitReputation = None\<rparr> h = h"
  by (simp_all add: overlay_instances_def overlay_relay_def overlay_proxy_def overlay_tor_def overlay_logging_def
      overlay_country_def overlay_reputation_def override_def)

text \<open>A profile has the same effect on every configuration whichever of the two packages read it.\<close>

theorem readings_agree:
  assumes "same_reading p e"
  shows "overlay e cfg = overlay (entry_of p) cfg"
  using assms
  by (auto simp: same_reading_def overlay_def entry_of_def dest!:
      on_section_reads [where f = overlay_instances, OF _ overlay_empty(1)]
      on_section_reads [where f = overlay_relay, OF _ overlay_empty(2)]
      on_section_reads [where f = overlay_proxy, OF _ overlay_empty(3)]
      on_section_reads [where f = overlay_tor, OF _ overlay_empty(4)]
      on_section_reads [where f = overlay_logging, OF _ overlay_empty(5)]
      on_section_reads [where f = overlay_country, OF _ overlay_empty(6)]
      on_section_reads [where f = overlay_reputation, OF _ overlay_empty(7)])

text \<open>A file with one profile that gives one section, read by both packages.\<close>

definition three_per_country :: Profile where
  "three_per_country =
     \<lparr>P_Description = ''three'',
      P_Instances = \<lparr>P_PerCountry = Some 3, P_Countries = None, P_MaxConcurrentRequests = None, P_Retries = None\<rparr>,
      P_Relay = \<lparr>P_Enforce = None\<rparr>, P_Proxy = \<lparr>P_LoadBalanceAlgorithm = None, P_HAProxyHTTPReuse = None\<rparr>,
      P_Tor = \<lparr>P_MaxCircuitDirtiness = None, P_ConnectionPadding = None, P_UseEntryGuards = None,
        P_ReducedConnectionPadding = None, P_StreamIsolation = None, P_IPv6 = None, P_ConfluxEnabled = None,
        P_CongestionControlAuto = None, P_Sandbox = None, P_CircuitFingerprintingResistance = None\<rparr>,
      P_Logging = \<lparr>P_Enabled = None, P_Level = None\<rparr>,
      P_Country = \<lparr>P_RotationInterval = None, P_TotalToChange = None\<rparr>,
      P_HealthCheck = \<lparr>P_ExitReputation = None\<rparr>\<rparr>"

definition three_entry :: profileEntry where
  "three_entry =
     \<lparr>p_Description = ''three'',
      p_Instances = Some \<lparr>p_PerCountry = Some 3, p_Countries = None, p_MaxConcurrentRequests = None, p_Retries = None\<rparr>,
      p_Relay = None, p_Proxy = None, p_Tor = None, p_Logging = None, p_Country = None, p_HealthCheck = None\<rparr>"

lemma readings_agree_witness:
  "\<exists>ps. profile_Load (\<lambda>p. Inr ''three'') (\<lambda>d. Inr [d \<mapsto> three_per_country]) ''configs/profiles.yaml'' = Inr ps \<and>
     (\<exists>p. ps ''three'' = Some p \<and> overlay three_entry Defaults = overlay (entry_of p) Defaults \<and>
        PerCountry (Instances (overlay three_entry Defaults)) = 3)"
proof -
  have "same_reading three_per_country three_entry"
    by (simp add: same_reading_def reads_as_def three_per_country_def three_entry_def instances_of_def relay_of_def
        proxy_of_def tor_of_def logging_of_def country_of_def health_of_def)
  moreover have "PerCountry (Instances (overlay three_entry Defaults)) = 3"
    by (simp add: three_entry_def overlay_def overlay_instances_def override_def)
  ultimately show ?thesis
    using readings_agree [of three_per_country three_entry Defaults] by (simp add: profile_Load_def)
qed

end
