(* ===== verification/Tor_Crew.thy ===== *)
theory Tor_Crew
  imports Tor_Restart
begin

section \<open>The supervisors on the Tor manager (internal/tor/restart.go, manager.go)\<close>

text \<open>
  \<open>Tor_Restart\<close> describes a supervisor and its instance by what matters for supervision. Here the
  same goroutines run on the objects they have in the program: the instances of the Tor manager,
  the processes of the process manager and the operations \<open>Start\<close>, \<open>Stop\<close>, \<open>Wait\<close> and
  \<open>RotateInstance\<close> as they are modelled for them. Each step of this crew is a step of the fleet
  or changes nothing there, so what holds in every reachable fleet holds of the real instances
  and processes.
\<close>

subsection \<open>Goroutines and world\<close>

text \<open>The local variables of \<open>RunWithRestart\<close> for one instance with the process its waiter waits for,
  and whether a rotation has stopped the instance and not yet started it again.\<close>

record watcher =
  w_pc :: sup_pc
  w_failures :: int
  w_timer :: bool
  w_ready_sent :: bool
  w_waiter :: "nat option"
  w_rotating :: bool
  w_rotated :: bool

definition new_watcher :: watcher where
  "new_watcher = \<lparr>w_pc = AtLoop, w_failures = 0, w_timer = False, w_ready_sent = False, w_waiter = None,
     w_rotating = False, w_rotated = False\<rparr>"

record 'o crew =
  crew_world :: "'o tor_world"
  watchers :: "watcher list"
  crew_chan :: nat
  crew_received :: nat
  crew_dropped :: nat
  crew_cancelled :: bool

abbreviation crew_insts :: "'o crew \<Rightarrow> Instance list" where
  "crew_insts s \<equiv> instances (torMgr (crew_world s))"

abbreviation crew_procs :: "'o crew \<Rightarrow> Process list" where
  "crew_procs s \<equiv> processes (procMgr (crew_world s))"

definition tor_name :: "nat \<Rightarrow> string" where
  "tor_name k = ''tor-'' @ itoa (int k)"

definition on_watcher :: "nat \<Rightarrow> watcher \<Rightarrow> 'o tor_world \<Rightarrow> 'o crew \<Rightarrow> 'o crew" where
  "on_watcher k wt w s = s\<lparr>crew_world := w, watchers := (watchers s)[k := wt]\<rparr>"

definition state_at :: "nat \<Rightarrow> State \<Rightarrow> 'o tor_world \<Rightarrow> 'o tor_world" where
  "state_at k st w = set_instance k (setState st (instances (torMgr w) ! k)) w"

definition state_of :: "'o crew \<Rightarrow> nat \<Rightarrow> State" where
  "state_of s k = inst_state (crew_insts s ! k)"

text \<open>Once the program's context is done every context derived from it is.\<close>

definition ctx_fits :: "bool \<Rightarrow> 'o tor_sys \<Rightarrow> bool" where
  "ctx_fits ctx_done sys \<longleftrightarrow> (ctx_done \<longrightarrow> (\<forall>v. ctx_Err sys v \<noteq> None))"

definition crew_all_started :: "'o crew \<Rightarrow> bool" where
  "crew_all_started s \<longleftrightarrow> crew_received s = length (watchers s)"

text \<open>In a run the answers \<open>sys\<close> of the system and the configuration may be others in every step. Processes of
  other parts of the program come and any process may exit at any time.\<close>

inductive crew_step :: "'o tor_sys \<Rightarrow> Config \<Rightarrow> 'o crew \<Rightarrow> 'o crew \<Rightarrow> bool" for sys cfg where
  start: "\<lbrakk>k < length (watchers s); watchers s ! k = wt; w_pc wt = AtLoop; ctx_fits (crew_cancelled s) sys;
      launch_at sys cfg k (crew_world s) = (None, w)\<rbrakk> \<Longrightarrow>
    crew_step sys cfg s (on_watcher k (wt\<lparr>w_pc := InSelect, w_timer := True, w_waiter := None\<rparr>) w s)"
| start_fails: "\<lbrakk>k < length (watchers s); watchers s ! k = wt; w_pc wt = AtLoop;
      launch_at sys cfg k (crew_world s) = (Some err, w)\<rbrakk> \<Longrightarrow>
    crew_step sys cfg s (on_watcher k (wt\<lparr>w_pc := InBackoff, w_failures := w_failures wt + 1\<rparr>) (state_at k StateFailed w) s)"
| backoff_ctx: "\<lbrakk>k < length (watchers s); watchers s ! k = wt; w_pc wt = InBackoff; crew_cancelled s\<rbrakk> \<Longrightarrow>
    crew_step sys cfg s (on_watcher k (wt\<lparr>w_pc := Gone\<rparr>) (crew_world s) s)"
| backoff_over: "\<lbrakk>k < length (watchers s); watchers s ! k = wt; w_pc wt = InBackoff\<rbrakk> \<Longrightarrow>
    crew_step sys cfg s (on_watcher k (wt\<lparr>w_pc := AtLoop\<rparr>) (crew_world s) s)"
| select_ctx: "\<lbrakk>k < length (watchers s); watchers s ! k = wt; w_pc wt = InSelect; crew_cancelled s\<rbrakk> \<Longrightarrow>
    crew_step sys cfg s (on_watcher k (wt\<lparr>w_pc := Gone\<rparr>) (crew_world s) s)"
| waits: "\<lbrakk>k < length (watchers s); watchers s ! k = wt; w_pc wt = InSelect; w_waiter wt = None\<rbrakk> \<Longrightarrow>
    crew_step sys cfg s (on_watcher k (wt\<lparr>w_waiter := inst_proc (crew_insts s ! k)\<rparr>) (crew_world s) s)"
| timer_first: "\<lbrakk>k < length (watchers s); watchers s ! k = wt; w_pc wt = InSelect; w_timer wt;
      state_of s k = StateBootstrapping; \<not> w_ready_sent wt; crew_chan s < length (watchers s)\<rbrakk> \<Longrightarrow>
    crew_step sys cfg s (on_watcher k (wt\<lparr>w_timer := False, w_failures := 0, w_ready_sent := True\<rparr>)
      (state_at k StateReady (crew_world s)) (s\<lparr>crew_chan := Suc (crew_chan s)\<rparr>))"
| timer_full: "\<lbrakk>k < length (watchers s); watchers s ! k = wt; w_pc wt = InSelect; w_timer wt;
      state_of s k = StateBootstrapping; \<not> w_ready_sent wt; \<not> crew_chan s < length (watchers s)\<rbrakk> \<Longrightarrow>
    crew_step sys cfg s (on_watcher k (wt\<lparr>w_timer := False, w_failures := 0, w_ready_sent := True\<rparr>)
      (state_at k StateReady (crew_world s)) (s\<lparr>crew_dropped := Suc (crew_dropped s)\<rparr>))"
| timer_again: "\<lbrakk>k < length (watchers s); watchers s ! k = wt; w_pc wt = InSelect; w_timer wt;
      state_of s k = StateBootstrapping; w_ready_sent wt\<rbrakk> \<Longrightarrow>
    crew_step sys cfg s (on_watcher k (wt\<lparr>w_timer := False, w_failures := 0\<rparr>) (state_at k StateReady (crew_world s)) s)"
| timer_late: "\<lbrakk>k < length (watchers s); watchers s ! k = wt; w_pc wt = InSelect; w_timer wt;
      state_of s k \<noteq> StateBootstrapping\<rbrakk> \<Longrightarrow>
    crew_step sys cfg s (on_watcher k (wt\<lparr>w_timer := False\<rparr>) (crew_world s) s)"
| exit_failed: "\<lbrakk>k < length (watchers s); watchers s ! k = wt; w_pc wt = InSelect; w_waiter wt = Some h;
      Process_Wait (procMgr (crew_world s)) h = Some (Some err); state_of s k \<noteq> StateFailed\<rbrakk> \<Longrightarrow>
    crew_step sys cfg s (on_watcher k (wt\<lparr>w_pc := InBackoff, w_failures := w_failures wt + 1\<rparr>)
      (state_at k StateFailed (crew_world s)) s)"
| exit_clean: "\<lbrakk>k < length (watchers s); watchers s ! k = wt; w_pc wt = InSelect; w_waiter wt = Some h;
      Process_Wait (procMgr (crew_world s)) h = Some res; res = None \<or> state_of s k = StateFailed\<rbrakk> \<Longrightarrow>
    crew_step sys cfg s (on_watcher k (wt\<lparr>w_pc := Gone\<rparr>) (crew_world s) s)"
| receive: "\<lbrakk>0 < crew_chan s; \<not> crew_all_started s\<rbrakk> \<Longrightarrow>
    crew_step sys cfg s (s\<lparr>crew_chan := crew_chan s - 1, crew_received := Suc (crew_received s)\<rparr>)"
| cancel: "crew_step sys cfg s (s\<lparr>crew_cancelled := True\<rparr>)"
| rotate_stop: "\<lbrakk>k < length (watchers s); watchers s ! k = wt; crew_all_started s; \<not> w_rotating wt;
      stop_at sys k (crew_world s) = (None, w)\<rbrakk> \<Longrightarrow>
    crew_step sys cfg s (on_watcher k (wt\<lparr>w_rotating := True, w_rotated := True\<rparr>) w s)"
| rotate_start: "\<lbrakk>k < length (watchers s); watchers s ! k = wt; crew_all_started s; w_rotating wt;
      ctx_fits (crew_cancelled s) sys; start_at sys cfg k (set_country k c (crew_world s)) = (None, w)\<rbrakk> \<Longrightarrow>
    crew_step sys cfg s (on_watcher k (wt\<lparr>w_rotating := False\<rparr>) w s)"
| rotate_fails: "\<lbrakk>k < length (watchers s); watchers s ! k = wt; crew_all_started s; w_rotating wt;
      start_at sys cfg k (set_country k c (crew_world s)) = (Some err, w)\<rbrakk> \<Longrightarrow>
    crew_step sys cfg s (on_watcher k (wt\<lparr>w_rotating := False\<rparr>) w s)"
| process_exits: "\<lbrakk>h < length (crew_procs s); \<not> done_closed (crew_procs s ! h)\<rbrakk> \<Longrightarrow>
    crew_step sys cfg s (s\<lparr>crew_world := (crew_world s)\<lparr>procMgr := on_process h (reap err) (procMgr (crew_world s))\<rparr>\<rparr>)"
| other_process: "\<lbrakk>\<forall>k. proc_Name p \<noteq> tor_name k\<rbrakk> \<Longrightarrow>
    crew_step sys cfg s (s\<lparr>crew_world := (crew_world s)\<lparr>procMgr := add p (procMgr (crew_world s))\<rparr>\<rparr>)"
| outside: "crew_step sys cfg s (s\<lparr>crew_world := (crew_world s)\<lparr>outside := v\<rparr>\<rparr>)"

text \<open>The instances as the manager has created them, and no process of Tor yet.\<close>

definition crew_init :: "nat \<Rightarrow> 'o crew \<Rightarrow> bool" where
  "crew_init n s \<longleftrightarrow> watchers s = replicate n new_watcher \<and> crew_chan s = 0 \<and> crew_received s = 0 \<and>
     crew_dropped s = 0 \<and> \<not> crew_cancelled s \<and> map inst_ID (crew_insts s) = map int [0..<n] \<and>
     list_all (\<lambda>i. inst_state i = StateStarting \<and> inst_proc i = None) (crew_insts s) \<and>
     list_all (\<lambda>p. \<forall>k. proc_Name p \<noteq> tor_name k) (crew_procs s)"

inductive crew_reach :: "nat \<Rightarrow> 'o crew \<Rightarrow> bool" for n where
  init: "crew_init n s \<Longrightarrow> crew_reach n s"
| step: "\<lbrakk>crew_reach n s; crew_step sys cfg s s'\<rbrakk> \<Longrightarrow> crew_reach n s'"

subsection \<open>The fleet that a crew implements\<close>

text \<open>The processes of an instance are those of its name.\<close>

definition own :: "nat \<Rightarrow> Manager \<Rightarrow> nat set" where
  "own k pm = {h. h < length (processes pm) \<and> proc_Name (processes pm ! h) = tor_name k}"

definition sup_of :: "Instance \<Rightarrow> nat \<Rightarrow> watcher \<Rightarrow> Manager \<Rightarrow> sup" where
  "sup_of inst k wt pm =
     \<lparr>sup_pc = w_pc wt, sup_state = inst_state inst, failures = w_failures wt, timer_armed = w_timer wt,
      ready_sent = w_ready_sent wt, waiter = w_waiter wt, current = inst_proc inst,
      running = {h \<in> own k pm. \<not> done_closed (processes pm ! h)}, used = own k pm,
      exit_err = (\<lambda>h. if h \<in> own k pm \<and> done_closed (processes pm ! h) then proc_wait (processes pm ! h) else None),
      rotating = w_rotating wt, rotated = w_rotated wt\<rparr>"

definition sups_of :: "'o crew \<Rightarrow> sup list" where
  "sups_of s = map (\<lambda>k. sup_of (crew_insts s ! k) k (watchers s ! k) (procMgr (crew_world s)))
     [0..<length (watchers s)]"

definition fleet_of :: "'o crew \<Rightarrow> fleet" where
  "fleet_of s = \<lparr>sups = sups_of s, chan_len = crew_chan s, received = crew_received s,
     dropped = crew_dropped s, ctx_cancelled = crew_cancelled s\<rparr>"

definition crew_ok :: "nat \<Rightarrow> 'o crew \<Rightarrow> bool" where
  "crew_ok n s \<longleftrightarrow> length (watchers s) = n \<and> map inst_ID (crew_insts s) = map int [0..<n] \<and>
     (\<forall>k < n. set_option (inst_proc (crew_insts s ! k)) \<subseteq> own k (procMgr (crew_world s)) \<and>
        set_option (w_waiter (watchers s ! k)) \<subseteq> own k (procMgr (crew_world s)))"

subsection \<open>What a step changes\<close>

lemma tor_name_inject [simp]: "tor_name j = tor_name k \<longleftrightarrow> j = k"
  by (simp add: tor_name_def)

text \<open>The process manager keeps what it has for an instance.\<close>

definition same_for :: "nat \<Rightarrow> Manager \<Rightarrow> Manager \<Rightarrow> bool" where
  "same_for j pm pm' \<longleftrightarrow> own j pm' = own j pm \<and> (\<forall>h \<in> own j pm. processes pm' ! h = processes pm ! h)"

lemma same_for_refl [simp]: "same_for j pm pm"
  by (simp add: same_for_def)

lemma same_for_sup_of: "same_for j pm pm' \<Longrightarrow> sup_of inst j wt pm' = sup_of inst j wt pm"
  by (auto simp: same_for_def sup_of_def intro!: ext)

lemma own_add:
  "own j (add p pm) = own j pm \<union> (if proc_Name p = tor_name j then {length (processes pm)} else {})"
  by (auto simp: own_def add_def nth_append less_Suc_eq)

lemma own_on_process:
  "proc_Name (f (processes pm ! h)) = proc_Name (processes pm ! h) \<Longrightarrow> own j (on_process h f pm) = own j pm"
  by (cases "h < length (processes pm)") (auto simp: own_def on_process_def nth_list_update)

lemma same_for_add: "proc_Name p \<noteq> tor_name j \<Longrightarrow> same_for j pm (add p pm)"
  by (auto simp: same_for_def own_add) (simp add: own_def add_def nth_append)

lemma same_for_on_process:
  "proc_Name (f (processes pm ! h)) = proc_Name (processes pm ! h) \<Longrightarrow> h \<notin> own j pm \<Longrightarrow>
   same_for j pm (on_process h f pm)"
  unfolding same_for_def using own_on_process [of f pm h j] by auto (metis on_process_simps(3))

lemma fresh_own: "length (processes pm) \<notin> own k pm"
  by (simp add: own_def)

text \<open>A step at index \<open>k\<close>: the instance, its watcher and the processes of its name.\<close>

definition only_at :: "nat \<Rightarrow> Instance \<Rightarrow> 'o tor_world \<Rightarrow> 'o tor_world \<Rightarrow> bool" where
  "only_at k inst w w' \<longleftrightarrow> instances (torMgr w') = (instances (torMgr w))[k := inst] \<and>
     inst_ID inst = inst_ID (instances (torMgr w) ! k) \<and>
     (\<forall>j. j \<noteq> k \<longrightarrow> same_for j (procMgr w) (procMgr w')) \<and> own k (procMgr w) \<subseteq> own k (procMgr w')"

lemma on_watcher_changes:
  assumes ok: "crew_ok n s" and k: "k < n" and only: "only_at k inst (crew_world s) w"
    and holds: "set_option (inst_proc inst) \<subseteq> own k (procMgr w)" "set_option (w_waiter wt) \<subseteq> own k (procMgr w)"
    and s0: "crew_world s0 = crew_world s" "watchers s0 = watchers s"
  shows "crew_ok n (on_watcher k wt w s0) \<and>
    sups_of (on_watcher k wt w s0) = (sups_of s)[k := sup_of inst k wt (procMgr w)]"
proof
  have len: "length (watchers s) = n" "length (crew_insts s) = n"
    using ok by (simp_all add: crew_ok_def) (metis diff_zero length_map length_upt)
  have insts: "crew_insts (on_watcher k wt w s0) = (crew_insts s)[k := inst]"
    and watch: "watchers (on_watcher k wt w s0) = (watchers s)[k := wt]"
    and pm: "procMgr (crew_world (on_watcher k wt w s0)) = procMgr w"
    using only s0 by (simp_all add: on_watcher_def only_at_def)
  have ids: "map inst_ID ((crew_insts s)[k := inst]) = map int [0..<n]"
  proof -
    have "map inst_ID ((crew_insts s)[k := inst]) = (map inst_ID (crew_insts s))[k := map inst_ID (crew_insts s) ! k]"
      using only k len by (simp add: only_at_def map_update)
    then show ?thesis using ok unfolding crew_ok_def by (simp only: list_update_id)
  qed
  have "own j (procMgr (crew_world s)) \<subseteq> own j (procMgr w)" for j
    using only by (cases "j = k") (auto simp: only_at_def same_for_def)
  note mono = this
  show "crew_ok n (on_watcher k wt w s0)"
  proof -
    have "set_option (inst_proc ((crew_insts s)[k := inst] ! j)) \<subseteq> own j (procMgr w) \<and>
        set_option (w_waiter ((watchers s)[k := wt] ! j)) \<subseteq> own j (procMgr w)" if "j < n" for j
      using ok holds k len that subset_trans [OF _ mono [of j]]
      by (cases "j = k") (simp_all add: crew_ok_def)
    with ids len show ?thesis unfolding crew_ok_def insts watch pm by simp
  qed
  show "sups_of (on_watcher k wt w s0) = (sups_of s)[k := sup_of inst k wt (procMgr w)]"
  proof (rule nth_equalityI)
    fix j assume "j < length (sups_of (on_watcher k wt w s0))"
    then have j: "j < n" by (simp add: sups_of_def watch len)
    show "sups_of (on_watcher k wt w s0) ! j = (sups_of s)[k := sup_of inst k wt (procMgr w)] ! j"
    proof (cases "j = k")
      case True
      then show ?thesis using k len by (simp add: sups_of_def insts watch pm)
    next
      case False
      then have "same_for j (procMgr (crew_world s)) (procMgr w)" using only by (simp add: only_at_def)
      from same_for_sup_of [OF this] show ?thesis
        using j False len by (simp add: sups_of_def insts watch pm)
    qed
  qed (simp add: sups_of_def watch)
qed

text \<open>With the step of the supervisor that it is.\<close>

lemma on_watcher_quiet:
  assumes "crew_ok n s" and "k < length (watchers s)" and "only_at k inst (crew_world s) w"
    and "set_option (inst_proc inst) \<subseteq> own k (procMgr w)" "set_option (w_waiter wt) \<subseteq> own k (procMgr w)"
    and "sup_step (crew_cancelled s) (sup_of (crew_insts s ! k) k (watchers s ! k) (procMgr (crew_world s))) ev
      (sup_of inst k wt (procMgr w))"
    and "ev = Quiet \<or> ev = Rotates \<and> crew_all_started s"
  shows "crew_ok n (on_watcher k wt w s) \<and> fleet_step (fleet_of s) (fleet_of (on_watcher k wt w s))"
proof -
  have k: "k < n" "k < length (sups_of s)" using assms(1,2) by (simp_all add: crew_ok_def sups_of_def)
  note ch = on_watcher_changes [OF assms(1) k(1) assms(3-5) refl refl]
  have "fleet_of (on_watcher k wt w s) = (fleet_of s)\<lparr>sups := (sups (fleet_of s))[k := sup_of inst k wt (procMgr w)]\<rparr>"
    using ch by (simp add: fleet_of_def) (simp add: on_watcher_def)
  moreover have "sups (fleet_of s) ! k = sup_of (crew_insts s ! k) k (watchers s ! k) (procMgr (crew_world s))"
    using assms(2) by (simp add: fleet_of_def sups_of_def)
  moreover have "all_started (fleet_of s) = crew_all_started s"
    by (simp add: all_started_def crew_all_started_def fleet_of_def sups_of_def)
  ultimately show ?thesis
    using ch k(2) assms(6,7) fleet_step.quiet [of k "fleet_of s"] fleet_step.rotate [of k "fleet_of s"]
    by (auto simp: fleet_of_def)
qed


subsection \<open>The operations on an instance\<close>

lemma Instance_Start_context:
  "Instance_Start sys cfg inst pm w = (None, inst', pm', w') \<Longrightarrow> \<exists>v. ctx_Err sys v = None"
  by (auto simp: Instance_Start_def Spawn_def Let_def split: prod.splits sum.splits option.splits)

lemma start_at_cases:
  assumes "start_at sys cfg k w = (e, w')" and "k < length (instances (torMgr w))"
    and "inst_ID (instances (torMgr w) ! k) = int k"
  obtains (failed) inst where "e \<noteq> None" and "only_at k inst w w'" and "procMgr w' = procMgr w"
      and "inst_proc inst = inst_proc (instances (torMgr w) ! k)"
      and "inst_state inst = StateFailed \<or> inst_state inst = inst_state (instances (torMgr w) ! k)"
    | (ok) inst p where "e = None" and "only_at k inst w w'" and "procMgr w' = add p (procMgr w)"
      and "inst_proc inst = Some (length (processes (procMgr w)))" and "inst_state inst = StateBootstrapping"
      and "proc_Name p = tor_name k" and "\<not> done_closed p" and "\<exists>v. ctx_Err sys v = None"
proof -
  let ?i = "instances (torMgr w) ! k"
  obtain e' inst pm v where s: "Instance_Start sys cfg ?i (procMgr w) (outside w) = (e', inst, pm, v)"
    by (metis prod_cases4)
  then have e: "e' = e" and w': "w' = set_instance k inst (w\<lparr>procMgr := pm, outside := v\<rparr>)"
    using assms(1) by (simp_all add: start_at_def)
  have fields: "instances (torMgr w') = (instances (torMgr w))[k := inst]" "procMgr w' = pm"
    by (simp_all add: w' set_instance_def)
  have only: "only_at k inst w w'" if "pm = procMgr w \<or> (\<exists>p. pm = add p (procMgr w) \<and> proc_Name p = tor_name k)"
    "identity inst = identity ?i"
    using that by (auto simp: only_at_def fields identity_def own_add intro!: same_for_add)
  from s [unfolded e] show thesis
  proof (cases rule: Instance_Start_cases)
    case files
    with failed [of inst] only fields show thesis by simp
  next
    case spawn
    with failed [of inst] only fields show thesis by simp
  next
    case (ok p)
    have "proc_Name p = tor_name k" using ok(5) assms(3) by (simp add: processName_def tor_name_def)
    moreover have "\<exists>v. ctx_Err sys v = None" using s ok(1) unfolding e by (auto dest: Instance_Start_context)
    ultimately show thesis using that(2) [of inst p] ok only fields by auto
  qed
qed

lemma only_at_before:
  assumes "only_at k inst (set_instance k i w) w'" and "inst_ID i = inst_ID (instances (torMgr w) ! k)"
    and "k < length (instances (torMgr w))"
  shows "only_at k inst w w'"
  using assms by (simp add: only_at_def set_instance_def)

lemma only_at_after:
  assumes "only_at k inst w w'" and "inst_ID i = inst_ID inst"
  shows "only_at k i w (set_instance k i w')"
  using assms by (simp add: only_at_def set_instance_def)

lemma only_at_state:
  "only_at k (setState st (instances (torMgr w) ! k)) w (state_at k st w)"
  by (simp add: only_at_def state_at_def set_instance_def setState_def)

lemma only_at_refl: "only_at k (instances (torMgr w) ! k) w w"
  by (simp add: only_at_def)

lemma only_at_nth: "only_at k inst w w' \<Longrightarrow> k < length (instances (torMgr w)) \<Longrightarrow> instances (torMgr w') ! k = inst"
  by (simp add: only_at_def)

lemma launch_at_cases:
  assumes "launch_at sys cfg k w = (e, w')" and "k < length (instances (torMgr w))"
    and "inst_ID (instances (torMgr w) ! k) = int k"
  obtains (failed) inst where "e \<noteq> None" and "only_at k inst w w'" and "procMgr w' = procMgr w"
      and "inst_proc inst = inst_proc (instances (torMgr w) ! k)"
    | (ok) inst p where "e = None" and "only_at k inst w w'" and "procMgr w' = add p (procMgr w)"
      and "inst_proc inst = Some (length (processes (procMgr w)))" and "inst_state inst = StateBootstrapping"
      and "proc_Name p = tor_name k" and "\<not> done_closed p" and "\<exists>v. ctx_Err sys v = None"
proof -
  let ?i = "setState StateBootstrapping ((instances (torMgr w) ! k)\<lparr>inst_cancelFunc := CancelSet\<rparr>)"
  note head = assms(1) [unfolded launch_at_def Let_def]
  have at: "k < length (instances (torMgr (set_instance k ?i w)))"
    "instances (torMgr (set_instance k ?i w)) ! k = ?i" "procMgr (set_instance k ?i w) = procMgr w"
    "inst_ID ?i = inst_ID (instances (torMgr w) ! k)" "inst_proc ?i = inst_proc (instances (torMgr w) ! k)"
    using assms(2) by (simp_all add: set_instance_def setState_def)
  have only: "only_at k inst (set_instance k ?i w) w' \<Longrightarrow> only_at k inst w w'" for inst
    using only_at_before [OF _ at(4) assms(2)] .
  have "inst_ID (instances (torMgr (set_instance k ?i w)) ! k) = int k" using at(2,4) assms(3) by simp
  from head at(1) this show thesis
  proof (cases rule: start_at_cases)
    case (failed inst)
    with that(1) [of inst] only at show thesis by simp
  next
    case (ok inst p)
    with that(2) [of inst p] only at show thesis by simp
  qed
qed

text \<open>\<open>Stop\<close> of an instance ends its process, if it has one that has not exited.\<close>

lemma stop_at_cases:
  assumes "stop_at sys k w = (e, w')" and "k < length (instances (torMgr w))"
    and "set_option (inst_proc (instances (torMgr w) ! k)) \<subseteq> own k (procMgr w)"
  obtains (none) inst where "only_at k inst w w'" and "inst_proc inst = None" and "procMgr w' = procMgr w"
      and "inst_proc (instances (torMgr w) ! k) = None" and "inst_state inst = StateStarting"
    | (some) inst h err where "only_at k inst w w'" and "inst_proc inst = Some h" and "inst_state inst = StateStarting"
      and "inst_proc (instances (torMgr w) ! k) = Some h" and "procMgr w' = Stop (Some h) err (procMgr w)"
proof -
  let ?i = "instances (torMgr w) ! k"
  obtain e' inst pm v where s: "Instance_Stop sys ?i (procMgr w) (outside w) = (e', inst, pm, v)"
    by (metis prod_cases4)
  then have w': "w' = set_instance k inst (w\<lparr>procMgr := pm, outside := v\<rparr>)"
    using assms(1) by (simp add: stop_at_def)
  have fields: "instances (torMgr w') = (instances (torMgr w))[k := inst]" "procMgr w' = pm"
    by (simp_all add: w' set_instance_def)
  have id: "inst_ID inst = inst_ID ?i" "inst_state inst = StateStarting" "inst_proc inst = inst_proc ?i"
    using s by (auto simp: Instance_Stop_def setState_def Let_def split: option.splits prod.splits if_splits)
  show thesis
  proof (cases "inst_proc ?i")
    case None
    then have "pm = procMgr w" using s by (auto simp: Instance_Stop_def Let_def split: if_splits option.splits)
    with that(1) [of inst] None id show thesis by (simp add: only_at_def fields)
  next
    case (Some h)
    then obtain err where pm: "pm = Stop (Some h) err (procMgr w)"
      using s by (auto simp: Instance_Stop_def Let_def split: if_splits option.splits prod.splits)
    have "h \<in> own k (procMgr w)" using assms(3) Some by simp
    then have other: "h \<notin> own j (procMgr w)" if "j \<noteq> k" for j using that by (simp add: own_def)
    have name: "proc_Name (let q' = mark_stopped q in if done_closed q' then q' else reap err q') = proc_Name q" for q
      by (simp add: Let_def)
    have "only_at k inst w w'"
      using id other name
      by (simp add: only_at_def fields pm Stop_def own_on_process same_for_on_process)
    with that(2) [of inst h err] Some id pm fields show thesis by simp
  qed
qed


subsection \<open>Every step of the crew is a step of the fleet\<close>

lemma sup_of_started:
  assumes "proc_Name p = tor_name k" and "\<not> done_closed p"
    and "inst_proc inst = Some (length (processes pm))" and "inst_state inst = StateBootstrapping"
  shows "sup_of inst k wt' (add p pm) = (new_process (length (processes pm)) (sup_of inst0 k wt pm))
    \<lparr>sup_pc := w_pc wt', failures := w_failures wt', timer_armed := w_timer wt', ready_sent := w_ready_sent wt',
     waiter := w_waiter wt', rotating := w_rotating wt', rotated := w_rotated wt'\<rparr>"
proof -
  have old: "processes (add p pm) ! h = processes pm ! h" if "h \<in> own k pm" for h
    using that by (simp add: own_def)
  have own: "own k (add p pm) = insert (length (processes pm)) (own k pm)"
    using assms(1) by (auto simp: own_add)
  have "{h \<in> own k (add p pm). \<not> done_closed (processes (add p pm) ! h)} =
      insert (length (processes pm)) {h \<in> own k pm. \<not> done_closed (processes pm ! h)}"
    using assms(2) by (auto simp: own old)
  moreover have "(if h \<in> own k (add p pm) \<and> done_closed (processes (add p pm) ! h)
        then proc_wait (processes (add p pm) ! h) else None) =
      (if h \<in> own k pm \<and> done_closed (processes pm ! h) then proc_wait (processes pm ! h) else None)" for h
    using assms(2) fresh_own [of pm k] by (cases "h = length (processes pm)") (auto simp: own old)
  ultimately show ?thesis
    using assms(3,4) by (simp add: sup_of_def new_process_def own)
qed

text \<open>A process that exits, or that \<open>Stop\<close> has made exit.\<close>

lemma sup_of_ended:
  assumes "h \<in> own k pm" and "\<not> done_closed (processes pm ! h)"
    and "proc_Name q = proc_Name (processes pm ! h)" and "done_closed q" and "proc_wait q = err"
    and "processes pm' = (processes pm)[h := q]"
  shows "sup_of inst k wt pm' = ends h err (sup_of inst k wt pm)"
proof -
  have h: "h < length (processes pm)" using assms(1) by (simp add: own_def)
  have own: "own k pm' = own k pm"
    using assms(3) h by (auto simp: own_def assms(6) nth_list_update)
  have "{i \<in> own k pm'. \<not> done_closed (processes pm' ! i)} = {i \<in> own k pm. \<not> done_closed (processes pm ! i)} - {h}"
    using assms(4) h by (auto simp: own assms(6) nth_list_update)
  moreover have "(\<lambda>i. if i \<in> own k pm' \<and> done_closed (processes pm' ! i) then proc_wait (processes pm' ! i) else None) =
      (\<lambda>i. if i \<in> own k pm \<and> done_closed (processes pm ! i) then proc_wait (processes pm ! i) else None)(h := err)"
    using assms(1,4,5) h by (auto simp: own assms(6) nth_list_update fun_eq_iff)
  ultimately show ?thesis by (simp add: sup_of_def ends_def own)
qed

lemma sup_of_stopped:
  assumes "h \<in> own k pm"
  shows "sup_of inst k wt (Stop (Some h) err pm) =
    (if h \<in> running (sup_of inst k wt pm) then ends h err (sup_of inst k wt pm) else sup_of inst k wt pm)"
proof (cases "done_closed (processes pm ! h)")
  case True
  have "processes (Stop (Some h) err pm) = (processes pm)[h := mark_stopped (processes pm ! h)]"
    using True by (simp add: Stop_def on_process_def Let_def)
  moreover have "proc_wait (mark_stopped q) = proc_wait q" for q by (simp add: mark_stopped_def)
  ultimately have "sup_of inst k wt (Stop (Some h) err pm) = sup_of inst k wt pm"
    using assms by (auto simp: sup_of_def own_def nth_list_update fun_eq_iff)
  moreover have "h \<notin> running (sup_of inst k wt pm)" using True by (simp add: sup_of_def)
  ultimately show ?thesis by (simp only: if_False)
next
  case False
  let ?q = "reap err (mark_stopped (processes pm ! h))"
  have "processes (Stop (Some h) err pm) = (processes pm)[h := ?q]"
    using False by (simp add: Stop_def on_process_def Let_def)
  then have "sup_of inst k wt (Stop (Some h) err pm) = ends h err (sup_of inst k wt pm)"
    using assms False by (intro sup_of_ended [where q = ?q]) (simp_all add: reap_def)
  then show ?thesis using assms False by (simp add: sup_of_def)
qed

lemma unrelated:
  assumes "crew_ok n s" and "instances (torMgr w) = crew_insts s"
    and "\<And>k. k < n \<Longrightarrow> same_for k (procMgr (crew_world s)) (procMgr w)"
  shows "crew_ok n (s\<lparr>crew_world := w\<rparr>) \<and> fleet_of (s\<lparr>crew_world := w\<rparr>) = fleet_of s"
proof -
  have "length (watchers s) = n" using assms(1) by (simp add: crew_ok_def)
  with assms same_for_sup_of [OF assms(3)] show ?thesis
    by (simp add: crew_ok_def fleet_of_def sups_of_def same_for_def)
qed


lemma crew_ok_at:
  assumes "crew_ok n s" and "k < length (watchers s)"
  shows "k < length (crew_insts s)" and "inst_ID (crew_insts s ! k) = int k"
    and "set_option (inst_proc (crew_insts s ! k)) \<subseteq> own k (procMgr (crew_world s))"
    and "set_option (w_waiter (watchers s ! k)) \<subseteq> own k (procMgr (crew_world s))"
proof -
  have ids: "map inst_ID (crew_insts s) = map int [0..<length (watchers s)]"
    using assms(1) by (simp add: crew_ok_def)
  then have "length (crew_insts s) = length (watchers s)" by (metis diff_zero length_map length_upt)
  then show "k < length (crew_insts s)" using assms(2) by simp
  with arg_cong [OF ids, of "\<lambda>xs. xs ! k"] assms(2) show "inst_ID (crew_insts s ! k) = int k" by simp
  show "set_option (inst_proc (crew_insts s ! k)) \<subseteq> own k (procMgr (crew_world s))"
    and "set_option (w_waiter (watchers s ! k)) \<subseteq> own k (procMgr (crew_world s))"
    using assms by (simp_all add: crew_ok_def)
qed

text \<open>A step of the goroutine alone, and one that also sets the state of its instance.\<close>

lemma local_step:
  assumes "crew_ok n s" and "k < length (watchers s)"
    and "set_option (w_waiter wt) \<subseteq> own k (procMgr (crew_world s))"
    and "sup_step (crew_cancelled s) (sup_of (crew_insts s ! k) k (watchers s ! k) (procMgr (crew_world s))) Quiet
      (sup_of (crew_insts s ! k) k wt (procMgr (crew_world s)))"
  shows "crew_ok n (on_watcher k wt (crew_world s) s) \<and>
    fleet_step (fleet_of s) (fleet_of (on_watcher k wt (crew_world s) s))"
  by (rule on_watcher_quiet [OF assms(1,2) only_at_refl crew_ok_at(3) [OF assms(1,2)] assms(3,4)]) simp

lemma state_step:
  assumes "crew_ok n s" and "k < length (watchers s)" and "w = state_at k st (crew_world s)"
    and "set_option (w_waiter wt) \<subseteq> own k (procMgr (crew_world s))"
    and "sup_step (crew_cancelled s) (sup_of (crew_insts s ! k) k (watchers s ! k) (procMgr (crew_world s))) Quiet
      (sup_of (setState st (crew_insts s ! k)) k wt (procMgr (crew_world s)))"
  shows "crew_ok n (on_watcher k wt w s) \<and> fleet_step (fleet_of s) (fleet_of (on_watcher k wt w s))"
proof -
  have pm: "procMgr w = procMgr (crew_world s)" by (simp add: assms(3) state_at_def set_instance_def)
  have "only_at k (setState st (crew_insts s ! k)) (crew_world s) w"
    unfolding assms(3) by (rule only_at_state)
  from on_watcher_quiet [OF assms(1,2) this] show ?thesis
    using crew_ok_at(3) [OF assms(1,2)] assms(4,5) by (simp add: pm setState_def)
qed

lemma ready_step:
  assumes "crew_ok n s" and "k < length (watchers s)" and "watchers s ! k = wt" and "w_pc wt = InSelect" and "w_timer wt"
    and "state_of s k = StateBootstrapping" and "\<not> w_ready_sent wt"
    and "wt' = wt\<lparr>w_timer := False, w_failures := 0, w_ready_sent := True\<rparr>"
    and "w = state_at k StateReady (crew_world s)"
  shows "crew_chan s < length (watchers s) \<longrightarrow>
      crew_ok n (on_watcher k wt' w (s\<lparr>crew_chan := Suc (crew_chan s)\<rparr>)) \<and>
      fleet_step (fleet_of s) (fleet_of (on_watcher k wt' w (s\<lparr>crew_chan := Suc (crew_chan s)\<rparr>)))"
    and "\<not> crew_chan s < length (watchers s) \<longrightarrow>
      crew_ok n (on_watcher k wt' w (s\<lparr>crew_dropped := Suc (crew_dropped s)\<rparr>)) \<and>
      fleet_step (fleet_of s) (fleet_of (on_watcher k wt' w (s\<lparr>crew_dropped := Suc (crew_dropped s)\<rparr>)))"
proof -
  let ?i = "setState StateReady (crew_insts s ! k)" and ?pm = "procMgr (crew_world s)"
  have pm: "procMgr w = ?pm" by (simp add: assms(9) state_at_def set_instance_def)
  have k: "k < n" "k < length (sups_of s)" using assms(1,2) by (simp_all add: crew_ok_def sups_of_def)
  have only: "only_at k ?i (crew_world s) w" unfolding assms(9) by (rule only_at_state)
  note ch = on_watcher_changes [OF assms(1) k(1) only, of wt', unfolded pm]
  have own: "set_option (inst_proc ?i) \<subseteq> own k ?pm" "set_option (w_waiter wt') \<subseteq> own k ?pm"
    using crew_ok_at(3,4) [OF assms(1,2)] assms(3,8) by (simp_all add: setState_def)
  have sup: "sups_of s ! k = sup_of (crew_insts s ! k) k wt ?pm" and len: "length (sups_of s) = length (watchers s)"
    using assms(2,3) by (simp_all add: sups_of_def)
  have "sup_step (crew_cancelled s) (sups_of s ! k) SignalReady (sup_of ?i k wt' ?pm)"
    using sup_step.timer_first [of "sups_of s ! k" "crew_cancelled s"] assms(4-8) unfolding sup
    by (simp add: sup_of_def state_of_def setState_def)
  show "crew_chan s < length (watchers s) \<longrightarrow>
      crew_ok n (on_watcher k wt' w (s\<lparr>crew_chan := Suc (crew_chan s)\<rparr>)) \<and>
      fleet_step (fleet_of s) (fleet_of (on_watcher k wt' w (s\<lparr>crew_chan := Suc (crew_chan s)\<rparr>)))"
    using ch [OF own, of "s\<lparr>crew_chan := Suc (crew_chan s)\<rparr>"] fleet_step.send [of k "fleet_of s" "sup_of ?i k wt' ?pm"]
      \<open>sup_step _ _ _ _\<close> k len
    by (simp add: fleet_of_def) (simp add: on_watcher_def)
  show "\<not> crew_chan s < length (watchers s) \<longrightarrow>
      crew_ok n (on_watcher k wt' w (s\<lparr>crew_dropped := Suc (crew_dropped s)\<rparr>)) \<and>
      fleet_step (fleet_of s) (fleet_of (on_watcher k wt' w (s\<lparr>crew_dropped := Suc (crew_dropped s)\<rparr>)))"
    using ch [OF own, of "s\<lparr>crew_dropped := Suc (crew_dropped s)\<rparr>"] fleet_step.drop [of k "fleet_of s" "sup_of ?i k wt' ?pm"]
      \<open>sup_step _ _ _ _\<close> k len
    by (simp add: fleet_of_def) (simp add: on_watcher_def)
qed


lemma started_step:
  assumes ok: "crew_ok n s" and k: "k < length (watchers s)"
    and only: "only_at k inst (crew_world s) w" and pm: "procMgr w = add p (procMgr (crew_world s))"
    and p: "proc_Name p = tor_name k" "\<not> done_closed p"
    and inst: "inst_proc inst = Some (length (crew_procs s))" "inst_state inst = StateBootstrapping"
    and waiter: "set_option (w_waiter wt) \<subseteq> own k (procMgr (crew_world s))"
    and step: "\<And>h S. S = sup_of (crew_insts s ! k) k (watchers s ! k) (procMgr (crew_world s)) \<Longrightarrow> h \<notin> used S \<Longrightarrow>
      sup_step (crew_cancelled s) S ev ((new_process h S)
        \<lparr>sup_pc := w_pc wt, failures := w_failures wt, timer_armed := w_timer wt, ready_sent := w_ready_sent wt,
         waiter := w_waiter wt, rotating := w_rotating wt, rotated := w_rotated wt\<rparr>)"
    and ev: "ev = Quiet \<or> ev = Rotates \<and> crew_all_started s"
  shows "crew_ok n (on_watcher k wt w s) \<and> fleet_step (fleet_of s) (fleet_of (on_watcher k wt w s))"
proof -
  let ?pm = "procMgr (crew_world s)" and ?S = "sup_of (crew_insts s ! k) k (watchers s ! k) (procMgr (crew_world s))"
  have "length (processes ?pm) \<notin> used ?S" using fresh_own by (simp add: sup_of_def)
  from step [OF refl this] have "sup_step (crew_cancelled s) ?S ev (sup_of inst k wt (procMgr w))"
    unfolding pm sup_of_started [OF p inst, of wt "crew_insts s ! k" "watchers s ! k"] .
  moreover have "own k (procMgr w) = insert (length (processes ?pm)) (own k ?pm)"
    using p by (auto simp: pm own_add)
  ultimately show ?thesis
    using inst waiter by (intro on_watcher_quiet [OF ok k only _ _ _ ev]) auto
qed

lemma crew_step_fleet:
  assumes "crew_step sys cfg s s'" and "crew_ok n s"
  shows "crew_ok n s' \<and> (fleet_step (fleet_of s) (fleet_of s') \<or> fleet_of s' = fleet_of s)"
  using assms
proof (induction rule: crew_step.induct)
  case (start k s wt w)
  note at = crew_ok_at [OF start.prems start(1)]
  from start(5) at(1,2) show ?case
  proof (cases rule: launch_at_cases)
    case (ok inst p)
    have "\<not> crew_cancelled s" using start(4) ok(8) unfolding ctx_fits_def by blast
    let ?wt = "wt\<lparr>w_pc := InSelect, w_timer := True, w_waiter := None\<rparr>"
    have "sup_step (crew_cancelled s) S Quiet ((new_process h S)
        \<lparr>sup_pc := w_pc ?wt, failures := w_failures ?wt, timer_armed := w_timer ?wt, ready_sent := w_ready_sent ?wt,
         waiter := w_waiter ?wt, rotating := w_rotating ?wt, rotated := w_rotated ?wt\<rparr>)"
      if "S = sup_of (crew_insts s ! k) k (watchers s ! k) (procMgr (crew_world s))" "h \<notin> used S" for h S
      using sup_step.start_ok [of S "crew_cancelled s" h] that \<open>\<not> crew_cancelled s\<close> start(2,3)
      by (simp add: sup_of_def new_process_def)
    from started_step [OF start.prems start(1) ok(2,3,6,7,4,5) _ this] show ?thesis by simp
  qed simp
next
  case (start_fails k s wt err w)
  note at = crew_ok_at [OF start_fails.prems start_fails(1)]
  from start_fails(4) at(1,2) show ?case
  proof (cases rule: launch_at_cases)
    case (failed inst)
    let ?w = "state_at k StateFailed w" and ?wt = "wt\<lparr>w_pc := InBackoff, w_failures := w_failures wt + 1\<rparr>"
    have w: "instances (torMgr w) ! k = inst" by (rule only_at_nth [OF failed(2) at(1)])
    have only: "only_at k (setState StateFailed inst) (crew_world s) ?w"
      unfolding state_at_def w by (rule only_at_after [OF failed(2)]) (simp add: setState_def)
    have pm: "procMgr ?w = procMgr (crew_world s)" by (simp add: failed(3) state_at_def set_instance_def)
    have "sup_step (crew_cancelled s) (sup_of (crew_insts s ! k) k wt (procMgr (crew_world s))) Quiet
        (sup_of (setState StateFailed inst) k ?wt (procMgr (crew_world s)))"
      using sup_step.start_fails [of "sup_of (crew_insts s ! k) k wt (procMgr (crew_world s))"] start_fails(3) failed(4)
      by (simp add: sup_of_def setState_def)
    then show ?thesis
      using on_watcher_quiet [OF start_fails.prems start_fails(1) only, of ?wt Quiet, unfolded pm] at(3,4) start_fails(2) failed(4)
      by (simp add: setState_def)
  qed simp
next
  case (backoff_ctx k s wt)
  then show ?case
    using local_step [OF backoff_ctx(5,1), of "wt\<lparr>w_pc := Gone\<rparr>"] crew_ok_at(4) [OF backoff_ctx(5,1)]
      sup_step.backoff_ctx [of "sup_of (crew_insts s ! k) k wt (procMgr (crew_world s))" "crew_cancelled s"]
    by (simp add: sup_of_def)
next
  case (backoff_over k s wt)
  then show ?case
    using local_step [OF backoff_over(4,1), of "wt\<lparr>w_pc := AtLoop\<rparr>"] crew_ok_at(4) [OF backoff_over(4,1)]
      sup_step.backoff_over [of "sup_of (crew_insts s ! k) k wt (procMgr (crew_world s))" "crew_cancelled s"]
    by (simp add: sup_of_def)
next
  case (select_ctx k s wt)
  then show ?case
    using local_step [OF select_ctx(5,1), of "wt\<lparr>w_pc := Gone\<rparr>"] crew_ok_at(4) [OF select_ctx(5,1)]
      sup_step.select_ctx [of "sup_of (crew_insts s ! k) k wt (procMgr (crew_world s))" "crew_cancelled s"]
    by (simp add: sup_of_def)
next
  case (waits k s wt)
  then show ?case
    using local_step [OF waits(5,1), of "wt\<lparr>w_waiter := inst_proc (crew_insts s ! k)\<rparr>"] crew_ok_at(3) [OF waits(5,1)]
      sup_step.waits [of "sup_of (crew_insts s ! k) k wt (procMgr (crew_world s))" "crew_cancelled s"]
    by (simp add: sup_of_def)
next
  case (timer_first k s wt)
  then show ?case using ready_step(1) [OF timer_first(8,1,2,3,4,5,6) refl refl] by simp
next
  case (timer_full k s wt)
  then show ?case using ready_step(2) [OF timer_full(8,1,2,3,4,5,6) refl refl] by simp
next
  case (timer_again k s wt)
  then show ?case
    using state_step [OF timer_again(7,1) refl, of "wt\<lparr>w_timer := False, w_failures := 0\<rparr>"] crew_ok_at(4) [OF timer_again(7,1)]
      sup_step.timer_again [of "sup_of (crew_insts s ! k) k wt (procMgr (crew_world s))" "crew_cancelled s"]
    by (simp add: sup_of_def state_of_def setState_def)
next
  case (timer_late k s wt)
  then show ?case
    using local_step [OF timer_late(6,1), of "wt\<lparr>w_timer := False\<rparr>"] crew_ok_at(4) [OF timer_late(6,1)]
      sup_step.timer_late [of "sup_of (crew_insts s ! k) k wt (procMgr (crew_world s))" "crew_cancelled s"]
    by (simp add: sup_of_def state_of_def)
next
  case (receive s)
  then show ?case using fleet_step.receive [of "fleet_of s"]
    by (simp add: crew_ok_def fleet_of_def sups_of_def all_started_def crew_all_started_def)
next
  case (cancel s)
  then show ?case using fleet_step.cancel [of "fleet_of s"]
    by (simp add: crew_ok_def fleet_of_def sups_of_def)
next
  case (outside s v)
  then show ?case using unrelated [of n s "(crew_world s)\<lparr>outside := v\<rparr>"] by simp
next
  case (other_process p s)
  then show ?case
    using unrelated [of n s "(crew_world s)\<lparr>procMgr := add p (procMgr (crew_world s))\<rparr>"] same_for_add by simp
next
  case (exit_failed k s wt h err)
  have h: "h \<in> own k (procMgr (crew_world s))" using crew_ok_at(4) [OF exit_failed(7,1)] exit_failed(2,4) by simp
  have d: "done_closed (crew_procs s ! h)" "proc_wait (crew_procs s ! h) = Some err"
    using exit_failed(5) by (simp_all add: Process_Wait_def Let_def split: if_splits)
  have "sup_step (crew_cancelled s) (sup_of (crew_insts s ! k) k (watchers s ! k) (procMgr (crew_world s))) Quiet
      (sup_of (setState StateFailed (crew_insts s ! k)) k (wt\<lparr>w_pc := InBackoff, w_failures := w_failures wt + 1\<rparr>)
        (procMgr (crew_world s)))"
    using sup_step.exit_failed [of "sup_of (crew_insts s ! k) k wt (procMgr (crew_world s))" h] exit_failed(2,3,4,6) h d
    by (simp add: sup_of_def setState_def state_of_def)
  then show ?case
    using state_step [OF exit_failed(7,1) refl] crew_ok_at(4) [OF exit_failed(7,1)] exit_failed(2) by simp
next
  case (exit_clean k s wt h res)
  have h: "h \<in> own k (procMgr (crew_world s))" using crew_ok_at(4) [OF exit_clean(7,1)] exit_clean(2,4) by simp
  have d: "done_closed (crew_procs s ! h)" "proc_wait (crew_procs s ! h) = res"
    using exit_clean(5) by (simp_all add: Process_Wait_def Let_def split: if_splits)
  have "sup_step (crew_cancelled s) (sup_of (crew_insts s ! k) k (watchers s ! k) (procMgr (crew_world s))) Quiet
      (sup_of (crew_insts s ! k) k (wt\<lparr>w_pc := Gone\<rparr>) (procMgr (crew_world s)))"
    using sup_step.exit_clean [of "sup_of (crew_insts s ! k) k wt (procMgr (crew_world s))" h] exit_clean(2,3,4,6) h d
    by (simp add: sup_of_def state_of_def)
  then show ?case
    using local_step [OF exit_clean(7,1)] crew_ok_at(4) [OF exit_clean(7,1)] exit_clean(2) by simp
next
  case (rotate_stop k s wt w)
  note at = crew_ok_at [OF rotate_stop.prems rotate_stop(1)]
  let ?S = "sup_of (crew_insts s ! k) k wt (procMgr (crew_world s))" and ?wt = "wt\<lparr>w_rotating := True, w_rotated := True\<rparr>"
  from rotate_stop(5) at(1,3) show ?case
  proof (cases rule: stop_at_cases)
    case (none inst)
    have "sup_step (crew_cancelled s) ?S Rotates (sup_of inst k ?wt (procMgr w))"
      using sup_step.rotate_stop_nil [of ?S] rotate_stop(4) none by (simp add: sup_of_def)
    then show ?thesis
      using on_watcher_quiet [OF rotate_stop.prems rotate_stop(1) none(1), of ?wt Rotates] rotate_stop(2,3) at(4) none
      by simp
  next
    case (some inst h err)
    have h: "h \<in> own k (procMgr (crew_world s))" using at(3) some(4) by simp
    have own: "own k (procMgr w) = own k (procMgr (crew_world s))"
      using some(5) by (simp add: Stop_def own_on_process Let_def)
    have ends: "sup_of inst k ?wt (procMgr w) = (if h \<in> running ?S then ends h err ?S else ?S)
        \<lparr>sup_state := StateStarting, rotating := True, rotated := True\<rparr>"
      unfolding some(5) sup_of_stopped [OF h] using some(2-4) by (auto simp: sup_of_def ends_def)
    have "sup_step (crew_cancelled s) ?S Rotates (sup_of inst k ?wt (procMgr w))"
      unfolding ends using rotate_stop(4) some(4) by (intro sup_step.rotate_stop) (simp_all add: sup_of_def)
    then show ?thesis
      using on_watcher_quiet [OF rotate_stop.prems rotate_stop(1) some(1), of ?wt Rotates] rotate_stop(2,3) at(4) some(2) h
      by (simp add: own)
  qed
next
  case (rotate_start k s wt c w)
  note at = crew_ok_at [OF rotate_start.prems rotate_start(1)]
  let ?i = "(crew_insts s ! k)\<lparr>inst_Country := c\<rparr>"
  have mid: "k < length (instances (torMgr (set_country k c (crew_world s))))"
    "instances (torMgr (set_country k c (crew_world s))) ! k = ?i" "procMgr (set_country k c (crew_world s)) = procMgr (crew_world s)"
    using at(1) by (simp_all add: set_country_def set_instance_def)
  have id: "inst_ID (instances (torMgr (set_country k c (crew_world s))) ! k) = int k" using at(2) mid(2) by simp
  from rotate_start(6) mid(1) id show ?case
  proof (cases rule: start_at_cases)
    case (ok inst p)
    have "only_at k inst (crew_world s) w"
      using only_at_before [OF ok(2) [unfolded set_country_def] _ at(1)] by simp
    moreover have "\<not> crew_cancelled s" using rotate_start(5) ok(8) unfolding ctx_fits_def by blast
    moreover have pm: "procMgr w = add p (procMgr (crew_world s))"
      "inst_proc inst = Some (length (crew_procs s))"
      using ok(3,4) mid(3) by simp_all
    moreover let ?wt = "wt\<lparr>w_rotating := False\<rparr>"
    have "sup_step (crew_cancelled s) S Rotates ((new_process h S)
        \<lparr>sup_pc := w_pc ?wt, failures := w_failures ?wt, timer_armed := w_timer ?wt, ready_sent := w_ready_sent ?wt,
         waiter := w_waiter ?wt, rotating := w_rotating ?wt, rotated := w_rotated ?wt\<rparr>)"
      if "S = sup_of (crew_insts s ! k) k (watchers s ! k) (procMgr (crew_world s))" "h \<notin> used S" for h S
      using sup_step.rotate_start [of S "crew_cancelled s" h] that \<open>\<not> crew_cancelled s\<close> rotate_start(2,4)
      by (simp add: sup_of_def new_process_def)
    ultimately show ?thesis
      using started_step [OF rotate_start.prems rotate_start(1) _ _ ok(6,7) _ ok(5), of w "wt\<lparr>w_rotating := False\<rparr>" Rotates]
        rotate_start(2,3) at(4) by simp
  qed simp
next
  case (rotate_fails k s wt c err w)
  note at = crew_ok_at [OF rotate_fails.prems rotate_fails(1)]
  let ?i = "(crew_insts s ! k)\<lparr>inst_Country := c\<rparr>"
  have mid: "k < length (instances (torMgr (set_country k c (crew_world s))))"
    "instances (torMgr (set_country k c (crew_world s))) ! k = ?i" "procMgr (set_country k c (crew_world s)) = procMgr (crew_world s)"
    using at(1) by (simp_all add: set_country_def set_instance_def)
  have id: "inst_ID (instances (torMgr (set_country k c (crew_world s))) ! k) = int k" using at(2) mid(2) by simp
  from rotate_fails(5) mid(1) id show ?case
  proof (cases rule: start_at_cases)
    case (failed inst)
    have only: "only_at k inst (crew_world s) w"
      using only_at_before [OF failed(2) [unfolded set_country_def] _ at(1)] by simp
    have "sup_step (crew_cancelled s) (sup_of (crew_insts s ! k) k wt (procMgr (crew_world s))) Rotates
        (sup_of inst k (wt\<lparr>w_rotating := False\<rparr>) (procMgr (crew_world s)))"
      using sup_step.rotate_fails [of "sup_of (crew_insts s ! k) k wt (procMgr (crew_world s))" "inst_state inst"]
        rotate_fails(4) failed(4,5) mid(2) by (simp add: sup_of_def)
    then show ?thesis
      using on_watcher_quiet [OF rotate_fails.prems rotate_fails(1) only, of "wt\<lparr>w_rotating := False\<rparr>" Rotates]
        rotate_fails(2,3) at(3,4) failed(3,4) mid(2,3) by simp
  qed simp
next
  case (process_exits h s err)
  let ?w = "(crew_world s)\<lparr>procMgr := on_process h (reap err) (procMgr (crew_world s))\<rparr>"
  have name: "proc_Name (reap err (crew_procs s ! h)) = proc_Name (crew_procs s ! h)" by simp
  show ?case
  proof (cases "\<exists>k < n. h \<in> own k (procMgr (crew_world s))")
    case True
    then obtain k where k: "k < n" "h \<in> own k (procMgr (crew_world s))" by blast
    then have len: "k < length (watchers s)" using process_exits(3) by (simp add: crew_ok_def)
    note at = crew_ok_at [OF process_exits(3) len]
    have same: "s\<lparr>crew_world := ?w\<rparr> = on_watcher k (watchers s ! k) ?w s" by (simp add: on_watcher_def)
    have "h \<notin> own j (procMgr (crew_world s))" if "j \<noteq> k" for j using k(2) that by (simp add: own_def)
    then have only: "only_at k (crew_insts s ! k) (crew_world s) ?w"
      using at(1) by (simp add: only_at_def own_on_process same_for_on_process)
    let ?S = "sup_of (crew_insts s ! k) k (watchers s ! k)"
    have "?S (procMgr ?w) = ends h err (?S (procMgr (crew_world s)))"
      using k(2) process_exits(2) by (intro sup_of_ended [where q = "reap err (crew_procs s ! h)"])
        (simp_all add: on_process_def reap_def)
    moreover have "h \<in> running (?S (procMgr (crew_world s)))"
      using k(2) process_exits(2) by (simp add: sup_of_def)
    ultimately have "sup_step (crew_cancelled s) (?S (procMgr (crew_world s))) Quiet (?S (procMgr ?w))"
      using sup_step.process_exits by simp
    then show ?thesis
      using on_watcher_quiet [OF process_exits(3) len only, of "watchers s ! k" Quiet] at(3,4)
      by (simp add: same own_on_process)
  next
    case False
    then show ?thesis using unrelated [OF process_exits(3), of ?w] same_for_on_process [where f = "reap err", OF name] by simp
  qed
qed


lemma crew_init_fleet: "crew_init n s \<Longrightarrow> crew_ok n s \<and> fleet_of s = fleet_init n"
proof -
  assume init: "crew_init n s"
  then have len: "length (crew_insts s) = n" and w: "watchers s = replicate n new_watcher"
    unfolding crew_init_def by (metis diff_zero length_map length_upt)+
  have none: "own k (procMgr (crew_world s)) = {}" for k
    using init by (auto simp: crew_init_def own_def list_all_length)
  have fresh: "inst_state (crew_insts s ! k) = StateStarting \<and> inst_proc (crew_insts s ! k) = None" if "k < n" for k
    using init that len by (auto simp: crew_init_def list_all_length)
  have "sup_of (crew_insts s ! k) k new_watcher (procMgr (crew_world s)) = sup_init" if "k < n" for k
    using fresh [OF that] none by (simp add: sup_of_def sup_init_def new_watcher_def)
  then have "sups_of s = replicate n sup_init"
    by (intro nth_equalityI) (simp_all add: sups_of_def w)
  then show ?thesis
    using init w fresh by (simp add: fleet_of_def fleet_init_def crew_init_def crew_ok_def new_watcher_def)
qed

lemma crew_reach_fleet: "crew_reach n s \<Longrightarrow> crew_ok n s \<and> fleet_reach n (fleet_of s)"
proof (induction rule: crew_reach.induct)
  case (init s)
  with crew_init_fleet [OF init] fleet_reach.init [of n] show ?case by simp
next
  case (step s s')
  with crew_step_fleet [OF step(2)] fleet_reach.step show ?case by metis
qed

text \<open>C9. The goroutines of \<open>StartAllWithRestart\<close> on the real instances and processes implement the fleet: from
  the instances as created, every state they reach is that of a reachable fleet, whatever the
  system answers, and every single step is a step of the fleet or none.\<close>

theorem crew_implements_fleet:
  assumes "crew_reach n s"
  shows "fleet_reach n (fleet_of s) \<and>
    (\<forall>sys cfg s'. crew_step sys cfg s s' \<longrightarrow> fleet_step (fleet_of s) (fleet_of s') \<or> fleet_of s' = fleet_of s)"
  using crew_reach_fleet [OF assms] crew_step_fleet by blast

text \<open>C10. So for the objects of the program: no message that an instance is ready is lost; when
  \<open>StartAllWithRestart\<close> returns every instance has reported itself; and until then, and after
  it for every instance that has not been rotated, the process manager has at most one process of
  the instance that has not exited, which is the one that the instance holds.\<close>

theorem crew_one_process:
  assumes "crew_reach n s" and "k < n"
    and "left = {h. h < length (crew_procs s) \<and> proc_Name (crew_procs s ! h) = tor_name k \<and>
      \<not> done_closed (crew_procs s ! h)}"
  shows "crew_dropped s = 0 \<and> (crew_all_started s \<longrightarrow> w_ready_sent (watchers s ! k)) \<and>
    (\<not> crew_all_started s \<or> \<not> w_rotated (watchers s ! k) \<longrightarrow>
       card left \<le> 1 \<and> left \<subseteq> set_option (inst_proc (crew_insts s ! k)))"
proof -
  have ok: "crew_ok n s" and reach: "fleet_reach n (fleet_of s)" using crew_reach_fleet [OF assms(1)] by auto
  let ?S = "sup_of (crew_insts s ! k) k (watchers s ! k) (procMgr (crew_world s))"
  have k: "k < length (watchers s)" using ok assms(2) by (simp add: crew_ok_def)
  then have mem: "?S \<in> set (sups (fleet_of s))" by (auto simp: fleet_of_def sups_of_def)
  have started: "all_started (fleet_of s) = crew_all_started s"
    by (simp add: all_started_def crew_all_started_def fleet_of_def sups_of_def)
  have left: "left = running ?S" by (auto simp: assms(3) sup_of_def own_def)
  have "dropped (fleet_of s) = 0" and "crew_all_started s \<longrightarrow> ready_sent ?S"
    using fleet_reach_inv [OF reach] fleet_ready [OF reach] mem started by (auto simp: fleet_inv_def)
  moreover have "card left \<le> 1 \<and> left \<subseteq> set_option (inst_proc (crew_insts s ! k))"
    if "\<not> crew_all_started s \<or> \<not> w_rotated (watchers s ! k)"
  proof -
    have "sup_inv ?S" and "\<not> rotated ?S"
      using fleet_reach_inv2 [OF reach] mem that started by (auto simp: fleet_inv2_def sup_of_def)
    then have sub: "left \<subseteq> set_option (inst_proc (crew_insts s ! k))"
      unfolding left by (simp add: sup_inv_def) (simp add: sup_of_def)
    then have "card left \<le> card (set_option (inst_proc (crew_insts s ! k)))" by (intro card_mono) simp_all
    also have "\<dots> \<le> 1" by (cases "inst_proc (crew_insts s ! k)") auto
    finally show ?thesis using sub by simp
  qed
  ultimately show ?thesis by (simp add: fleet_of_def sup_of_def)
qed

subsection \<open>A crew of two\<close>

definition demo_crew :: "int crew" where
  "demo_crew = \<lparr>crew_world = demo_world, watchers = replicate 2 new_watcher, crew_chan = 0, crew_received = 0,
     crew_dropped = 0, crew_cancelled = False\<rparr>"

lemma demo_crew_init: "crew_init 2 demo_crew"
  using demo_world_instances
  by (simp add: crew_init_def demo_crew_def numeral_2_eq_2 demo_world_def created_closed list_all_iff NewManager_def upt_conv_Cons)

text \<open>The first instance has been started.\<close>

lemma demo_crew_started:
  "\<exists>s :: int crew. crew_reach 2 s \<and> inst_proc (crew_insts s ! 0) = Some 0 \<and> length (crew_procs s) = 1 \<and> \<not> crew_all_started s"
proof -
  have k: "0 < length (instances (torMgr demo_world))" using demo_world_instances by simp
  have id: "inst_ID (instances (torMgr demo_world) ! 0) = int 0"
    using arg_cong [OF demo_world_instances(1), of "\<lambda>xs. xs ! 0"] k by simp
  have "\<exists>w. launch_at demo_tor_sys Defaults 0 demo_world = (None, w)"
    by (simp add: launch_at_def start_at_def Instance_Start_def generateTorrc_def generateDataDir_def demo_tor_sys_def
        Spawn_def Let_def split: prod.split)
  then obtain w where w: "launch_at demo_tor_sys Defaults 0 demo_world = (None, w)" by blast
  have "crew_step demo_tor_sys Defaults demo_crew (on_watcher 0 (new_watcher\<lparr>w_pc := InSelect, w_timer := True, w_waiter := None\<rparr>) w demo_crew)"
    using w by (intro crew_step.start)
      (simp_all add: demo_crew_def new_watcher_def ctx_fits_def numeral_2_eq_2)
  from crew_reach.step [OF crew_reach.init [OF demo_crew_init] this]
  have "crew_reach 2 (on_watcher 0 (new_watcher\<lparr>w_pc := InSelect, w_timer := True, w_waiter := None\<rparr>) w demo_crew)" .
  moreover from w k id have "inst_proc (instances (torMgr w) ! 0) = Some 0 \<and> length (processes (procMgr w)) = 1"
  proof (cases rule: launch_at_cases)
    case (ok inst p)
    have "processes (procMgr demo_world) = []" by (simp add: demo_world_def NewManager_def)
    then show ?thesis using ok(3,4) only_at_nth [OF ok(2) k] by simp
  qed simp
  ultimately show ?thesis
    by (intro exI [of _ "on_watcher 0 (new_watcher\<lparr>w_pc := InSelect, w_timer := True, w_waiter := None\<rparr>) w demo_crew"])
      (simp add: on_watcher_def crew_all_started_def demo_crew_def)
qed

lemma crew_implements_fleet_witness:
  "\<exists>s :: int crew. crew_reach 2 s \<and> length (crew_procs s) = 1 \<and> fleet_reach 2 (fleet_of s)"
  using demo_crew_started crew_implements_fleet by blast

lemma crew_one_process_witness:
  "\<exists>s :: int crew. crew_reach 2 s \<and> inst_proc (crew_insts s ! 0) = Some 0 \<and> \<not> crew_all_started s \<and>
     {h. h < length (crew_procs s) \<and> proc_Name (crew_procs s ! h) = tor_name 0 \<and> \<not> done_closed (crew_procs s ! h)} \<subseteq> {0}"
proof -
  obtain s :: "int crew" where s: "crew_reach 2 s" "inst_proc (crew_insts s ! 0) = Some 0" "\<not> crew_all_started s"
    using demo_crew_started by blast
  from crew_one_process [OF s(1), of 0, OF _ refl] s show ?thesis by (intro exI [of _ s]) simp
qed

end
