(* ===== verification/Cmd_Crew.thy ===== *)
theory Cmd_Crew
  imports Tor_Crew Cmd_Program
begin

section \<open>The supervisors in the running program\<close>

text \<open>
  The running program lets its supervisors do any sequence of \<open>supervisor_event\<close>. The goroutines
  as \<open>Tor_Crew\<close> has them do nothing else to the world: each of their steps is such a sequence, a
  change outside, the stop or the start of a rotation, or a process of another part of the
  program. So the invariants of the running program hold with them as its supervisors.
\<close>

lemma supervise_append: "supervise sys cfg (xs @ ys) w = supervise sys cfg ys (supervise sys cfg xs w)"
  by (induction sys cfg xs w rule: supervise.induct) simp_all

lemma supervise_state:
  "k < length (instances (torMgr w)) \<Longrightarrow> supervise sys cfg [SupState k st] w = state_at k st w"
  by (simp add: state_at_def)

lemma supervise_launch:
  "k < length (instances (torMgr w)) \<Longrightarrow> launch_at sys cfg k w = (e, w') \<Longrightarrow> supervise sys cfg [SupStart k] w = w'"
  by simp

lemma crew_step_world:
  assumes "crew_step sys cfg s s'" and "length (watchers s) = length (crew_insts s)"
  shows "(\<exists>evs. crew_world s' = supervise sys cfg evs (crew_world s)) \<or>
    (\<exists>v. crew_world s' = (crew_world s)\<lparr>outside := v\<rparr>) \<or>
    (\<exists>k < length (watchers s). crew_world s' = snd (stop_at sys k (crew_world s)) \<or>
       (\<exists>c. crew_world s' = snd (start_at sys cfg k (set_country k c (crew_world s))))) \<or>
    (\<exists>p. (\<forall>k. proc_Name p \<noteq> tor_name k) \<and>
       crew_world s' = (crew_world s)\<lparr>procMgr := add p (procMgr (crew_world s))\<rparr>)"
  (is "?sup \<or> ?outside \<or> ?rotation \<or> ?other")
  using assms
proof (induction rule: crew_step.induct)
  case (start k s wt w)
  then show ?case using supervise_launch [of k "crew_world s" sys cfg None w]
    by (intro disjI1 exI [of _ "[SupStart k]"]) (simp add: on_watcher_def)
next
  case (start_fails k s wt err w)
  have k: "k < length (instances (torMgr (crew_world s)))" using start_fails(1,5) by simp
  note run = supervise_launch [OF k start_fails(4)]
  have "k < length (instances (torMgr w))" using launch_at_effect(1) [OF start_fails(4) k] k by simp
  from supervise_state [OF this, of sys cfg StateFailed] run
  have "supervise sys cfg ([SupStart k] @ [SupState k StateFailed]) (crew_world s) = state_at k StateFailed w"
    unfolding supervise_append by simp
  then show ?case by (intro disjI1 exI [of _ "[SupStart k] @ [SupState k StateFailed]"]) (simp add: on_watcher_def)
next
  case (timer_first k s wt)
  then show ?case using supervise_state [of k "crew_world s" sys cfg StateReady]
    by (intro disjI1 exI [of _ "[SupState k StateReady]"]) (simp add: on_watcher_def del: supervise.simps)
next
  case (timer_full k s wt)
  then show ?case using supervise_state [of k "crew_world s" sys cfg StateReady]
    by (intro disjI1 exI [of _ "[SupState k StateReady]"]) (simp add: on_watcher_def del: supervise.simps)
next
  case (timer_again k s wt)
  then show ?case using supervise_state [of k "crew_world s" sys cfg StateReady]
    by (intro disjI1 exI [of _ "[SupState k StateReady]"]) (simp add: on_watcher_def del: supervise.simps)
next
  case (exit_failed k s wt h err)
  then show ?case using supervise_state [of k "crew_world s" sys cfg StateFailed]
    by (intro disjI1 exI [of _ "[SupState k StateFailed]"]) (simp add: on_watcher_def del: supervise.simps)
next
  case (process_exits h s err)
  then show ?case by (intro disjI1 exI [of _ "[SupExit h err]"]) simp
next
  case (rotate_stop k s wt w)
  then show ?case by (intro disjI2 disjI1 exI [of _ k]) (simp add: on_watcher_def)
next
  case (rotate_start k s wt c w)
  then have "w = snd (start_at sys cfg k (set_country k c (crew_world s)))" by simp
  then show ?case using rotate_start(1) by (intro disjI2 disjI1 exI [of _ k]) (auto simp: on_watcher_def)
next
  case (rotate_fails k s wt c err w)
  then have "w = snd (start_at sys cfg k (set_country k c (crew_world s)))" by simp
  then show ?case using rotate_fails(1) by (intro disjI2 disjI1 exI [of _ k]) (auto simp: on_watcher_def)
next
  case (other_process p s)
  then show ?case by (intro disjI2 exI [of _ p]) simp
next
  case (outside s v)
  show ?case by (intro disjI2 disjI1 exI [of _ v]) simp
qed (rule disjI1, rule exI [of _ "[]"], simp add: on_watcher_def)+

text \<open>A sequence of supervisor events in the running program.\<close>

inductive supervised :: "'o tor_sys \<Rightarrow> 'o hap_sys \<Rightarrow> 'o running \<Rightarrow> 'o running \<Rightarrow> bool" for sys hap where
  none: "supervised sys hap r r"
| event: "\<lbrakk>supervised sys hap r r'; run_step sys hap r' (EvSupervisor ev) r''\<rbrakk> \<Longrightarrow> supervised sys hap r r''"

lemma supervised_events:
  "supervised sys hap r (with_world (supervise sys (run_cfg r) evs (run_world r)) r)"
proof (induction evs rule: rev_induct)
  case Nil
  have "with_world (run_world r) r = r" by (simp add: with_world_def)
  then show ?case unfolding supervise.simps by (simp only: supervised.none)
next
  case (snoc ev evs)
  let ?r = "with_world (supervise sys (run_cfg r) evs (run_world r)) r"
  have "run_step sys hap ?r (EvSupervisor ev) (with_world (supervise sys (run_cfg ?r) [ev] (run_world ?r)) ?r)"
    by (rule run_step.supervisor)
  moreover have "with_world (supervise sys (run_cfg ?r) [ev] (run_world ?r)) ?r =
      with_world (supervise sys (run_cfg r) (evs @ [ev]) (run_world r)) r"
    by (simp add: supervise_append)
  ultimately show ?case using supervised.event [OF snoc] by simp
qed



end
