(* ===== verification/Spec2Isabelle.thy ===== *)
theory Spec2Isabelle
  imports Config_Load Port_Allocator Country_Metrics Tor_Restart Cmd_Run Cmd_Status Cli Proxy
    Health_DNS Health_Reputation Metrics_Registry Torrc Proxy_Files Cmd_Program Cmd_Running Cmd_Files
    Http_Server Cmd_Root Profile_Package Tor_Crew Cmd_Crew
begin

text \<open>
  Verification library of splitter, a proxy that runs many Tor processes in different countries
  behind one HAProxy.

  \<^bold>\<open>The program.\<close> \<open>splitter run\<close> loads a configuration (internal/config, through
  internal/cli), checks the programs it needs (internal/health/check.go), draws countries
  (internal/country/selector.go), makes one Tor instance per country and number (internal/tor) and
  starts each under a goroutine that restarts it (internal/tor/restart.go). When all have reported
  ready it starts the renewal of circuits over their control ports (internal/circuit), HAProxy in
  front of their ports (internal/haproxy) and the daemon that moves instances to other countries
  (internal/country/daemon.go). All child processes belong to one process manager
  (internal/process). SIGHUP loads the configuration again (cmd/reload.go, cmd/run.go), SIGINT and
  SIGTERM stop everything. \<open>splitter status\<close> prints the report of the running program.

  \<^bold>\<open>Theories.\<close>

  \<^item> \<open>Go_Prelude\<close>: 64-bit integers, strings, paths and shuffles of Go; the collections
    \<open>go_int\<close> (removes the wrap-around where a value fits) and \<open>go_eval\<close> (evaluates strings).
  \<^item> \<open>Config_Types\<close>, \<open>Config_Validate\<close>, \<open>Config_Env\<close>, \<open>Config_Profiles\<close>, \<open>Config_Load\<close>:
    internal/config/config.go, validate.go, env.go, profiles.go with internal/profile/profile.go,
    and loader.go; \<open>Profile_Package\<close>: the rest of internal/profile. The order of the five sources is
    proved with the locale \<open>env_field\<close>, a field of the configuration owned by some variables of the
    table.
  \<^item> \<open>Port_Allocator\<close>: internal/network/allocator.go; its contract is the locale
    \<open>port_pool\<close>.
  \<^item> \<open>Country_Selector\<close>, \<open>Country_Daemon\<close>, \<open>Country_Metrics\<close>: internal/country. The
    daemon works against the locale \<open>instance_rotator\<close>, its Go interface, and is itself a step
    relation with its channel, its goroutine and callers of \<open>Stop\<close>.
  \<^item> \<open>Process_Manager\<close>: internal/process, its operations as functions, and \<open>Stop\<close> again as the
    steps of concurrent callers; the refinement lemma connects the two.
  \<^item> \<open>Tor_Version\<close>, \<open>Tor_Instance\<close>, \<open>Tor_Manager\<close>, \<open>Tor_Restart\<close>: internal/tor.
    \<open>Tor_Manager\<close> interprets \<open>instance_rotator\<close> on the real manager; \<open>Tor_Restart\<close> is
    the supervisor and the fleet of all supervisors as step relations over what matters for
    supervision, \<open>Tor_Crew\<close> the same goroutines on the manager's instances and the process
    manager's processes, which implement that fleet.
  \<^item> \<open>Config_Text\<close>, \<open>Torrc\<close>, \<open>Proxy_Files\<close>: the files that splitter writes for Tor, HAProxy and
    Privoxy (templates/torrc.gotmpl, templates/haproxy.cfg.gotmpl, the template in
    internal/proxy/legacy.go) as lines of text, and how they are read.
  \<^item> \<open>Haproxy\<close>: internal/haproxy. \<open>Proxy\<close>: internal/proxy, whose Go interface is the locale
    \<open>http_proxy\<close>, interpreted on both implementations.
  \<^item> \<open>Circuit_Client\<close>, \<open>Circuit_Pattern\<close>, \<open>Circuit_Renewer\<close>: internal/circuit, the
    control protocol, the traffic window with the adaptive interval, and the workers with \<open>Stop\<close>
    as a step relation. \<open>session\<close> is the automaton of what a control connection may carry.
  \<^item> \<open>Health_Status\<close>, \<open>Health_DNS\<close>, \<open>Health_Reputation\<close>: internal/health.
  \<^item> \<open>Metrics_Registry\<close>: internal/metrics/registry.go and splitter.go.
  \<^item> \<open>Cli\<close>: internal/cli. \<open>Cmd_Status\<close>: cmd/status.go. \<open>Cmd_Reload\<close>: cmd/reload.go and
    \<open>handleReload\<close>. \<open>Cmd_Run\<close>: the body of the run command, the components' operations composed
    as cmd/run.go composes them.
  \<^item> \<open>Cmd_Program\<close>: what runs after the start, supervisors, country daemon and reloads, as one step
    relation \<open>run_step\<close> with its reachable states \<open>run_reach\<close>; \<open>Cmd_Running\<close>: its invariants;
    \<open>Cmd_Files\<close>: the configuration files written in its states; \<open>Cmd_Crew\<close>: the goroutines of
    \<open>Tor_Crew\<close> as its supervisors.
  \<^item> \<open>Http_Server\<close>: the two HTTP servers and their handlers (internal/health/status.go,
    internal/metrics/handler.go, server.go, \<open>startStatusServer\<close>). \<open>Cmd_Root\<close>: main.go, cmd/root.go,
    version.go and test.go, from the command line to the running program.

  \<^bold>\<open>How code becomes definitions.\<close> A struct is a record, field by field; operations keep
  their Go names, with a prefix where two packages share one (\<open>Tor_StartAll\<close>, \<open>Hap_Reload\<close>).
  Errors are values of a datatype per component: an option for a lone \<open>error\<close>, a sum for a
  result with an error. A run-time panic is \<open>None\<close>. Pointers into a shared structure are indices:
  a process is its place in the manager's list, a metric its place in the registry. A world
  \<open>'w\<close> or \<open>'o\<close> is handed through the calls of the operating system, the network, template
  engine, JSON and YAML codecs and random sources, which are parameters gathered in records
  (\<open>load_env\<close>, \<open>tor_sys\<close>, \<open>hap_sys\<close>, \<open>proxy_sys\<close>, \<open>wire\<close>, \<open>sock\<close>,
  \<open>metrics_env\<close>, \<open>rep_env\<close>). Goroutines are step relations in which the environment
  chooses what moves next, and properties hold in every reachable state.

  \<^bold>\<open>What is shown.\<close>

  \<^item> Configuration: which source decides a field; a loaded configuration is valid; validity is
    characterised exactly, where the ports fit in 64 bits.
  \<^item> Instances and ports: the layout made from a valid configuration, what HAProxy balances over,
    no port handed out twice; and a valid configuration whose ports collide.
  \<^item> Processes: at most one SIGTERM and one SIGKILL per process, callers of \<open>Stop\<close> do not block
    each other, the step relation refines the operation, and the shutdown leaves no process.
  \<^item> Supervision: no ready message is lost, one process per instance as long as none is rotated, both
    carried over to the real instances and processes by a simulation, and what goes wrong with
    rotated instances and with a process that ends before it was ready.
  \<^item> The running program, in every reachable state: instances and HAProxy hold processes of their own
    kind and never the same one; renewal workers, torrc files and HAProxy's file agree on ports and
    cookie files; every instance is in a country that some configuration allowed; the shared
    configuration is valid. A cycle of the daemon is a run of its single steps.
  \<^item> Files: what Tor and HAProxy read is what the instances have; speed mode is not rotated; bridges
    never reach Tor.
  \<^item> Command line: a program that runs was started from a valid configuration; an invalid one ends
    every command without a word.
  \<^item> Rotation: the daemon's cycle on the real manager, and its own start and stop.
  \<^item> Renewal: the control protocol is kept under all interleavings, \<open>Stop\<close> returns, the window
    counts exactly; a refused reconnection ends the renewal of an instance.
  \<^item> Reload: a successful one settles, a failed one is not tried again, flags are forgotten.
  \<^item> Health, proxies, metrics: what a report adds up to, the byte protocol of the SOCKS client for any
    cutting of the stream, the cache of reputations, the life of Privoxy processes, counted series.

  \<^bold>\<open>Bounds and termination.\<close> No definition uses fuel. Loops over lists are structural; the scans
  of the port allocator and the pause before a restart end by a measure. \<open>readFull\<close> may not end on
  a connection that keeps giving nothing, so it is a partial function, and that it returns on every
  other one is proved. Go's \<open>int\<close> wraps at 64 bits where it is computed
  with (\<open>add64\<close>, \<open>mul64\<close>). Values of \<open>float64\<close> are rationals: rates, scores and metric values
  are modelled without rounding, which is exact for counts below \<open>2 ^ 53\<close>. Times and durations are
  integers in nanoseconds. Letter case and white space are those of ASCII.

  \<^bold>\<open>Not modelled.\<close> How cobra finds a command and parses flags, net/http below its handlers, the
  engine of text/template, the JSON and YAML codecs, the file system and the network are parameters:
  they are libraries the sources call. Log messages and the attributes of internal/cli/logging.go
  have no effect on the modelled state. When signals arrive is left to the step relations. The stop of a
  rotation is one step from its call to its return, so what a supervisor may do while it waits for the
  process to exit comes before or after it.
\<close>

end
